(* ===== verification/Prelude.thy ===== *)
theory Prelude
  imports Main "HOL-Library.Sublist" "HOL-Library.Multiset" "HOL-Library.AList"
begin

text \<open>
  What the components share: the error values of the program (the format string and the
  arguments of \<open>fmt.Errorf\<close>, so that every early return is a distinguishable value), the
  part of \<open>fmt\<close> and \<open>strconv\<close> that renders them, the collections the proofs extend, and
  generic lemmas on lists that more than one component uses. A Go string or byte slice is a
  list of bytes, which is Isabelle's \<open>string\<close> (a \<open>char\<close> is 8 bits). A Go \<open>int\<close> is an
  \<open>int\<close>; every value here stays far below \<open>2^63\<close>, so that no operation of the model wraps.
\<close>

named_theorems go_string_simps \<open>equations of the Go string functions\<close>
named_theorems fs_simps \<open>reading after writing in the file system model\<close>

section \<open>Error values and their text\<close>

datatype go_error = Errorf string "fmt_arg list"
  and fmt_arg = AStr string | AInt int | AErr go_error | AQuote string

type_synonym 'a result = "go_error + 'a"

abbreviation nl :: char where "nl \<equiv> CHR 0x0A"

text \<open>Decimal digits of a number, as \<open>strconv.Itoa\<close> and the verb \<open>%d\<close> print them.\<close>

fun nat_digits :: "nat \<Rightarrow> string" where
  "nat_digits n =
     (if n < 10 then [char_of (48 + n)] else nat_digits (n div 10) @ [char_of (48 + n mod 10)])"

declare nat_digits.simps [simp del]

definition itoa :: "int \<Rightarrow> string" where
  "itoa i = (if i < 0 then CHR ''-'' # nat_digits (nat (- i)) else nat_digits (nat i))"

definition hex_digit :: "nat \<Rightarrow> char" where
  "hex_digit n = (if n < 10 then char_of (48 + n) else char_of (87 + n))"

text \<open>The verb \<open>%q\<close> (\<open>strconv.Quote\<close>) on ASCII text; a byte outside it is printed as \<open>\xNN\<close>.\<close>

definition quote_char :: "char \<Rightarrow> string" where
  "quote_char c =
     (let n = (of_char c :: nat) in
      if c = CHR 0x22 then [CHR 0x5C, CHR 0x22]
      else if c = CHR 0x5C then [CHR 0x5C, CHR 0x5C]
      else if n = 7 then [CHR 0x5C, CHR ''a'']
      else if n = 8 then [CHR 0x5C, CHR ''b'']
      else if n = 9 then [CHR 0x5C, CHR ''t'']
      else if n = 10 then [CHR 0x5C, CHR ''n'']
      else if n = 11 then [CHR 0x5C, CHR ''v'']
      else if n = 12 then [CHR 0x5C, CHR ''f'']
      else if n = 13 then [CHR 0x5C, CHR ''r'']
      else if n < 32 \<or> 126 < n then [CHR 0x5C, CHR ''x'', hex_digit (n div 16), hex_digit (n mod 16)]
      else [c])"

definition go_quote :: "string \<Rightarrow> string" where
  "go_quote s = CHR 0x22 # concat (map quote_char s) @ [CHR 0x22]"

text \<open>
  \<open>fmt.Sprintf\<close> with the verbs the source uses: each verb (a percent sign and one letter)
  consumes one argument, which knows how it prints; everything else is copied.
\<close>

fun sprintf :: "string \<Rightarrow> string list \<Rightarrow> string" where
  "sprintf [] args = []"
| "sprintf [c] args = [c]"
| "sprintf (c # d # cs) args =
     (if c = CHR ''%''
      then (case args of [] \<Rightarrow> c # d # sprintf cs [] | a # as \<Rightarrow> a @ sprintf cs as)
      else c # sprintf (d # cs) args)"

fun error_text :: "go_error \<Rightarrow> string"
  and arg_text :: "fmt_arg \<Rightarrow> string" where
  "error_text (Errorf f args) = sprintf f (map arg_text args)"
| "arg_text (AStr s) = s"
| "arg_text (AInt i) = itoa i"
| "arg_text (AErr e) = error_text e"
| "arg_text (AQuote s) = go_quote s"

section \<open>Sequencing results\<close>

text \<open>
  The pattern \<open>x, err := f(); if err != nil { return err }\<close>: \<open>result_bind\<close> goes on with the
  value or returns the error, \<open>require\<close> returns the error unless the condition holds,
  \<open>or_error\<close> is the comma-ok form, and \<open>map_error\<close> wraps the error.
\<close>

definition result_bind :: "'a result \<Rightarrow> ('a \<Rightarrow> 'b result) \<Rightarrow> 'b result" where
  "result_bind r f = (case r of Inl e \<Rightarrow> Inl e | Inr x \<Rightarrow> f x)"

definition require :: "bool \<Rightarrow> go_error \<Rightarrow> 'b result \<Rightarrow> 'b result" where
  "require b e r = (if b then r else Inl e)"

definition or_error :: "'a option \<Rightarrow> go_error \<Rightarrow> 'a result" where
  "or_error v e = (case v of None \<Rightarrow> Inl e | Some x \<Rightarrow> Inr x)"

definition map_error :: "(go_error \<Rightarrow> go_error) \<Rightarrow> 'a result \<Rightarrow> 'a result" where
  "map_error f r = (case r of Inl e \<Rightarrow> Inl (f e) | Inr x \<Rightarrow> Inr x)"

named_theorems result_simps \<open>when a sequence of steps succeeds and when it fails\<close>

lemma result_bind_simps [simp]: "result_bind (Inl e) f = Inl e" "result_bind (Inr x) f = f x"
  by (simp_all add: result_bind_def)

lemma result_bind_Inr [result_simps]: "result_bind r f = Inr y \<longleftrightarrow> (\<exists>x. r = Inr x \<and> f x = Inr y)"
  by (cases r) simp_all

lemma result_bind_Inl [result_simps]:
  "result_bind r f = Inl e \<longleftrightarrow> r = Inl e \<or> (\<exists>x. r = Inr x \<and> f x = Inl e)"
  by (cases r) simp_all

lemma require_Inr [result_simps]: "require b e r = Inr y \<longleftrightarrow> b \<and> r = Inr y"
  by (simp add: require_def)

lemma require_Inl [result_simps]: "require b e r = Inl e' \<longleftrightarrow> (\<not> b \<and> e = e') \<or> (b \<and> r = Inl e')"
  by (simp add: require_def)

lemma or_error_Inr [result_simps]: "or_error v e = Inr y \<longleftrightarrow> v = Some y"
  by (simp add: or_error_def split: option.split)

lemma or_error_Inl [result_simps]: "or_error v e = Inl e' \<longleftrightarrow> v = None \<and> e = e'"
  by (simp add: or_error_def split: option.split)

lemma map_error_Inr [result_simps]: "map_error f r = Inr y \<longleftrightarrow> r = Inr y"
  by (cases r) (simp_all add: map_error_def)

lemma map_error_Inl [result_simps]: "map_error f r = Inl e \<longleftrightarrow> (\<exists>e'. r = Inl e' \<and> e = f e')"
  by (cases r) (auto simp: map_error_def)

section \<open>Lists\<close>

text \<open>The half-open range \<open>xs[i:j]\<close> of a slice, for \<open>i \<le> j \<le> length xs\<close>.\<close>

definition span_of :: "'a list \<Rightarrow> nat \<Rightarrow> nat \<Rightarrow> 'a list" where
  "span_of xs i j = take (j - i) (drop i xs)"

lemma span_empty [simp]: "span_of xs i i = []"
  by (simp add: span_of_def)

lemma span_full [simp]: "span_of xs 0 (length xs) = xs"
  by (simp add: span_of_def)

lemma span_to_end: "span_of xs i (length xs) = drop i xs"
  by (simp add: span_of_def)

lemma length_span [simp]: "j \<le> length xs \<Longrightarrow> length (span_of xs i j) = j - i"
  by (simp add: span_of_def)

lemma span_append: "i \<le> j \<Longrightarrow> j \<le> k \<Longrightarrow> span_of xs i j @ span_of xs j k = span_of xs i k"
proof -
  assume le: "i \<le> j" "j \<le> k"
  have "drop j xs = drop (j - i) (drop i xs)" using le by simp
  moreover have "take (k - i) (drop i xs) = take (j - i + (k - j)) (drop i xs)" using le by simp
  ultimately show ?thesis by (simp only: span_of_def take_add)
qed

lemma span_Cons: "i < j \<Longrightarrow> i < length xs \<Longrightarrow> span_of xs i j = xs ! i # span_of xs (Suc i) j"
  by (simp add: span_of_def Cons_nth_drop_Suc [symmetric] Suc_diff_Suc [symmetric] del: diff_Suc_Suc)

lemma span_Suc [simp]: "i < length xs \<Longrightarrow> span_of xs i (Suc i) = [xs ! i]"
  by (simp add: span_Cons)

lemma map_nth_span: "j \<le> length xs \<Longrightarrow> map (\<lambda>k. xs ! k) [i..<j] = span_of xs i j"
  by (rule nth_equalityI) (auto simp: span_of_def)

lemma map_filter_member: "x \<in> set xs \<Longrightarrow> f x = Some y \<Longrightarrow> y \<in> set (List.map_filter f xs)"
  by (force simp: List.map_filter_def)

lemma sort_key_descending: "sorted_wrt (\<lambda>a b. f b \<le> (f a :: int)) (sort_key (\<lambda>x. - f x) xs)"
proof -
  have "sorted (map (\<lambda>x. - f x) (sort_key (\<lambda>x. - f x) xs))" by simp
  then show ?thesis by (simp add: sorted_map)
qed

section \<open>Association lists\<close>

text \<open>A Go map is its list of entries; \<open>AList.update\<close> is the assignment \<open>m[k] = v\<close>.\<close>

lemma set_update: "x \<in> set (AList.update k v al) \<Longrightarrow> x = (k, v) \<or> x \<in> set al"
  by (induction al) (auto split: if_splits)

lemma update_all:
  "(\<And>k v. (k, v) \<in> set al \<Longrightarrow> P k v) \<Longrightarrow> P k v \<Longrightarrow> (k', v') \<in> set (AList.update k v al) \<Longrightarrow> P k' v'"
  by (auto dest: set_update)

end
