(* ===== verification/GoStrings.thy ===== *)
theory GoStrings
  imports Prelude "HOL-Library.Char_ord"
begin

text \<open>
  The functions of Go's packages \<open>strings\<close>, \<open>bytes\<close> and \<open>path/filepath\<close> (on Unix) that the
  program uses, written as the library documents them. Byte-wise, as in Go: an index counts
  bytes. White space is the ASCII white space (\<open>strings.TrimSpace\<close> also knows U+0085, U+00A0
  and the multi-byte spaces of Unicode, which no component here depends on).
\<close>

section \<open>Package strings\<close>

definition has_prefix :: "string \<Rightarrow> string \<Rightarrow> bool" where
  "has_prefix s p \<longleftrightarrow> take (length p) s = p"

definition has_suffix :: "string \<Rightarrow> string \<Rightarrow> bool" where
  "has_suffix s p \<longleftrightarrow> length p \<le> length s \<and> drop (length s - length p) s = p"

definition trim_prefix :: "string \<Rightarrow> string \<Rightarrow> string" where
  "trim_prefix s p = (if has_prefix s p then drop (length p) s else s)"

definition trim_suffix :: "string \<Rightarrow> string \<Rightarrow> string" where
  "trim_suffix s p = (if has_suffix s p then take (length s - length p) s else s)"

text \<open>\<open>strings.Split\<close> with a one-byte separator, and \<open>strings.Join\<close>.\<close>

fun split_byte :: "char \<Rightarrow> string \<Rightarrow> string list" where
  "split_byte c [] = [[]]"
| "split_byte c (x # xs) =
     (if x = c then [] # split_byte c xs
      else (x # hd (split_byte c xs)) # tl (split_byte c xs))"

fun join :: "string \<Rightarrow> string list \<Rightarrow> string" where
  "join sep [] = []"
| "join sep [s] = s"
| "join sep (s # t # ts) = s @ sep @ join sep (t # ts)"

text \<open>\<open>strings.Index\<close>: the offset of the first occurrence (\<open>None\<close> for -1).\<close>

fun index_of :: "string \<Rightarrow> string \<Rightarrow> nat option" where
  "index_of [] p = (if p = [] then Some 0 else None)"
| "index_of (x # xs) p =
     (if has_prefix (x # xs) p then Some 0 else map_option Suc (index_of xs p))"

text \<open>\<open>strings.ReplaceAll\<close> for a non-empty pattern: leftmost, non-overlapping.\<close>

function replace_all :: "string \<Rightarrow> string \<Rightarrow> string \<Rightarrow> string" where
  "replace_all s old new =
     (if s = [] \<or> old = [] then s
      else if has_prefix s old then new @ replace_all (drop (length old) s) old new
      else hd s # replace_all (tl s) old new)"
  by pat_completeness auto
termination
  by (relation "measure (\<lambda>(s, old, new). length s)") (auto simp: neq_Nil_conv)

declare replace_all.simps [simp del]

definition is_space :: "char \<Rightarrow> bool" where
  "is_space c \<longleftrightarrow> c = CHR '' '' \<or> c = CHR 0x09 \<or> c = CHR 0x0A \<or> c = CHR 0x0B \<or> c = CHR 0x0C \<or> c = CHR 0x0D"

definition trim_space :: "string \<Rightarrow> string" where
  "trim_space s = rev (dropWhile is_space (rev (dropWhile is_space s)))"

definition upper_char :: "char \<Rightarrow> char" where
  "upper_char c = (let n = (of_char c :: nat) in if 97 \<le> n \<and> n \<le> 122 then char_of (n - 32) else c)"

definition to_upper :: "string \<Rightarrow> string" where
  "to_upper s = map upper_char s"

text \<open>Decimal numbers, the sign aside (\<open>strconv\<close>).\<close>

definition is_digit :: "char \<Rightarrow> bool" where
  "is_digit c \<longleftrightarrow> CHR ''0'' \<le> c \<and> c \<le> CHR ''9''"

definition number_of :: "string \<Rightarrow> nat option" where
  "number_of ds = (if list_all is_digit ds then Some (foldl (\<lambda>n c. 10 * n + (of_char c - 48)) 0 ds) else None)"

definition sign_of :: "string \<Rightarrow> bool \<times> string" where
  "sign_of t =
     (case t of [] \<Rightarrow> (False, [])
      | c # cs \<Rightarrow> if c = CHR ''-'' then (True, cs) else if c = CHR ''+'' then (False, cs) else (False, t))"

lemma has_prefix_append [simp]: "has_prefix (p @ s) p"
  by (simp add: has_prefix_def)

lemma has_prefix_iff: "has_prefix s p \<longleftrightarrow> (\<exists>t. s = p @ t)"
  by (metis append_take_drop_id has_prefix_append has_prefix_def)

lemma trim_suffix_append [simp]: "trim_suffix (s @ t) t = s" "has_suffix (s @ t) t"
  by (simp_all add: trim_suffix_def has_suffix_def)

lemma has_prefix_Nil [simp]: "has_prefix s []"
  by (simp add: has_prefix_def)

lemma split_byte_not_Nil [simp]: "split_byte c s \<noteq> []"
  by (cases s) auto

text \<open>Evaluated without computing the rest twice.\<close>

lemma split_byte_code [code]:
  "split_byte c [] = [[]]"
  "split_byte c (x # xs) =
     (if x = c then [] # split_byte c xs
      else case split_byte c xs of [] \<Rightarrow> [[x]] | p # ps \<Rightarrow> (x # p) # ps)"
  by (simp, cases "split_byte c xs") simp_all

lemma split_byte_absent: "c \<notin> set s \<Longrightarrow> split_byte c s = [s]"
  by (induction s) auto

lemma split_byte_pieces: "p \<in> set (split_byte c s) \<Longrightarrow> c \<notin> set p"
proof (induction s arbitrary: p)
  case (Cons x xs)
  then show ?case
    by (cases "split_byte c xs") (auto split: if_splits)
qed simp

lemma split_byte_append_sep: "split_byte c (s @ c # t) = split_byte c s @ split_byte c t"
  by (induction s) auto

lemma join_Cons: "ts \<noteq> [] \<Longrightarrow> join sep (s # ts) = s @ sep @ join sep ts"
  by (cases ts) auto

lemma join_append:
  "ss \<noteq> [] \<Longrightarrow> ts \<noteq> [] \<Longrightarrow> join sep (ss @ ts) = join sep ss @ sep @ join sep ts"
proof (induction ss)
  case (Cons s ss)
  then show ?case by (cases ss) (auto simp: join_Cons)
qed simp

lemma join_split_byte [simp]: "join [c] (split_byte c s) = s"
proof (induction s)
  case (Cons x xs)
  then show ?case
    by (cases "split_byte c xs"; cases "tl (split_byte c xs)") (auto simp: join_Cons)
qed simp

lemma split_byte_join:
  "ts \<noteq> [] \<Longrightarrow> \<forall>t \<in> set ts. c \<notin> set t \<Longrightarrow> split_byte c (join [c] ts) = ts"
proof (induction ts)
  case (Cons t ts)
  then show ?case
    by (cases ts) (auto simp: split_byte_absent split_byte_append_sep join_Cons)
qed simp

section \<open>Package path/filepath\<close>

abbreviation slash :: char where "slash \<equiv> CHR ''/''"

text \<open>
  \<open>filepath.Clean\<close>, purely lexical: the path is cut at its slashes, empty and \<open>.\<close> elements are
  dropped, \<open>..\<close> removes the element before it, is dropped at the root of a rooted path and kept
  at the start of another. The stack of the elements kept is in reverse.
\<close>

definition push_element :: "bool \<Rightarrow> string list \<Rightarrow> string \<Rightarrow> string list" where
  "push_element rooted st e =
     (if e = [] \<or> e = ''.'' then st
      else if e = ''..''
      then (case st of [] \<Rightarrow> if rooted then [] else [e]
            | t # ts \<Rightarrow> if t = ''..'' then e # st else ts)
      else e # st)"

definition clean_elements :: "bool \<Rightarrow> string list \<Rightarrow> string list" where
  "clean_elements rooted es = rev (foldl (push_element rooted) [] es)"

definition is_abs :: "string \<Rightarrow> bool" where
  "is_abs p \<longleftrightarrow> has_prefix p [slash]"

definition elements :: "string \<Rightarrow> string list" where
  "elements p = clean_elements (is_abs p) (split_byte slash p)"

definition path_clean :: "string \<Rightarrow> string" where
  "path_clean p =
     (if is_abs p then slash # join [slash] (elements p)
      else if elements p = [] then ''.'' else join [slash] (elements p))"

definition path_join :: "string list \<Rightarrow> string" where
  "path_join es =
     (case dropWhile (\<lambda>e. e = []) es of [] \<Rightarrow> [] | rest \<Rightarrow> path_clean (join [slash] rest))"

definition path_dir :: "string \<Rightarrow> string" where
  "path_dir p = path_clean (take (length p - length (last (split_byte slash p))) p)"

definition path_base :: "string \<Rightarrow> string" where
  "path_base p =
     (if p = [] then ''.''
      else let b = last (split_byte slash (rev (dropWhile (\<lambda>c. c = slash) (rev p))))
           in if b = [] then [slash] else b)"

definition path_ext :: "string \<Rightarrow> string" where
  "path_ext p =
     (let b = last (split_byte slash p)
      in if CHR ''.'' \<in> set b then CHR ''.'' # last (split_byte (CHR ''.'') b) else [])"

text \<open>What \<open>Clean\<close> leaves: no empty or \<open>.\<close> element, and \<open>..\<close> only at the front of a path that is not rooted.\<close>

fun clean_stack :: "bool \<Rightarrow> string list \<Rightarrow> bool" where
  "clean_stack rooted [] \<longleftrightarrow> True"
| "clean_stack rooted (e # st) \<longleftrightarrow>
     e \<noteq> [] \<and> e \<noteq> ''.'' \<and> slash \<notin> set e \<and> clean_stack rooted st \<and>
     (e = ''..'' \<longrightarrow> \<not> rooted \<and> set st \<subseteq> {''..''})"

lemma clean_stack_push:
  "clean_stack rooted st \<Longrightarrow> slash \<notin> set e \<Longrightarrow> clean_stack rooted (push_element rooted st e)"
  by (cases st) (auto simp: push_element_def)

lemma clean_stack_foldl:
  "clean_stack rooted st \<Longrightarrow> \<forall>e \<in> set es. slash \<notin> set e
     \<Longrightarrow> clean_stack rooted (foldl (push_element rooted) st es)"
  by (induction es arbitrary: st) (auto intro: clean_stack_push)

lemma clean_stack_elements: "clean_stack (is_abs p) (rev (elements p))"
  unfolding elements_def clean_elements_def
  by (simp add: clean_stack_foldl split_byte_pieces)

lemma push_clean_stack:
  "clean_stack rooted (e # st) \<Longrightarrow> push_element rooted st e = e # st"
  by (cases st) (auto simp: push_element_def)

lemma clean_stack_append: "clean_stack rooted (st @ st') \<Longrightarrow> clean_stack rooted st'"
  by (induction st) auto

lemma foldl_clean_stack:
  "clean_stack rooted (rev es @ st) \<Longrightarrow> foldl (push_element rooted) st es = rev es @ st"
proof (induction es arbitrary: st)
  case (Cons e es)
  have "clean_stack rooted (e # st)" using Cons.prems clean_stack_append by fastforce
  then show ?case using Cons by (simp add: push_clean_stack)
qed simp

lemma clean_stack_no_slash: "clean_stack rooted st \<Longrightarrow> e \<in> set st \<Longrightarrow> slash \<notin> set e \<and> e \<noteq> []"
  by (induction st) auto

lemma elements_no_slash: "e \<in> set (elements p) \<Longrightarrow> slash \<notin> set e \<and> e \<noteq> []"
  using clean_stack_no_slash [OF clean_stack_elements [of p], of e] by simp

lemma elements_Nil_slash [simp]: "push_element rooted st [] = st"
  by (simp add: push_element_def)

lemma split_join_elements:
  "elements p \<noteq> [] \<Longrightarrow> split_byte slash (join [slash] (elements p)) = elements p"
  by (rule split_byte_join) (auto dest: elements_no_slash)

lemma is_abs_join_elements: "\<not> is_abs (join [slash] (elements p))"
proof (cases "elements p")
  case Nil
  then show ?thesis by (simp add: is_abs_def has_prefix_def)
next
  case (Cons e es)
  have "slash \<notin> set e" "e \<noteq> []" using elements_no_slash [of e p] Cons by auto
  then show ?thesis using Cons by (cases e; cases es) (auto simp: is_abs_def has_prefix_def)
qed

lemma is_abs_clean [simp]: "is_abs (path_clean p) = is_abs p"
  using is_abs_join_elements [of p]
  by (auto simp: path_clean_def) (auto simp: is_abs_def has_prefix_def)

text \<open>\<open>Clean\<close> is idempotent: the elements of a cleaned path are those it was built from.\<close>

lemma elements_clean [simp]: "elements (path_clean p) = elements p"
proof -
  have fold: "foldl (push_element (is_abs p)) [] (elements p) = rev (elements p)"
    using foldl_clean_stack [of "is_abs p" "elements p" "[]"] clean_stack_elements [of p] by simp
  show ?thesis
  proof (cases "is_abs p")
    case True
    then have abs: "is_abs (slash # join [slash] (elements p))" by (simp add: is_abs_def has_prefix_def)
    have "split_byte slash (slash # join [slash] (elements p)) =
        [] # (if elements p = [] then [[]] else elements p)"
      by (auto simp: split_join_elements)
    then show ?thesis
      using True abs fold by (simp add: path_clean_def) (simp add: elements_def [of "slash # _"] clean_elements_def)
  next
    case False
    show ?thesis
    proof (cases "elements p = []")
      case True
      have "elements ''.'' = []" by code_simp
      then show ?thesis using True False by (simp add: path_clean_def)
    next
      case nonempty: False
      have "elements (join [slash] (elements p)) = clean_elements False (elements p)"
        using nonempty by (simp add: elements_def [of "join _ _"] is_abs_join_elements split_join_elements)
      then show ?thesis
        using False nonempty fold by (simp add: path_clean_def clean_elements_def)
    qed
  qed
qed

text \<open>
  Descending: elements that never step above their start only extend whatever they are put after.
\<close>

lemma dotdot_kept:
  "''..'' \<in> set st \<Longrightarrow> ''..'' \<in> set (foldl (push_element False) st es)"
proof (induction es arbitrary: st)
  case (Cons e es)
  have "''..'' \<in> set (push_element False st e)"
    using Cons.prems by (cases st) (auto simp: push_element_def)
  then show ?case using Cons.IH by simp
qed simp

lemma foldl_push_relative:
  assumes "''..'' \<notin> set (foldl (push_element False) st es)" and "''..'' \<notin> set st"
  shows "foldl (push_element rooted) (st @ base) es = foldl (push_element False) st es @ base"
  using assms
proof (induction es arbitrary: st)
  case (Cons e es)
  let ?st = "push_element False st e"
  have clear: "''..'' \<notin> set ?st"
    using dotdot_kept [of ?st es] Cons.prems(1) by auto
  then have "push_element rooted (st @ base) e = ?st @ base"
    using Cons.prems(2) by (cases st) (auto simp: push_element_def split: if_splits)
  then show ?case using Cons.IH [OF _ clear] Cons.prems(1) by simp
qed simp

lemma elements_join:
  assumes "base \<noteq> []" and "\<not> is_abs p" and "''..'' \<notin> set (elements p)"
  shows "elements (path_join [base, p]) = elements base @ elements p"
proof -
  have join: "path_join [base, p] = path_clean (base @ slash # p)"
    using assms(1) by (simp add: path_join_def)
  have abs: "is_abs (base @ slash # p) = is_abs base"
    using assms(1) by (cases base) (auto simp: is_abs_def has_prefix_def)
  let ?b = "foldl (push_element (is_abs base)) [] (split_byte slash base)"
  have "''..'' \<notin> set (foldl (push_element False) [] (split_byte slash p))"
    using assms(2,3) by (simp add: elements_def clean_elements_def)
  from foldl_push_relative [OF this, of "is_abs base" ?b]
  have "foldl (push_element (is_abs base)) ?b (split_byte slash p)
      = foldl (push_element False) [] (split_byte slash p) @ ?b" by simp
  then show ?thesis
    using assms(2) abs
    by (simp add: join elements_def [of "base @ slash # p"] split_byte_append_sep clean_elements_def
        elements_def [of p] elements_def [of base])
qed

text \<open>A cleaned relative path that does not begin with \<open>..\<close> has no \<open>..\<close> element at all.\<close>

lemma clean_stack_bottom:
  "clean_stack rooted (st @ [e]) \<Longrightarrow> ''..'' \<in> set (st @ [e]) \<Longrightarrow> e = ''..''"
  by (induction st) auto

lemma no_dotdot_elements:
  assumes "\<not> has_prefix (path_clean p) ''..''" and "\<not> is_abs p"
  shows "''..'' \<notin> set (elements p)"
proof
  assume dotdot: "''..'' \<in> set (elements p)"
  then obtain e es where es: "elements p = e # es" by (cases "elements p") auto
  have "e = ''..''"
    using clean_stack_bottom [of "is_abs p" "rev es" e] clean_stack_elements [of p] es dotdot by simp
  then have "has_prefix (join [slash] (elements p)) ''..''"
    using es by (cases es) (simp_all add: has_prefix_def)
  then show False using assms es by (simp add: path_clean_def)
qed

section \<open>Names below a directory\<close>

definition plain_name :: "string \<Rightarrow> bool" where
  "plain_name n \<longleftrightarrow> n \<noteq> [] \<and> n \<noteq> ''.'' \<and> n \<noteq> ''..'' \<and> slash \<notin> set n"

lemma plain_name_elements: "plain_name n \<Longrightarrow> elements n = [n] \<and> \<not> is_abs n"
  by (cases n)
    (auto simp: plain_name_def elements_def clean_elements_def push_element_def is_abs_def has_prefix_def split_byte_absent)

lemma elements_join_name:
  "d \<noteq> [] \<Longrightarrow> plain_name n \<Longrightarrow> elements (path_join [d, n]) = elements d @ [n]"
  using elements_join [of d n] plain_name_elements [of n] by (auto simp: plain_name_def)

lemma path_join_inj:
  "d \<noteq> [] \<Longrightarrow> plain_name n \<Longrightarrow> plain_name m \<Longrightarrow> path_join [d, n] = path_join [d, m] \<longleftrightarrow> n = m"
  by (metis elements_join_name append1_eq_conv)

lemma path_join_name:
  assumes "d \<noteq> []" and "plain_name n"
  shows "path_join [d, n] = (if is_abs d then [slash] else []) @ join [slash] (elements d @ [n])"
proof -
  have j: "path_join [d, n] = path_clean (d @ slash # n)" using assms by (simp add: path_join_def plain_name_def)
  moreover have "elements (d @ slash # n) = elements d @ [n]"
    using elements_join_name [OF assms] j elements_clean by metis
  moreover have "is_abs (d @ slash # n) = is_abs d" using assms(1) by (cases d) (auto simp: is_abs_def has_prefix_def)
  ultimately show ?thesis by (simp add: path_clean_def)
qed

lemma split_join_name:
  assumes "d \<noteq> []" and "plain_name n"
  shows "split_byte slash (path_join [d, n]) = (if is_abs d then [[]] else []) @ elements d @ [n]"
proof -
  have "split_byte slash (join [slash] (elements d @ [n])) = elements d @ [n]"
    using assms(2) elements_no_slash [of _ d] by (intro split_byte_join) (auto simp: plain_name_def)
  then show ?thesis by (simp add: path_join_name [OF assms])
qed

lemma path_base_join: "d \<noteq> [] \<Longrightarrow> plain_name n \<Longrightarrow> path_base (path_join [d, n]) = n"
proof -
  assume d: "d \<noteq> []" and n: "plain_name n"
  let ?p = "path_join [d, n]"
  obtain pre where pre: "?p = pre @ n"
    using path_join_name [OF d n] by (cases "elements d = []") (auto simp: join_append)
  have "dropWhile (\<lambda>c. c = slash) (rev ?p) = rev ?p"
    using n unfolding pre plain_name_def by (cases n rule: rev_cases) auto
  then show ?thesis
    using split_join_name [OF d n] n pre by (simp add: path_base_def plain_name_def Let_def del: append_assoc)
qed

lemma path_clean_slash: "p \<noteq> [] \<Longrightarrow> path_clean (p @ [slash]) = path_clean p"
proof -
  assume p: "p \<noteq> []"
  then have abs: "is_abs (p @ [slash]) = is_abs p" by (cases p) (auto simp: is_abs_def has_prefix_def)
  moreover have "elements (p @ [slash]) = elements p"
    using split_byte_append_sep [of slash p "[]"] by (simp add: elements_def abs clean_elements_def)
  ultimately show ?thesis by (simp add: path_clean_def)
qed

lemma path_clean_twice [simp]: "path_clean (path_clean p) = path_clean p"
  by (simp add: path_clean_def [of "path_clean p"]) (simp add: path_clean_def)

lemma path_dir_join: "d \<noteq> [] \<Longrightarrow> plain_name n \<Longrightarrow> path_dir (path_join [d, n]) = path_clean d"
proof -
  assume d: "d \<noteq> []" and n: "plain_name n"
  have last: "last (split_byte slash (path_join [d, n])) = n" using split_join_name [OF d n] by simp
  show ?thesis
  proof (cases "elements d = []")
    case True
    have "path_clean [slash] = [slash]" "path_clean [] = ''.''" by code_simp+
    then show ?thesis
      using True last path_join_name [OF d n] by (simp add: path_dir_def path_clean_def [of d])
  next
    case False
    have "path_join [d, n] = (path_clean d @ [slash]) @ n"
      using False path_join_name [OF d n] by (simp add: path_clean_def join_append)
    moreover have "path_clean d \<noteq> []"
      using False elements_no_slash [of "[]" d] by (cases "elements d"; cases "tl (elements d)") (auto simp: path_clean_def)
    ultimately show ?thesis using last by (simp add: path_dir_def path_clean_slash del: append_assoc)
  qed
qed

section \<open>Numbers that were printed\<close>

lemma digit_char: "d < 10 \<Longrightarrow> is_digit (char_of (48 + d)) \<and> of_char (char_of (48 + d) :: char) = (48 + d :: nat)"
  by (simp add: is_digit_def less_eq_char_def)

lemma number_snoc: "number_of ds = Some n \<Longrightarrow> d < 10 \<Longrightarrow> number_of (ds @ [char_of (48 + d)]) = Some (10 * n + d)"
  using digit_char [of d] by (auto simp: number_of_def split: if_splits)

lemma number_digits: "number_of (nat_digits n) = Some n \<and> nat_digits n \<noteq> []"
proof (induction n rule: nat_digits.induct)
  case (1 n)
  show ?case
  proof (cases "n < 10")
    case True
    then show ?thesis using digit_char [of n] by (simp add: nat_digits.simps [of n] number_of_def)
  next
    case False
    then show ?thesis using number_snoc [of "nat_digits (n div 10)" "n div 10" "n mod 10"] 1 by (simp add: nat_digits.simps [of n])
  qed
qed

lemma digits_plain: "c \<in> set (nat_digits n) \<Longrightarrow> is_digit c"
  using number_digits [of n] by (auto simp: number_of_def list_all_iff split: if_splits)

lemma not_digit: "\<not> is_digit (CHR ''-'')" "\<not> is_digit (CHR ''+'')" "is_space c \<Longrightarrow> \<not> is_digit c"
  by (auto simp: is_digit_def is_space_def less_eq_char_def)

end
