(* ===== verification/FileSystem.thy ===== *)
theory FileSystem
  imports GoStrings "HOL-Library.List_Lexorder" "HOL-Library.Char_ord"
begin

text \<open>
  The operating system's files as the program sees them through package \<open>os\<close>: a table from
  cleaned paths to files and directories, and the failures the environment adds (permissions,
  a full disk), given by \<open>faults\<close> for an operation and a path. A failing write leaves the file as
  it was: short writes are left out. Each operation is the call of the same name in Go,
  with its error. Modes, links and times are left out. The interface \<open>file_store\<close> states what
  a client relies on: a written file is read back, and no other file changes.
\<close>

datatype node = FileNode string | DirNode

record fs =
  nodes :: "(string \<times> node) list"
  faults :: "((string \<times> string) \<times> go_error) list"

definition fault :: "fs \<Rightarrow> string \<Rightarrow> string \<Rightarrow> go_error option" where
  "fault s op p = map_of (faults s) (op, p)"

definition not_exist :: "string \<Rightarrow> string \<Rightarrow> go_error" where
  "not_exist op p = Errorf ''%s %s: no such file or directory'' [AStr op, AStr p]"

fun is_not_exist :: "go_error \<Rightarrow> bool" where
  "is_not_exist (Errorf f args) \<longleftrightarrow> f = ''%s %s: no such file or directory''"

definition lookup :: "fs \<Rightarrow> string \<Rightarrow> node option" where
  "lookup s p = map_of (nodes s) p"

definition put_node :: "string \<Rightarrow> node \<Rightarrow> fs \<Rightarrow> fs" where
  "put_node p n s = s\<lparr>nodes := AList.update p n (nodes s)\<rparr>"

definition is_dir :: "fs \<Rightarrow> string \<Rightarrow> bool" where
  "is_dir s p \<longleftrightarrow> p = [slash] \<or> p = ''.'' \<or> lookup s p = Some DirNode"

definition os_ReadFile :: "fs \<Rightarrow> string \<Rightarrow> string result" where
  "os_ReadFile s p =
     (case fault s ''open'' p of Some e \<Rightarrow> Inl e
      | None \<Rightarrow> (case lookup s p of
           None \<Rightarrow> Inl (not_exist ''open'' p)
         | Some DirNode \<Rightarrow> Inl (Errorf ''read %s: is a directory'' [AStr p])
         | Some (FileNode d) \<Rightarrow> Inr d))"

definition os_Stat :: "fs \<Rightarrow> string \<Rightarrow> node result" where
  "os_Stat s p =
     (case fault s ''stat'' p of Some e \<Rightarrow> Inl e
      | None \<Rightarrow> (case lookup s p of None \<Rightarrow> Inl (not_exist ''stat'' p) | Some n \<Rightarrow> Inr n))"

text \<open>What \<open>os.IsNotExist\<close> says of a \<open>Stat\<close>.\<close>

definition missing_dir :: "fs \<Rightarrow> string \<Rightarrow> bool" where
  "missing_dir s dir \<longleftrightarrow> (case os_Stat s dir of Inl err \<Rightarrow> is_not_exist err | Inr _ \<Rightarrow> False)"

text \<open>Opening for writing: the parent must be a directory and the path must not be one.\<close>

definition open_write :: "fs \<Rightarrow> string \<Rightarrow> go_error option" where
  "open_write s p =
     (case fault s ''write'' p of Some e \<Rightarrow> Some e
      | None \<Rightarrow>
         (if lookup s p = Some DirNode then Some (Errorf ''open %s: is a directory'' [AStr p])
          else if \<not> is_dir s (path_dir p) then Some (not_exist ''open'' p)
          else None))"

definition os_WriteFile :: "fs \<Rightarrow> string \<Rightarrow> string \<Rightarrow> fs result" where
  "os_WriteFile s p d =
     (case open_write s p of Some e \<Rightarrow> Inl e | None \<Rightarrow> Inr (put_node p (FileNode d) s))"

text \<open>\<open>OpenFile\<close> with \<open>O_CREATE|O_APPEND\<close>, one write, \<open>Close\<close>.\<close>

definition os_AppendFile :: "fs \<Rightarrow> string \<Rightarrow> string \<Rightarrow> fs result" where
  "os_AppendFile s p d =
     (case open_write s p of Some e \<Rightarrow> Inl e
      | None \<Rightarrow> (case lookup s p of
           Some (FileNode old) \<Rightarrow> Inr (put_node p (FileNode (old @ d)) s)
         | _ \<Rightarrow> Inr (put_node p (FileNode d) s)))"

text \<open>\<open>OpenFile\<close> with \<open>O_CREATE|O_EXCL\<close>, and with \<open>O_CREATE\<close> alone; the file is closed at once.\<close>

definition os_CreateExcl :: "fs \<Rightarrow> string \<Rightarrow> fs result" where
  "os_CreateExcl s p =
     (case lookup s p of Some n \<Rightarrow> Inl (Errorf ''open %s: file exists'' [AStr p])
      | None \<Rightarrow> os_WriteFile s p [])"

definition os_CreateOpen :: "fs \<Rightarrow> string \<Rightarrow> fs result" where
  "os_CreateOpen s p =
     (case lookup s p of
        None \<Rightarrow> os_WriteFile s p []
      | Some n \<Rightarrow> (case fault s ''open'' p of Some e \<Rightarrow> Inl e | None \<Rightarrow> Inr s))"

definition os_Remove :: "fs \<Rightarrow> string \<Rightarrow> fs result" where
  "os_Remove s p =
     (case fault s ''remove'' p of Some e \<Rightarrow> Inl e
      | None \<Rightarrow> (case lookup s p of
           None \<Rightarrow> Inl (not_exist ''remove'' p)
         | Some n \<Rightarrow> Inr (s\<lparr>nodes := AList.delete p (nodes s)\<rparr>)))"

text \<open>\<open>MkdirAll\<close> walks the prefixes of the path from the root and creates the missing ones.\<close>

definition render_path :: "bool \<Rightarrow> string list \<Rightarrow> string" where
  "render_path rooted es = (if rooted then slash # join [slash] es else join [slash] es)"

definition dir_chain :: "string \<Rightarrow> string list" where
  "dir_chain p =
     map (\<lambda>n. render_path (is_abs p) (take n (elements p))) [1..<Suc (length (elements p))]"

fun mkdir_each :: "fs \<Rightarrow> string list \<Rightarrow> unit result \<times> fs" where
  "mkdir_each s [] = (Inr (), s)"
| "mkdir_each s (p # ps) =
     (case fault s ''mkdir'' p of Some e \<Rightarrow> (Inl e, s)
      | None \<Rightarrow> (case lookup s p of
           Some DirNode \<Rightarrow> mkdir_each s ps
         | Some (FileNode d) \<Rightarrow> (Inl (Errorf ''mkdir %s: not a directory'' [AStr p]), s)
         | None \<Rightarrow> mkdir_each (put_node p DirNode s) ps))"

definition os_MkdirAll :: "fs \<Rightarrow> string \<Rightarrow> unit result \<times> fs" where
  "os_MkdirAll s p = mkdir_each s (dir_chain p)"

text \<open>\<open>ReadDir\<close>: the entries of a directory, sorted by name.\<close>

definition os_ReadDir :: "fs \<Rightarrow> string \<Rightarrow> (string \<times> node) list result" where
  "os_ReadDir s dir =
     (case fault s ''readdir'' dir of Some e \<Rightarrow> Inl e
      | None \<Rightarrow>
         (if \<not> is_dir s dir then Inl (not_exist ''open'' dir)
          else Inr (sort_key fst
                 (map (\<lambda>(p, n). (path_base p, n))
                    (filter (\<lambda>(p, n). path_dir p = dir \<and> p \<noteq> dir) (AList.clearjunk (nodes s)))))))"

lemma lookup_put [fs_simps, simp]: "lookup (put_node p n s) q = (if q = p then Some n else lookup s q)"
  by (simp add: lookup_def put_node_def update_conv')

lemma fault_put [simp]: "fault (put_node p n s) = fault s"
  by (simp add: fun_eq_iff fault_def put_node_def)

lemma faults_put [simp]: "faults (put_node p n s) = faults s"
  by (simp add: put_node_def)

lemma is_dir_put:
  "is_dir s q \<Longrightarrow> lookup s p \<noteq> Some DirNode \<Longrightarrow> is_dir (put_node p (FileNode d) s) q"
  by (auto simp: is_dir_def)

lemma is_dir_put_file: "is_dir (put_node p (FileNode d) s) q \<Longrightarrow> is_dir s q"
  by (auto simp: is_dir_def split: if_splits)

lemma os_WriteFile_ok: "os_WriteFile s p d = Inr s' \<Longrightarrow> s' = put_node p (FileNode d) s"
  by (auto simp: os_WriteFile_def split: option.splits)

lemma os_AppendFile_ok:
  "os_AppendFile s p d = Inr s' \<Longrightarrow>
     s' = put_node p (FileNode ((case lookup s p of Some (FileNode old) \<Rightarrow> old | _ \<Rightarrow> []) @ d)) s"
  by (auto simp: os_AppendFile_def split: option.splits node.splits)

text \<open>Making directories keeps every node and adds only directories.\<close>

lemma mkdir_each_frame:
  "mkdir_each s ps = (r, s') \<Longrightarrow> lookup s' q = lookup s q \<or> (lookup s q = None \<and> lookup s' q = Some DirNode)"
proof (induction s ps rule: mkdir_each.induct)
  case (2 s p ps)
  then show ?case by (auto split: option.splits node.splits if_splits)
qed simp

lemma os_MkdirAll_frame:
  "os_MkdirAll s p = (r, s') \<Longrightarrow> lookup s' q = lookup s q \<or> (lookup s q = None \<and> lookup s' q = Some DirNode)"
  by (simp add: os_MkdirAll_def mkdir_each_frame)

lemma mkdir_each_made: "mkdir_each s ps = (Inr (), s') \<Longrightarrow> p \<in> set ps \<Longrightarrow> lookup s' p = Some DirNode"
proof (induction s ps rule: mkdir_each.induct)
  case (2 s p' ps)
  then show ?case
    using mkdir_each_frame [of s ps "Inr ()" s' p] mkdir_each_frame [of "put_node p DirNode s" ps "Inr ()" s' p]
    by (auto split: option.splits node.splits)
qed simp

lemma mkdir_each_only: "mkdir_each s ps = (r, s') \<Longrightarrow> q \<notin> set ps \<Longrightarrow> lookup s' q = lookup s q"
  by (induction s ps rule: mkdir_each.induct) (auto split: option.splits node.splits)

lemma mkdir_each_faults: "mkdir_each s ps = (r, s') \<Longrightarrow> faults s' = faults s"
  by (induction s ps rule: mkdir_each.induct) (auto split: option.splits node.splits)

lemma os_MkdirAll_faults: "os_MkdirAll s p = (r, s') \<Longrightarrow> faults s' = faults s"
  by (simp add: os_MkdirAll_def mkdir_each_faults)

text \<open>Creating and removing.\<close>

lemma os_CreateExcl_ok: "os_CreateExcl s p = Inr s' \<Longrightarrow> lookup s p = None \<and> s' = put_node p (FileNode []) s"
  by (auto simp: os_CreateExcl_def dest: os_WriteFile_ok split: option.splits)

lemma os_CreateOpen_ok:
  "os_CreateOpen s p = Inr s' \<Longrightarrow> s' = (case lookup s p of None \<Rightarrow> put_node p (FileNode []) s | Some n \<Rightarrow> s)"
  by (auto simp: os_CreateOpen_def dest: os_WriteFile_ok split: option.splits)

lemma lookup_delete [fs_simps]: "lookup (s\<lparr>nodes := AList.delete p (nodes s)\<rparr>) q = (if q = p then None else lookup s q)"
  by (simp add: lookup_def delete_conv')

text \<open>A file of a directory is listed by it, under its name.\<close>

lemma ReadDir_member:
  assumes "os_ReadDir s dir = Inr entries" and "lookup s (path_join [dir, n]) = Some (FileNode d)"
    and "dir = path_clean dir" and "dir \<noteq> []" and "plain_name n"
  shows "(n, FileNode d) \<in> set entries"
proof -
  have "path_join [dir, n] \<noteq> dir" using elements_join_name [OF assms(4,5)] by (metis append_self_conv list.distinct(1))
  moreover have "path_dir (path_join [dir, n]) = dir" using path_dir_join [OF assms(4,5)] assms(3) by simp
  moreover have "path_base (path_join [dir, n]) = n" by (rule path_base_join [OF assms(4,5)])
  moreover have "(path_join [dir, n], FileNode d) \<in> set (AList.clearjunk (nodes s))"
    using assms(2) by (simp add: lookup_def) (metis map_of_SomeD map_of_clearjunk)
  ultimately show ?thesis
    using assms(1) by (auto simp: os_ReadDir_def split: option.splits if_splits) (force intro: rev_image_eqI)
qed

text \<open>What a client of the file system relies on.\<close>

locale file_store =
  fixes rd :: "'s \<Rightarrow> string \<Rightarrow> string result"
    and wr :: "'s \<Rightarrow> string \<Rightarrow> string \<Rightarrow> 's result"
    and readable :: "'s \<Rightarrow> string \<Rightarrow> bool"
  assumes read_written: "wr s p d = Inr s' \<Longrightarrow> readable s p \<Longrightarrow> rd s' p = Inr d"
    and read_other: "wr s p d = Inr s' \<Longrightarrow> q \<noteq> p \<Longrightarrow> rd s' q = rd s q"
    and readable_write: "wr s p d = Inr s' \<Longrightarrow> readable s' q = readable s q"
begin

text \<open>A sequence of writes: the last one to a path wins, and untouched paths keep their content.\<close>

fun write_all :: "'s \<Rightarrow> (string \<times> string) list \<Rightarrow> 's result" where
  "write_all s [] = Inr s"
| "write_all s ((p, d) # ws) = (case wr s p d of Inl e \<Rightarrow> Inl e | Inr s' \<Rightarrow> write_all s' ws)"

lemma write_all_frame:
  "write_all s ws = Inr s' \<Longrightarrow> q \<notin> fst ` set ws \<Longrightarrow> rd s' q = rd s q"
proof (induction ws arbitrary: s)
  case (Cons w ws)
  then show ?case by (cases w) (auto split: sum.splits simp: read_other)
qed simp

lemma write_all_readable: "write_all s ws = Inr s' \<Longrightarrow> readable s' q = readable s q"
proof (induction ws arbitrary: s)
  case (Cons w ws)
  then show ?case by (cases w) (auto split: sum.splits simp: readable_write)
qed simp

lemma write_all_last:
  "write_all s (ws @ [(p, d)]) = Inr s' \<Longrightarrow> readable s p \<Longrightarrow> rd s' p = Inr d"
proof (induction ws arbitrary: s)
  case Nil
  then show ?case by (auto split: sum.splits simp: read_written)
next
  case (Cons w ws)
  then show ?case by (cases w) (auto split: sum.splits simp: readable_write)
qed

end

definition os_readable :: "fs \<Rightarrow> string \<Rightarrow> bool" where
  "os_readable s p \<longleftrightarrow> fault s ''open'' p = None"

interpretation osfs: file_store os_ReadFile os_WriteFile os_readable
  by unfold_locales (auto dest!: os_WriteFile_ok simp: os_ReadFile_def os_readable_def split: option.split)

end
