(* ===== verification/CoreTypes.thy ===== *)
theory CoreTypes
  imports Complex_Main GoStrings
begin

text \<open>
  Package \<open>core\<close> (internal/core/types.go): roles, messages, tool calls and results, and the
  values of \<open>map[string]any\<close> that \<open>encoding/json\<close> decodes. A JSON number is the float64 that
  \<open>Unmarshal\<close> stores, a rational; an object is its list of members, looked up by \<open>map_of\<close>.
\<close>

datatype json =
    JNull
  | JBool bool
  | JNum rat
  | JStr string
  | JArr "json list"
  | JObj "(string \<times> json) list"

type_synonym json_object = "(string \<times> json) list"

text \<open>The conversion \<open>int(f)\<close> of a float64: truncation towards zero.\<close>

definition trunc_rat :: "rat \<Rightarrow> int" where
  "trunc_rat q = (if 0 \<le> q then \<lfloor>q\<rfloor> else - \<lfloor>- q\<rfloor>)"

fun json_str :: "json option \<Rightarrow> string option" where
  "json_str (Some (JStr s)) = Some s"
| "json_str _ = None"

fun json_num :: "json option \<Rightarrow> rat option" where
  "json_num (Some (JNum q)) = Some q"
| "json_num _ = None"

fun json_arr :: "json option \<Rightarrow> json list option" where
  "json_arr (Some (JArr xs)) = Some xs"
| "json_arr _ = None"

fun json_obj :: "json option \<Rightarrow> json_object option" where
  "json_obj (Some (JObj kvs)) = Some kvs"
| "json_obj _ = None"

text \<open>The comma-ok form \<open>s, _ := v.(string)\<close> leaves the zero value when the assertion fails.\<close>

definition str_or_empty :: "string option \<Rightarrow> string" where
  "str_or_empty v = (case v of None \<Rightarrow> [] | Some s \<Rightarrow> s)"

type_synonym role = string

abbreviation RoleSystem :: role where "RoleSystem \<equiv> ''system''"
abbreviation RoleUser :: role where "RoleUser \<equiv> ''user''"
abbreviation RoleAssistant :: role where "RoleAssistant \<equiv> ''assistant''"
abbreviation RoleTool :: role where "RoleTool \<equiv> ''tool''"

record ToolCall =
  tc_ID :: string
  tc_Name :: string
  tc_Arguments :: json_object

record ToolResult =
  tr_CallID :: string
  tr_Name :: string
  tr_Output :: string
  tr_IsError :: bool

record Message =
  msg_Role :: role
  msg_Content :: string
  msg_ToolCalls :: "ToolCall list"
  msg_ToolResult :: "ToolResult option"
  msg_AgentName :: string
  msg_Tokens :: int

record ToolDef =
  td_Name :: string
  td_Description :: string
  td_Parameters :: json

record SamplingConfig =
  sc_Temperature :: "rat option"
  sc_TopP :: "rat option"
  sc_TopK :: "int option"
  sc_RepeatPenalty :: "rat option"
  sc_MaxTokens :: "int option"

record SkillMetadata =
  sm_Name :: string
  sm_Path :: string

text \<open>The message literal with a role, a content and a token count; the other fields are zero.\<close>

definition text_message :: "role \<Rightarrow> string \<Rightarrow> int \<Rightarrow> Message" where
  "text_message r c n =
     \<lparr>msg_Role = r, msg_Content = c, msg_ToolCalls = [], msg_ToolResult = None,
      msg_AgentName = [], msg_Tokens = n\<rparr>"

lemma text_message_simps [simp]:
  "msg_Role (text_message r c n) = r"
  "msg_Content (text_message r c n) = c"
  "msg_ToolCalls (text_message r c n) = []"
  "msg_ToolResult (text_message r c n) = None"
  "msg_AgentName (text_message r c n) = []"
  "msg_Tokens (text_message r c n) = n"
  by (simp_all add: text_message_def)

text \<open>
  What the keepers of a conversation promise: adding a message to a state that is in order
  appends it to the log and leaves the state in order.
\<close>

locale message_log =
  fixes add :: "'s \<Rightarrow> 'm \<Rightarrow> 's result"
    and log :: "'s \<Rightarrow> 'm list"
    and inv :: "'s \<Rightarrow> bool"
    and ok :: "'m \<Rightarrow> bool"
  assumes add_log: "inv s \<Longrightarrow> ok m \<Longrightarrow> add s m = Inr s' \<Longrightarrow> log s' = log s @ [m]"
    and add_inv: "inv s \<Longrightarrow> ok m \<Longrightarrow> add s m = Inr s' \<Longrightarrow> inv s'"
begin

fun add_all :: "'s \<Rightarrow> 'm list \<Rightarrow> 's result" where
  "add_all s [] = Inr s"
| "add_all s (m # ms) = result_bind (add s m) (\<lambda>s'. add_all s' ms)"

lemma log_add_all: "add_all s ms = Inr s' \<Longrightarrow> list_all ok ms \<Longrightarrow> inv s \<Longrightarrow> log s' = log s @ ms \<and> inv s'"
proof (induction ms arbitrary: s)
  case (Cons m ms)
  then obtain s1 where s1: "add s m = Inr s1" "add_all s1 ms = Inr s'" by (auto simp: result_simps)
  then show ?case using Cons add_log [of s m s1] add_inv [of s m s1] by simp
qed simp

lemma add_all_append: "add_all s (ms @ ms') = result_bind (add_all s ms) (\<lambda>s'. add_all s' ms')"
  by (induction ms arbitrary: s) (auto simp: result_bind_def split: sum.split)

end

end
