(* ===== verification/SessionFile.thy ===== *)
theory SessionFile
  imports FileSystem CoreTypes
begin

text \<open>
  internal/conversation/file.go: the append-only JSONL file of a session and the loader that
  reads it from its end in chunks of 8 KiB. The text of a message is \<open>encoding/json\<close>'s: the
  encoder \<open>enc\<close> and the decoder \<open>dec\<close> (\<open>None\<close> where \<open>Unmarshal\<close> reports an error) are
  parameters (MessageText has the program's own). What is used of them is stated per message in \<open>stored\<close>: the text is one non-empty
  line, and decoding it gives the message back. The lemmas show that the chunked loader computes
  the tail of the whole file's messages unless a chunk starts on a newline byte, what that tail
  is, and what is lost when a chunk does start there.
\<close>

section \<open>The code\<close>

definition chunkSize :: nat where
  "chunkSize = 8 * 1024"

fun split_lines_from :: "string \<Rightarrow> string \<Rightarrow> string list" where
  "split_lines_from cur [] = (if cur \<noteq> [] then [rev cur] else [])"
| "split_lines_from cur (c # cs) =
     (if c = nl then (if cur \<noteq> [] then [rev cur] else []) @ split_lines_from [] cs
      else split_lines_from (c # cur) cs)"

definition splitLines :: "string \<Rightarrow> string list" where
  "splitLines data = split_lines_from [] data"

text \<open>
  The inner loop, over the lines from the last to the first; \<open>True\<close> says that the budget stopped
  it. Messages are kept in the order they are appended, newest first.
\<close>

fun take_lines ::
  "(string \<Rightarrow> Message option) \<Rightarrow> int \<Rightarrow> string list \<Rightarrow> Message list \<Rightarrow> int \<Rightarrow> bool \<times> Message list \<times> int" where
  "take_lines dec tokenBudget [] messages tokensUsed = (False, messages, tokensUsed)"
| "take_lines dec tokenBudget (line # lines) messages tokensUsed =
     (if line = [] then take_lines dec tokenBudget lines messages tokensUsed
      else case dec line of
        None \<Rightarrow> take_lines dec tokenBudget lines messages tokensUsed
      | Some msg \<Rightarrow>
          if tokensUsed + msg_Tokens msg > tokenBudget \<and> messages \<noteq> [] then (True, messages, tokensUsed)
          else take_lines dec tokenBudget lines (messages @ [msg]) (tokensUsed + msg_Tokens msg))"

text \<open>After the loop: the block for a line that is still carried over.\<close>

definition last_carryover ::
  "(string \<Rightarrow> Message option) \<Rightarrow> int \<Rightarrow> string \<Rightarrow> Message list \<Rightarrow> int \<Rightarrow> Message list" where
  "last_carryover dec tokenBudget carryover messages tokensUsed =
     (if carryover \<noteq> []
      then (case dec carryover of
              None \<Rightarrow> messages
            | Some msg \<Rightarrow>
                if tokensUsed + msg_Tokens msg \<le> tokenBudget \<or> messages = [] then messages @ [msg] else messages)
      else messages)"

function load_chunks ::
  "(string \<Rightarrow> Message option) \<Rightarrow> int \<Rightarrow> string \<Rightarrow> nat \<Rightarrow> string \<Rightarrow> Message list \<Rightarrow> int \<Rightarrow> Message list" where
  "load_chunks dec tokenBudget data remaining carryover messages tokensUsed =
     (if remaining = 0 then rev (last_carryover dec tokenBudget carryover messages tokensUsed)
      else let readSize = min chunkSize remaining;
               offset = remaining - readSize;
               chunk = span_of data offset remaining @ carryover;
               lines = splitLines chunk;
               carryover' = (if offset > 0 \<and> lines \<noteq> [] then hd lines else []);
               lines' = (if offset > 0 \<and> lines \<noteq> [] then tl lines else lines);
               (stopped, messages', tokensUsed') = take_lines dec tokenBudget (rev lines') messages tokensUsed
           in if stopped then rev messages'
              else load_chunks dec tokenBudget data offset carryover' messages' tokensUsed')"
  by pat_completeness auto
termination
  by (relation "measure (\<lambda>(dec, b, data, remaining, c, m, u). remaining)") (auto simp: chunkSize_def)

declare load_chunks.simps [simp del]

definition LoadTail :: "(string \<Rightarrow> Message option) \<Rightarrow> fs \<Rightarrow> string \<Rightarrow> int \<Rightarrow> Message list result" where
  "LoadTail dec s path tokenBudget =
     (case os_ReadFile s path of
        Inl err \<Rightarrow> (if is_not_exist err then Inr [] else Inl (Errorf ''session file: open for read: %w'' [AErr err]))
      | Inr data \<Rightarrow>
          (case fault s ''stat'' path of
             Some err \<Rightarrow> Inl (Errorf ''session file: stat: %w'' [AErr err])
           | None \<Rightarrow> (if data = [] then Inr [] else Inr (load_chunks dec tokenBudget data (length data) [] [] 0))))"

text \<open>\<open>Encode\<close> writes the text of the message and a newline.\<close>

definition sf_Append :: "(Message \<Rightarrow> string) \<Rightarrow> fs \<Rightarrow> string \<Rightarrow> Message \<Rightarrow> fs result" where
  "sf_Append enc s path msg =
     map_error (\<lambda>err. Errorf ''session file: open for append: %w'' [AErr err])
       (os_AppendFile s path (enc msg @ [nl]))"

section \<open>Splitting\<close>

lemma split_lines_from_split:
  "split_lines_from cur data =
     (case split_byte nl data of
        l # ls \<Rightarrow> filter (\<lambda>l. l \<noteq> []) ((rev cur @ l) # ls) | [] \<Rightarrow> [])"
  by (induction cur data rule: split_lines_from.induct) (auto split: list.splits)

lemma splitLines_filter: "splitLines data = filter (\<lambda>l. l \<noteq> []) (split_byte nl data)"
  by (auto simp: splitLines_def split_lines_from_split split: list.split)

lemma splitLines_sep: "splitLines (s @ nl # t) = splitLines s @ splitLines t"
  by (simp add: splitLines_filter split_byte_append_sep)

lemma splitLines_line: "nl \<notin> set l \<Longrightarrow> splitLines l = (if l = [] then [] else [l])"
  by (simp add: splitLines_filter split_byte_absent)

lemma splitLines_nonempty: "l \<in> set (splitLines data) \<Longrightarrow> l \<noteq> []"
  by (simp add: splitLines_filter)

lemma splitLines_Nil [simp]: "splitLines [] = []"
  by (simp add: splitLines_filter)

text \<open>
  The first line of a chunk that does not begin with a newline may be carried over: gluing it to
  what comes before the chunk loses nothing.
\<close>

lemma splitLines_carry:
  assumes "q \<noteq> []" and "hd q \<noteq> nl"
  shows "splitLines q \<noteq> []" and "splitLines (p @ q) = splitLines (p @ hd (splitLines q)) @ tl (splitLines q)"
proof -
  define l where "l = takeWhile (\<lambda>c. c \<noteq> nl) q"
  have l: "l \<noteq> []" "nl \<notin> set l" using assms by (cases q; auto simp: l_def dest: set_takeWhileD)+
  have "splitLines q \<noteq> [] \<and> splitLines (p @ q) = splitLines (p @ hd (splitLines q)) @ tl (splitLines q)"
  proof (cases "dropWhile (\<lambda>c. c \<noteq> nl) q")
    case Nil
    then have "q = l" unfolding l_def by (metis append_Nil2 takeWhile_dropWhile_id)
    then show ?thesis using l by (simp add: splitLines_line)
  next
    case (Cons c rest)
    then have "c = nl" using hd_dropWhile [of "\<lambda>c. c \<noteq> nl" q] by simp
    then have q: "q = l @ nl # rest"
      using takeWhile_dropWhile_id [of "\<lambda>c. c \<noteq> nl" q] Cons by (simp add: l_def)
    then show ?thesis
      using splitLines_sep [of "p @ l" rest] splitLines_sep [of l rest] l by (simp add: splitLines_line)
  qed
  then show "splitLines q \<noteq> []" and "splitLines (p @ q) = splitLines (p @ hd (splitLines q)) @ tl (splitLines q)"
    by simp_all
qed

section \<open>The tail of the messages\<close>

text \<open>The messages of a file, and the tail of them that fits a budget, taken in one step.\<close>

definition file_messages :: "(string \<Rightarrow> Message option) \<Rightarrow> string \<Rightarrow> Message list" where
  "file_messages dec data = List.map_filter dec (splitLines data)"

definition token_sum :: "Message list \<Rightarrow> int" where
  "token_sum ms = sum_list (map msg_Tokens ms)"

definition whole_tail :: "(string \<Rightarrow> Message option) \<Rightarrow> int \<Rightarrow> string \<Rightarrow> Message list" where
  "whole_tail dec tokenBudget data =
     rev (fst (snd (take_lines dec tokenBudget (rev (splitLines data)) [] 0)))"

lemma take_lines_append:
  "take_lines dec b (xs @ ys) ms u =
     (case take_lines dec b xs ms u of
        (True, ms', u') \<Rightarrow> (True, ms', u') | (False, ms', u') \<Rightarrow> take_lines dec b ys ms' u')"
  by (induction dec b xs ms u rule: take_lines.induct) (auto split: option.split)

lemma map_filter_Cons: "List.map_filter f (x # xs) = (case f x of None \<Rightarrow> [] | Some y \<Rightarrow> [y]) @ List.map_filter f xs"
  by (simp add: List.map_filter_simps split: option.split)

lemma token_sum_simps [simp]:
  "token_sum [] = 0" "token_sum (m # ms) = msg_Tokens m + token_sum ms"
  "token_sum (ms @ ms') = token_sum ms + token_sum ms'" "token_sum (rev ms) = token_sum ms"
  by (simp_all add: token_sum_def rev_map [symmetric])

lemma take_lines_spec:
  assumes "take_lines dec b lines acc u = (stopped, out, used)" and "[] \<notin> set lines"
  shows "\<exists>n \<le> length (List.map_filter dec lines).
    out = acc @ take n (List.map_filter dec lines) \<and>
    used = u + token_sum (take n (List.map_filter dec lines)) \<and>
    (if stopped then n < length (List.map_filter dec lines) \<and> out \<noteq> [] \<and> b < used + msg_Tokens (List.map_filter dec lines ! n)
     else n = length (List.map_filter dec lines)) \<and>
    (out \<noteq> acc \<longrightarrow> length out = 1 \<or> used \<le> b)"
  using assms
proof (induction dec b lines acc u rule: take_lines.induct)
  case (2 dec b line lines acc u)
  have ne: "line \<noteq> []" "[] \<notin> set lines" using "2.prems"(2) by auto
  show ?case
  proof (cases "dec line")
    case None
    have "List.map_filter dec (line # lines) = List.map_filter dec lines" using None by (simp add: map_filter_Cons)
    moreover have "take_lines dec b lines acc u = (stopped, out, used)" using "2.prems"(1) ne None by simp
    ultimately show ?thesis using "2.IH"(2) [OF ne(1) None] ne(2) by presburger
  next
    case (Some m)
    show ?thesis
    proof (cases "u + msg_Tokens m > b \<and> acc \<noteq> []")
      case True
      then show ?thesis
        using "2.prems"(1) ne Some by (intro exI [of _ 0]) (auto simp: map_filter_Cons)
    next
      case False
      let ?ms = "List.map_filter dec lines"
      have run: "take_lines dec b lines (acc @ [m]) (u + msg_Tokens m) = (stopped, out, used)"
        using "2.prems"(1) ne(1) Some False by auto
      obtain n where n: "n \<le> length ?ms" "out = (acc @ [m]) @ take n ?ms"
        "used = u + msg_Tokens m + token_sum (take n ?ms)"
        "if stopped then n < length ?ms \<and> out \<noteq> [] \<and> b < used + msg_Tokens (?ms ! n) else n = length ?ms"
        "out \<noteq> acc @ [m] \<longrightarrow> length out = 1 \<or> used \<le> b"
        using "2.IH"(3) [OF ne(1) Some False run ne(2)] by blast
      have "length out = 1 \<or> used \<le> b"
      proof (cases "out = acc @ [m]")
        case True
        then have "take n ?ms = []" using n(2) by simp
        then show ?thesis using n(3) False True by auto
      qed (use n(5) in simp)
      then show ?thesis using n(1-4) Some by (intro exI [of _ "Suc n"]) (auto simp: map_filter_Cons)
    qed
  qed
qed (simp add: List.map_filter_simps)

lemma map_filter_rev: "List.map_filter f (rev xs) = rev (List.map_filter f xs)"
  by (induction xs) (auto simp: List.map_filter_def)

text \<open>
  The tail is the longest suffix of the file's messages that fits, except that one message is
  always taken: it fits or is a single message, and nothing older was left out that would fit.
\<close>

lemma whole_tail_suffix:
  "\<exists>k \<le> length (file_messages dec data).
     whole_tail dec b data = drop k (file_messages dec data) \<and>
     (token_sum (drop k (file_messages dec data)) \<le> b \<or> Suc k = length (file_messages dec data) \<or> file_messages dec data = []) \<and>
     (0 < k \<longrightarrow> b < token_sum (drop (k - 1) (file_messages dec data)))"
proof -
  obtain stopped out used where run: "take_lines dec b (rev (splitLines data)) [] 0 = (stopped, out, used)"
    by (metis prod_cases3)
  let ?ms = "rev (file_messages dec data)"
  have ms: "List.map_filter dec (rev (splitLines data)) = ?ms" by (simp add: file_messages_def map_filter_rev)
  obtain n where n: "n \<le> length ?ms" "out = take n ?ms" "used = token_sum (take n ?ms)"
    "if stopped then n < length ?ms \<and> out \<noteq> [] \<and> b < used + msg_Tokens (?ms ! n) else n = length ?ms"
    "out \<noteq> [] \<longrightarrow> length out = 1 \<or> used \<le> b"
    using take_lines_spec [OF run] splitLines_nonempty unfolding ms by fastforce
  let ?L = "length (file_messages dec data)"
  let ?k = "?L - n"
  have tail: "whole_tail dec b data = drop ?k (file_messages dec data)"
    using n(2) by (simp add: whole_tail_def run take_rev)
  have sum: "token_sum (drop ?k (file_messages dec data)) = used"
    using n(3) by (simp add: take_rev)
  have fits: "used \<le> b \<or> Suc ?k = ?L \<or> file_messages dec data = []"
  proof (cases "out = []")
    case True
    then have "n = 0 \<or> file_messages dec data = []" using n(2) by auto
    then show ?thesis using n(4) True by (auto split: if_splits)
  next
    case False
    then show ?thesis using n(1,2,5) by auto
  qed
  have more: "b < token_sum (drop (?k - 1) (file_messages dec data))" if "0 < ?k"
  proof -
    have st: "n < length ?ms" "b < used + msg_Tokens (?ms ! n)" using n(4) that by (auto split: if_splits)
    have k1: "Suc (?k - 1) = ?k" using that by simp
    have "drop (?k - 1) (file_messages dec data) = file_messages dec data ! (?k - 1) # drop ?k (file_messages dec data)"
      using Cons_nth_drop_Suc [of "?k - 1" "file_messages dec data"] that k1 by simp
    moreover have "?ms ! n = file_messages dec data ! (?k - 1)" using st(1) by (simp add: rev_nth)
    ultimately show ?thesis using st(2) sum by simp
  qed
  show ?thesis using tail sum fits more by (intro exI [of _ ?k]) auto
qed

section \<open>The chunked loader computes the tail\<close>

text \<open>The chunks start at the file's size less a multiple of the chunk size; none starts on a newline.\<close>

definition aligned :: "string \<Rightarrow> bool" where
  "aligned data \<longleftrightarrow>
     list_all (\<lambda>i. chunkSize * i < length data \<longrightarrow> data ! (length data - chunkSize * i) \<noteq> nl)
       [1..<Suc (length data div chunkSize)]"

lemma aligned_at:
  assumes "aligned data" and "0 < offset" and "offset < length data" and "(length data - offset) mod chunkSize = 0"
  shows "data ! offset \<noteq> nl"
proof -
  define i where "i = (length data - offset) div chunkSize"
  have i: "chunkSize * i = length data - offset" using assms(4) by (auto simp: i_def)
  then have "1 \<le> i" using assms(3) by (cases i) auto
  moreover have "i \<le> length data div chunkSize" unfolding i_def by (rule div_le_mono) simp
  ultimately have "i \<in> set [1..<Suc (length data div chunkSize)]" by auto
  then have "chunkSize * i < length data \<longrightarrow> data ! (length data - chunkSize * i) \<noteq> nl"
    using assms(1) unfolding aligned_def list_all_iff by blast
  then show ?thesis using assms(2,3) i by simp
qed

lemma load_chunks_tail:
  assumes "aligned data" and "remaining \<le> length data" and "remaining = 0 \<or> (length data - remaining) mod chunkSize = 0"
    and "remaining = 0 \<longrightarrow> carryover = []"
  shows "load_chunks dec b data remaining carryover messages used =
    rev (fst (snd (take_lines dec b (rev (splitLines (take remaining data @ carryover))) messages used)))"
  using assms
proof (induction dec b data remaining carryover messages used rule: load_chunks.induct)
  case (1 dec b data remaining carryover messages used)
  show ?case
  proof (cases "remaining = 0")
    case True
    then show ?thesis using "1.prems"(4) by (simp add: load_chunks.simps [of _ _ _ 0] last_carryover_def)
  next
    case False
    define offset where "offset = remaining - min chunkSize remaining"
    define chunk where "chunk = span_of data offset remaining @ carryover"
    define carry' where "carry' = (if offset > 0 \<and> splitLines chunk \<noteq> [] then hd (splitLines chunk) else [])"
    define lines' where "lines' = (if offset > 0 \<and> splitLines chunk \<noteq> [] then tl (splitLines chunk) else splitLines chunk)"
    obtain stopped ms' u' where run: "take_lines dec b (rev lines') messages used = (stopped, ms', u')"
      by (metis prod_cases3)
    have off: "offset < remaining" "offset \<le> length data" using False "1.prems"(2) by (auto simp: offset_def chunkSize_def)
    have whole: "take remaining data @ carryover = take offset data @ chunk"
      using off(1) by (simp add: chunk_def span_of_def) (metis le_add_diff_inverse less_imp_le take_add)
    have lines: "splitLines (take remaining data @ carryover) = splitLines (take offset data @ carry') @ lines'"
    proof (cases "offset = 0")
      case True
      then show ?thesis by (simp add: whole carry'_def lines'_def)
    next
      case pos: False
      then have big: "chunkSize < remaining" "offset = remaining - chunkSize" by (auto simp: offset_def min_def split: if_splits)
      have "(length data - offset) mod chunkSize = 0"
      proof -
        have "length data - offset = (length data - remaining) + chunkSize" using big "1.prems"(2) by simp
        then show ?thesis using "1.prems"(3) False by simp
      qed
      then have "data ! offset \<noteq> nl" using aligned_at "1.prems"(1) pos off "1.prems"(2) by simp
      moreover have "chunk \<noteq> [] \<and> hd chunk = data ! offset"
        using off(1) "1.prems"(2) by (simp add: chunk_def span_of_def hd_drop_conv_nth hd_append)
      ultimately show ?thesis
        using splitLines_carry(1) [of chunk] splitLines_carry(2) [of chunk "take offset data"] pos by (simp add: whole carry'_def lines'_def)
    qed
    have step: "load_chunks dec b data remaining carryover messages used =
        (if stopped then rev ms' else load_chunks dec b data offset carry' ms' u')"
      unfolding load_chunks.simps [of dec b data remaining] Let_def offset_def [symmetric] chunk_def [symmetric]
        carry'_def [symmetric] lines'_def [symmetric] run
      using False by simp
    show ?thesis
    proof (cases stopped)
      case True
      then show ?thesis using step run lines by (simp add: take_lines_append)
    next
      case cont: False
      have "load_chunks dec b data offset carry' ms' u' =
          rev (fst (snd (take_lines dec b (rev (splitLines (take offset data @ carry'))) ms' u')))"
      proof (rule "1.IH" [OF False refl offset_def chunk_def refl carry'_def lines'_def run [symmetric] refl refl])
        show "\<not> stopped" using cont .
        show "offset = 0 \<or> (length data - offset) mod chunkSize = 0"
        proof (cases "offset = 0")
          case pos: False
          then have "length data - offset = (length data - remaining) + chunkSize"
            using "1.prems"(2) by (auto simp: offset_def min_def split: if_splits)
          then show ?thesis using "1.prems"(3) False by simp
        qed simp
      qed (use "1.prems"(1) off(2) in \<open>simp_all add: carry'_def\<close>)
      then show ?thesis using step cont lines run by (simp add: take_lines_append)
    qed
  qed
qed

section \<open>A session file is a message log\<close>

definition file_text :: "fs \<Rightarrow> string \<Rightarrow> string" where
  "file_text s path = (case lookup s path of Some (FileNode d) \<Rightarrow> d | _ \<Rightarrow> [])"

text \<open>What is used of the codec: the text of a message is one line, and decodes to the message.\<close>

definition stored :: "(Message \<Rightarrow> string) \<Rightarrow> (string \<Rightarrow> Message option) \<Rightarrow> Message \<Rightarrow> bool" where
  "stored enc dec m \<longleftrightarrow> enc m \<noteq> [] \<and> nl \<notin> set (enc m) \<and> dec (enc m) = Some m"

definition whole_lines :: "string \<Rightarrow> bool" where
  "whole_lines data \<longleftrightarrow> data = [] \<or> last data = nl"

lemma file_messages_append:
  assumes "whole_lines data" and "stored enc dec m"
  shows "file_messages dec (data @ enc m @ [nl]) = file_messages dec data @ [m]"
proof -
  have enc: "splitLines (enc m @ [nl]) = [enc m]"
    using assms(2) splitLines_sep [of "enc m" "[]"] by (simp add: stored_def splitLines_line)
  have "splitLines (data @ enc m @ [nl]) = splitLines data @ [enc m]"
  proof (cases "data = []")
    case False
    then obtain d where "data = d @ [nl]" using assms(1) unfolding whole_lines_def by (metis append_butlast_last_id)
    then show ?thesis
      using splitLines_sep [of d "enc m @ [nl]"] splitLines_sep [of d "[]"] enc by simp
  qed (simp add: enc)
  then show ?thesis using assms(2) by (simp add: file_messages_def stored_def List.map_filter_def)
qed

lemma sf_Append_text:
  "sf_Append enc s path m = Inr s' \<Longrightarrow>
     file_text s' q = (if q = path then file_text s path @ enc m @ [nl] else file_text s q)"
  by (auto simp: sf_Append_def result_simps file_text_def dest!: os_AppendFile_ok split: option.split node.split)

lemma sf_Append_file: "sf_Append enc s path m = Inr s' \<Longrightarrow> lookup s' path \<noteq> Some DirNode"
  by (auto simp: sf_Append_def result_simps dest!: os_AppendFile_ok)

interpretation session_log: message_log "\<lambda>s m. sf_Append enc s path m" "\<lambda>s. file_messages dec (file_text s path)"
  "\<lambda>s. whole_lines (file_text s path) \<and> lookup s path \<noteq> Some DirNode" "stored enc dec"
  for enc dec path
  by unfold_locales (auto simp: sf_Append_text sf_Append_file file_messages_append whole_lines_def)

lemma LoadTail_text:
  assumes "fault s ''open'' path = None" and "fault s ''stat'' path = None" and "lookup s path \<noteq> Some DirNode"
    and "aligned (file_text s path)"
  shows "LoadTail dec s path b = Inr (whole_tail dec b (file_text s path))"
proof (cases "lookup s path")
  case None
  then have "file_text s path = []" by (simp add: file_text_def)
  then show ?thesis
    using assms(1) None by (simp add: LoadTail_def os_ReadFile_def not_exist_def whole_tail_def)
next
  case (Some n)
  then obtain d where "n = FileNode d" using assms(3) by (cases n) auto
  then show ?thesis
    using assms Some load_chunks_tail [of d "length d" "[]"]
    by (simp add: LoadTail_def os_ReadFile_def file_text_def whole_tail_def)
qed

section \<open>Properties\<close>

text \<open>
  Messages appended to a new session file and read back with \<open>LoadTail\<close> come back in order as
  the longest tail whose tokens fit the budget, or as the last message alone when it does not
  fit by itself, provided that no chunk of the reading starts on a newline byte.
\<close>

theorem LoadTail_longest_tail:
  assumes "session_log.add_all enc path s ms = Inr s'" and "lookup s path = None"
    and "list_all (stored enc dec) ms"
    and "fault s' ''open'' path = None" and "fault s' ''stat'' path = None" and "aligned (file_text s' path)"
  shows "\<exists>k \<le> length ms. LoadTail dec s' path b = Inr (drop k ms) \<and>
    (token_sum (drop k ms) \<le> b \<or> Suc k = length ms \<or> ms = []) \<and>
    (0 < k \<longrightarrow> b < token_sum (drop (k - 1) ms))"
proof -
  have empty: "file_text s path = []" using assms(2) by (simp add: file_text_def)
  then have log: "file_messages dec (file_text s' path) = ms" "lookup s' path \<noteq> Some DirNode"
    using session_log.log_add_all [OF assms(1,3)] assms(2)
    by (simp_all add: whole_lines_def file_messages_def List.map_filter_simps)
  then show ?thesis
    using LoadTail_text [OF assms(4,5) log(2) assms(6)] whole_tail_suffix [of dec "file_text s' path" b] by simp
qed

text \<open>
  A codec and messages for the witnesses: a user message is its content in braces, which its
  content must not hold.
\<close>

definition brace_enc :: "Message \<Rightarrow> string" where
  "brace_enc m = CHR 0x7B # msg_Content m @ [CHR 0x7D]"

definition brace_dec :: "string \<Rightarrow> Message option" where
  "brace_dec l =
     (if l \<noteq> [] \<and> hd l = CHR 0x7B \<and> last l = CHR 0x7D \<and> length (filter (\<lambda>c. c = CHR 0x7B) l) = 1
      then Some (text_message RoleUser (butlast (tl l)) 10) else None)"

lemma brace_stored:
  "nl \<notin> set c \<Longrightarrow> CHR 0x7B \<notin> set c \<Longrightarrow> stored brace_enc brace_dec (text_message RoleUser c 10)"
proof -
  assume c: "nl \<notin> set c" "CHR 0x7B \<notin> set c"
  then have "filter (\<lambda>x. x = CHR 0x7B) c = []" by (auto simp: filter_empty_conv)
  then show ?thesis using c by (simp add: stored_def brace_enc_def brace_dec_def)
qed

definition empty_session_fs :: fs where
  "empty_session_fs = \<lparr>nodes = [(''/s'', DirNode)], faults = []\<rparr>"

lemma append_new_session:
  assumes "enc m1 = l1" and "enc m2 = l2"
  shows "session_log.add_all enc ''/s/a.jsonl'' empty_session_fs [m1, m2] =
    Inr (put_node ''/s/a.jsonl'' (FileNode ((l1 @ [nl]) @ l2 @ [nl]))
          (put_node ''/s/a.jsonl'' (FileNode (l1 @ [nl])) empty_session_fs))"
proof -
  have dir: "path_dir ''/s/a.jsonl'' = ''/s''" by code_simp
  have nodes: "lookup empty_session_fs ''/s'' = Some DirNode" "lookup empty_session_fs ''/s/a.jsonl'' = None"
    "fault empty_session_fs op p = None" for op p
    by (simp_all add: empty_session_fs_def lookup_def fault_def)
  show ?thesis
    unfolding session_log.add_all.simps using assms
    by (simp add: sf_Append_def os_AppendFile_def open_write_def dir is_dir_def nodes map_error_def)
qed

theorem LoadTail_longest_tail_witness:
  "\<exists>s'. session_log.add_all brace_enc ''/s/a.jsonl'' empty_session_fs
      [text_message RoleUser ''hi'' 10, text_message RoleUser ''yo'' 10] = Inr s' \<and>
    (\<exists>k \<le> 2. LoadTail brace_dec s' ''/s/a.jsonl'' 15 =
         Inr (drop k [text_message RoleUser ''hi'' 10, text_message RoleUser ''yo'' 10]) \<and> k \<noteq> 0)"
proof -
  let ?ms = "[text_message RoleUser ''hi'' 10, text_message RoleUser ''yo'' 10]"
  let ?s' = "put_node ''/s/a.jsonl'' (FileNode (([CHR 0x7B, CHR ''h'', CHR ''i'', CHR 0x7D] @ [nl]) @ [CHR 0x7B, CHR ''y'', CHR ''o'', CHR 0x7D] @ [nl]))
          (put_node ''/s/a.jsonl'' (FileNode ([CHR 0x7B, CHR ''h'', CHR ''i'', CHR 0x7D] @ [nl])) empty_session_fs)"
  have run: "session_log.add_all brace_enc ''/s/a.jsonl'' empty_session_fs ?ms = Inr ?s'"
    by (rule append_new_session) (simp_all add: brace_enc_def)
  have "list_all (stored brace_enc brace_dec) ?ms" by (simp add: brace_stored)
  moreover have "lookup empty_session_fs ''/s/a.jsonl'' = None" "fault ?s' ''open'' ''/s/a.jsonl'' = None"
    "fault ?s' ''stat'' ''/s/a.jsonl'' = None"
    by (simp_all add: empty_session_fs_def lookup_def fault_def put_node_def)
  moreover have "aligned (file_text ?s' ''/s/a.jsonl'')" by (simp add: aligned_def file_text_def chunkSize_def)
  ultimately obtain k where k: "k \<le> length ?ms" "LoadTail brace_dec ?s' ''/s/a.jsonl'' 15 = Inr (drop k ?ms)"
    "token_sum (drop k ?ms) \<le> 15 \<or> Suc k = length ?ms \<or> ?ms = []"
    using LoadTail_longest_tail [OF run, of brace_dec 15] by blast
  have "k \<noteq> 0" using k(3) by (cases k) simp_all
  then have "\<exists>k \<le> 2. LoadTail brace_dec ?s' ''/s/a.jsonl'' 15 = Inr (drop k ?ms) \<and> k \<noteq> 0"
    using k(1,2) by (intro exI [of _ k]) simp
  then show ?thesis using run by blast
qed

text \<open>
  When a chunk does start on the newline that ends a message, the message after it is taken
  for the rest of that message's line: both are glued together, neither decodes, and both are
  gone. Here the second of two messages takes exactly 8190 bytes: a new session file with these
  two messages is read back as empty, under any budget.
\<close>

theorem LoadTail_boundary_loses:
  assumes "session_log.add_all enc path s [m1, m2] = Inr s'" and "lookup s path = None"
    and "stored enc dec m1" and "stored enc dec m2" and "dec (enc m1 @ enc m2) = None"
    and "length (enc m2) + 2 = chunkSize" and "length (enc m1) \<le> chunkSize"
    and "fault s' ''open'' path = None" and "fault s' ''stat'' path = None"
  shows "LoadTail dec s' path b = Inr []"
proof -
  define l1 where "l1 = enc m1"
  define l2 where "l2 = enc m2"
  obtain s1 where s1: "sf_Append enc s path m1 = Inr s1" "sf_Append enc s1 path m2 = Inr s'"
    using assms(1) by (auto simp: result_simps session_log.add_all.simps)
  have content: "file_text s' path = l1 @ nl # l2 @ [nl]"
    using sf_Append_text [OF s1(1), of path] sf_Append_text [OF s1(2), of path] assms(2)
    by (simp add: file_text_def l1_def l2_def)
  then have node: "lookup s' path = Some (FileNode (l1 @ nl # l2 @ [nl]))"
    by (auto simp: file_text_def split: option.splits node.splits)
  have l: "l1 \<noteq> []" "l2 \<noteq> []" "nl \<notin> set l1" "nl \<notin> set l2" "dec (l1 @ l2) = None" "length l1 \<le> chunkSize"
    using assms(3,4,5,7) by (simp_all add: stored_def l1_def l2_def)
  let ?data = "l1 @ nl # l2 @ [nl]"
  have len: "length ?data = length l1 + chunkSize" using assms(6) by (simp add: l2_def)
  have first: "splitLines (nl # l2 @ [nl]) = [l2]"
    using splitLines_sep [of "[]" "l2 @ [nl]"] splitLines_sep [of l2 "[]"] l by (simp add: splitLines_line)
  have both: "splitLines (l1 @ l2) = [l1 @ l2]" using l splitLines_line [of "l1 @ l2"] by simp
  have cut: "span_of ?data (length l1) (length ?data) = nl # l2 @ [nl]" "span_of ?data 0 (length l1) = l1"
    by (simp_all add: span_of_def)
  have "load_chunks dec b ?data (length ?data) [] [] 0 = load_chunks dec b ?data (length l1) l2 [] 0"
    using l(1) first cut(1) [unfolded len] unfolding len load_chunks.simps [of _ _ _ "length l1 + chunkSize"]
    by (simp add: Let_def min_def chunkSize_def)
  also have "\<dots> = load_chunks dec b ?data 0 [] [] 0"
    using l first both cut(2) unfolding load_chunks.simps [of _ _ _ "length l1"]
    by (simp add: Let_def min_def)
  also have "\<dots> = []" by (simp add: load_chunks.simps last_carryover_def)
  finally show ?thesis
    using assms(8,9) node by (simp add: LoadTail_def os_ReadFile_def)
qed

theorem LoadTail_boundary_loses_witness:
  "\<exists>s'. session_log.add_all brace_enc ''/s/a.jsonl'' empty_session_fs
      [text_message RoleUser ''hi'' 10, text_message RoleUser (replicate 8188 (CHR ''x'')) 10] = Inr s' \<and>
    LoadTail brace_dec s' ''/s/a.jsonl'' 1000 = Inr []"
proof -
  let ?m1 = "text_message RoleUser ''hi'' 10"
  let ?m2 = "text_message RoleUser (replicate 8188 (CHR ''x'')) 10"
  obtain s' where run: "session_log.add_all brace_enc ''/s/a.jsonl'' empty_session_fs [?m1, ?m2] = Inr s'"
    and fs: "faults s' = []"
    using append_new_session [OF refl refl, of brace_enc ?m1 ?m2]
    by (simp only: put_node_def) (simp add: empty_session_fs_def)
  have "LoadTail brace_dec s' ''/s/a.jsonl'' 1000 = Inr []"
  proof (rule LoadTail_boundary_loses [OF run])
    show "stored brace_enc brace_dec ?m1" "stored brace_enc brace_dec ?m2" by (simp_all add: brace_stored)
    show "brace_dec (brace_enc ?m1 @ brace_enc ?m2) = None" by (simp add: brace_dec_def brace_enc_def)
  qed (simp_all add: brace_enc_def chunkSize_def fault_def fs empty_session_fs_def lookup_def)
  then show ?thesis using run by blast
qed

end
