(* ===== verification/Window.thy ===== *)
theory Window
  imports SessionFile
begin

text \<open>
  internal/conversation/context.go and snapshot.go: the window of messages sent to the model. A
  run starts by loading the tail of the session file that fits the budget, messages of the run
  are appended to the file and to the memory, and the context is the system prompt, the loaded
  history and the memory. The mutex serialises the operations, so each is one step on the
  window and the files.
\<close>

section \<open>The code\<close>

record BudgetParams =
  bp_ContextSize :: int
  bp_SystemContent :: string
  bp_SystemTokens :: int
  bp_ToolTokens :: int
  bp_UserPromptTokens :: int

record Window =
  cw_sessionFile :: string
  cw_history :: "Message list"
  cw_memory :: "Message list"
  cw_agentSystemPrompt :: string
  cw_activeSkill :: "SkillMetadata option"
  cw_systemContent :: string
  cw_contextSize :: int
  cw_systemTokens :: int
  cw_toolTokens :: int

definition NewWindow :: "string \<Rightarrow> Window" where
  "NewWindow sessionFile =
     \<lparr>cw_sessionFile = sessionFile, cw_history = [], cw_memory = [], cw_agentSystemPrompt = [],
      cw_activeSkill = None, cw_systemContent = [], cw_contextSize = 0, cw_systemTokens = 0,
      cw_toolTokens = 0\<rparr>"

text \<open>\<open>FileService.NewWindow\<close>.\<close>

definition service_NewWindow :: "string \<Rightarrow> string \<Rightarrow> fs \<Rightarrow> Window result \<times> fs" where
  "service_NewWindow dataDir sessionID s =
     (let sessionDir = path_join [dataDir, ''sessions'']
      in case os_MkdirAll s sessionDir of
           (Inl err, s') \<Rightarrow> (Inl err, s')
         | (Inr _, s') \<Rightarrow> (Inr (NewWindow (path_join [sessionDir, sessionID @ ''.jsonl''])), s'))"

definition SystemContent :: "Window \<Rightarrow> string" where
  "SystemContent cw =
     (let content = cw_agentSystemPrompt cw
      in case cw_activeSkill cw of
           None \<Rightarrow> content
         | Some skill \<Rightarrow>
             content @ nl # nl # sprintf ''<active-skill name=%q path=%q />''
               [go_quote (sm_Name skill), go_quote (sm_Path skill)])"

definition history_budget :: "BudgetParams \<Rightarrow> int" where
  "history_budget params =
     (let historyBudget = bp_ContextSize params - bp_SystemTokens params - bp_ToolTokens params -
            bp_UserPromptTokens params
      in if historyBudget < 0 then 0 else historyBudget)"

text \<open>On a read error the four fields are already set and the history is kept.\<close>

definition StartRun :: "(string \<Rightarrow> Message option) \<Rightarrow> fs \<Rightarrow> BudgetParams \<Rightarrow> Window \<Rightarrow> unit result \<times> Window" where
  "StartRun dec s params cw =
     (let cw1 = cw\<lparr>cw_contextSize := bp_ContextSize params, cw_systemContent := bp_SystemContent params,
                   cw_systemTokens := bp_SystemTokens params, cw_toolTokens := bp_ToolTokens params\<rparr>
      in case LoadTail dec s (cw_sessionFile cw1) (history_budget params) of
           Inl err \<Rightarrow> (Inl err, cw1)
         | Inr history \<Rightarrow> (Inr (), cw1\<lparr>cw_history := history, cw_memory := []\<rparr>))"

definition CompleteRun :: "Window \<Rightarrow> Window" where
  "CompleteRun cw = cw\<lparr>cw_memory := []\<rparr>"

definition AddMessage :: "(Message \<Rightarrow> string) \<Rightarrow> Window \<times> fs \<Rightarrow> Message \<Rightarrow> (Window \<times> fs) result" where
  "AddMessage enc st msg =
     (case st of (cw, s) \<Rightarrow>
        result_bind (sf_Append enc s (cw_sessionFile cw) msg) (\<lambda>s'.
        Inr (cw\<lparr>cw_memory := cw_memory cw @ [msg]\<rparr>, s')))"

definition BuildContext :: "Window \<Rightarrow> Message list" where
  "BuildContext cw = text_message RoleSystem (cw_systemContent cw) 0 # cw_history cw @ cw_memory cw"

definition SetAgentSystemPrompt :: "string \<Rightarrow> Window \<Rightarrow> Window" where
  "SetAgentSystemPrompt prompt cw = cw\<lparr>cw_agentSystemPrompt := prompt\<rparr>"

definition SetActiveSkill :: "SkillMetadata option \<Rightarrow> Window \<Rightarrow> Window" where
  "SetActiveSkill skill cw = cw\<lparr>cw_activeSkill := skill\<rparr>"

definition ActiveSkill :: "Window \<Rightarrow> SkillMetadata option" where
  "ActiveSkill cw = cw_activeSkill cw"

record MessageStats =
  ms_Role :: role
  ms_Tokens :: int
  ms_Source :: string

record Snapshot =
  sn_ContextSize :: int
  sn_SystemTokens :: int
  sn_ToolTokens :: int
  sn_HistoryTokens :: int
  sn_MemoryTokens :: int
  sn_TotalTokens :: int
  sn_RemainingTokens :: int
  sn_HistoryMessages :: int
  sn_MemoryMessages :: int
  sn_TotalMessages :: int
  sn_HistoryBudget :: int
  sn_Messages :: "MessageStats list"

fun sumTokens :: "Message list \<Rightarrow> int" where
  "sumTokens [] = 0"
| "sumTokens (msg # messages) = msg_Tokens msg + sumTokens messages"

definition stats_of :: "string \<Rightarrow> Message \<Rightarrow> MessageStats" where
  "stats_of source msg = \<lparr>ms_Role = msg_Role msg, ms_Tokens = msg_Tokens msg, ms_Source = source\<rparr>"

definition take_snapshot :: "Window \<Rightarrow> Snapshot" where
  "take_snapshot cw =
     (let historyTokens = sumTokens (cw_history cw);
          memoryTokens = sumTokens (cw_memory cw);
          totalTokens = cw_systemTokens cw + cw_toolTokens cw + historyTokens + memoryTokens;
          budget = cw_contextSize cw - cw_systemTokens cw - cw_toolTokens cw - memoryTokens;
          historyBudget = (if budget < 0 then 0 else budget);
          messages = \<lparr>ms_Role = RoleSystem, ms_Tokens = cw_systemTokens cw, ms_Source = ''system''\<rparr> #
            map (stats_of ''history'') (cw_history cw) @ map (stats_of ''memory'') (cw_memory cw)
      in \<lparr>sn_ContextSize = cw_contextSize cw, sn_SystemTokens = cw_systemTokens cw,
          sn_ToolTokens = cw_toolTokens cw, sn_HistoryTokens = historyTokens,
          sn_MemoryTokens = memoryTokens, sn_TotalTokens = totalTokens,
          sn_RemainingTokens = cw_contextSize cw - totalTokens,
          sn_HistoryMessages = int (length (cw_history cw)), sn_MemoryMessages = int (length (cw_memory cw)),
          sn_TotalMessages = 1 + int (length (cw_history cw)) + int (length (cw_memory cw)),
          sn_HistoryBudget = historyBudget, sn_Messages = messages\<rparr>)"

section \<open>The window as a message log\<close>

lemma sumTokens_sum [simp]: "sumTokens ms = token_sum ms"
  by (induction ms) simp_all

lemma AddMessage_Inr:
  "AddMessage enc (cw, s) m = Inr (cw', s') \<longleftrightarrow>
     sf_Append enc s (cw_sessionFile cw) m = Inr s' \<and> cw' = cw\<lparr>cw_memory := cw_memory cw @ [m]\<rparr>"
  by (auto simp: AddMessage_def result_simps)

text \<open>Adding to the window extends the memory; it also extends the log of the session file.\<close>

interpretation memory_log: message_log "AddMessage enc" "\<lambda>st. cw_memory (fst st)" "\<lambda>_. True" "\<lambda>_. True"
  for enc
  by unfold_locales (auto simp: AddMessage_Inr)

interpretation window_file_log: message_log "AddMessage enc"
  "\<lambda>st. file_messages dec (file_text (snd st) (cw_sessionFile (fst st)))"
  "\<lambda>st. whole_lines (file_text (snd st) (cw_sessionFile (fst st))) \<and>
     lookup (snd st) (cw_sessionFile (fst st)) \<noteq> Some DirNode"
  "stored enc dec"
  for enc dec
proof unfold_locales
  fix st st' :: "Window \<times> fs" and m
  let ?log = "\<lambda>st. file_messages dec (file_text (snd st) (cw_sessionFile (fst st)))"
  let ?inv = "\<lambda>st. whole_lines (file_text (snd st) (cw_sessionFile (fst st))) \<and> lookup (snd st) (cw_sessionFile (fst st)) \<noteq> Some DirNode"
  assume inv: "?inv st" and ok: "stored enc dec m" and add: "AddMessage enc st m = Inr st'"
  have app: "sf_Append enc (snd st) (cw_sessionFile (fst st)) m = Inr (snd st')"
    and path: "cw_sessionFile (fst st') = cw_sessionFile (fst st)"
    using add by (cases st; cases st'; auto simp: AddMessage_Inr)+
  show "?log st' = ?log st @ [m]" unfolding path by (rule session_log.add_log [OF inv ok app])
  show "?inv st'" unfolding path by (rule session_log.add_inv [OF inv ok app])
qed

lemma add_all_frame:
  "memory_log.add_all enc (cw, s) ms = Inr (cw', s') \<Longrightarrow> cw' = cw\<lparr>cw_memory := cw_memory cw @ ms\<rparr>"
proof (induction ms arbitrary: cw s)
  case Nil
  then show ?case by (simp add: memory_log.add_all.simps)
next
  case (Cons m ms)
  then obtain cw1 s1 where "AddMessage enc (cw, s) m = Inr (cw1, s1)" "memory_log.add_all enc (cw1, s1) ms = Inr (cw', s')"
    by (auto simp: memory_log.add_all.simps result_simps)
  then show ?case using Cons.IH [of cw1 s1] by (simp add: AddMessage_Inr)
qed

lemma StartRun_Inr:
  "StartRun dec s params cw = (Inr (), cw') \<longleftrightarrow>
     (\<exists>history. LoadTail dec s (cw_sessionFile cw) (history_budget params) = Inr history \<and>
        cw' = cw\<lparr>cw_contextSize := bp_ContextSize params, cw_systemContent := bp_SystemContent params,
                 cw_systemTokens := bp_SystemTokens params, cw_toolTokens := bp_ToolTokens params,
                 cw_history := history, cw_memory := []\<rparr>)"
  by (auto simp: StartRun_def Let_def split: sum.splits)

section \<open>Properties\<close>

text \<open>
  C15: within a run the model is shown exactly the system prompt, the history that was loaded when
  the run started, and every message of the run in the order it was added, which is also what
  the session file is extended by.
\<close>

theorem context_of_run:
  assumes "StartRun dec s params cw = (Inr (), cw1)"
    and "memory_log.add_all enc (cw1, s) ms = Inr (cw2, s2)"
    and "list_all (stored enc dec) ms"
    and "whole_lines (file_text s (cw_sessionFile cw))" and "lookup s (cw_sessionFile cw) \<noteq> Some DirNode"
  shows "\<exists>history. LoadTail dec s (cw_sessionFile cw) (history_budget params) = Inr history \<and>
    BuildContext cw2 = text_message RoleSystem (bp_SystemContent params) 0 # history @ ms \<and>
    file_messages dec (file_text s2 (cw_sessionFile cw)) = file_messages dec (file_text s (cw_sessionFile cw)) @ ms"
proof -
  obtain history where h: "LoadTail dec s (cw_sessionFile cw) (history_budget params) = Inr history"
    and cw1: "cw_history cw1 = history" "cw_memory cw1 = []" "cw_systemContent cw1 = bp_SystemContent params"
      "cw_sessionFile cw1 = cw_sessionFile cw"
    using assms(1) by (auto simp: StartRun_Inr)
  have cw2: "cw2 = cw1\<lparr>cw_memory := cw_memory cw1 @ ms\<rparr>" by (rule add_all_frame [OF assms(2)])
  have "file_messages dec (file_text s2 (cw_sessionFile cw)) = file_messages dec (file_text s (cw_sessionFile cw)) @ ms"
    using window_file_log.log_add_all [OF assms(2,3)] assms(4,5) cw1 cw2 by simp
  then show ?thesis using h cw1 cw2 by (simp add: BuildContext_def)
qed


text \<open>
  A snapshot accounts for every message: its list has one entry for the system prompt and one
  for each message of the context, and its total is the sum of their tokens and the tools'.
\<close>

theorem snapshot_accounts:
  "let sn = take_snapshot cw in
     sn_TotalTokens sn = sn_ToolTokens sn + sum_list (map ms_Tokens (sn_Messages sn)) \<and>
     sn_RemainingTokens sn = sn_ContextSize sn - sn_TotalTokens sn \<and>
     sn_TotalMessages sn = int (length (sn_Messages sn)) \<and>
     map ms_Role (sn_Messages sn) = map msg_Role (BuildContext cw)"
  by (simp add: take_snapshot_def BuildContext_def Let_def stats_of_def token_sum_def comp_def)

text \<open>A session with one message on file, for the witnesses.\<close>

definition one_message_fs :: fs where
  "one_message_fs =
     put_node ''/s/a.jsonl'' (FileNode (brace_enc (text_message RoleUser ''hi'' 10) @ [nl])) empty_session_fs"

definition sample_params :: BudgetParams where
  "sample_params = \<lparr>bp_ContextSize = 100, bp_SystemContent = ''be brief'', bp_SystemTokens = 20,
                    bp_ToolTokens = 5, bp_UserPromptTokens = 10\<rparr>"

abbreviation started_window :: Window where
  "started_window \<equiv> snd (StartRun brace_dec one_message_fs sample_params (NewWindow ''/s/a.jsonl''))"

lemma sample_start:
  "fst (StartRun brace_dec one_message_fs sample_params (NewWindow ''/s/a.jsonl'')) = Inr ()"
  "cw_history started_window = [text_message RoleUser ''hi'' 10]"
  "\<not> (case AddMessage brace_enc (started_window, one_message_fs) (text_message RoleUser ''yo'' 10) of Inl _ \<Rightarrow> True | Inr _ \<Rightarrow> False)"
  "file_text one_message_fs ''/s/a.jsonl'' = [CHR 0x7B, CHR ''h'', CHR ''i'', CHR 0x7D, nl]"
  by code_simp+

theorem context_of_run_witness:
  "\<exists>cw2 s2. AddMessage brace_enc (started_window, one_message_fs) (text_message RoleUser ''yo'' 10) = Inr (cw2, s2) \<and>
     BuildContext cw2 = [text_message RoleSystem ''be brief'' 0, text_message RoleUser ''hi'' 10, text_message RoleUser ''yo'' 10]"
proof -
  let ?cw = "NewWindow ''/s/a.jsonl''"
  have path: "cw_sessionFile ?cw = ''/s/a.jsonl''" by (simp add: NewWindow_def)
  have st: "StartRun brace_dec one_message_fs sample_params ?cw = (Inr (), started_window)"
    using sample_start(1) by (metis prod.collapse)
  obtain cw2 s2 where add: "AddMessage brace_enc (started_window, one_message_fs) (text_message RoleUser ''yo'' 10) = Inr (cw2, s2)"
    using sample_start(3) by (auto split: sum.splits)
  have all: "memory_log.add_all brace_enc (started_window, one_message_fs) [text_message RoleUser ''yo'' 10] = Inr (cw2, s2)"
    using add by (simp only: memory_log.add_all.simps result_bind_simps)
  have ok: "list_all (stored brace_enc brace_dec) [text_message RoleUser ''yo'' 10]"
    "whole_lines (file_text one_message_fs (cw_sessionFile ?cw))" "lookup one_message_fs (cw_sessionFile ?cw) \<noteq> Some DirNode"
    unfolding path sample_start(4) by (simp_all add: brace_stored whole_lines_def one_message_fs_def)
  obtain history where h: "LoadTail brace_dec one_message_fs (cw_sessionFile ?cw) (history_budget sample_params) = Inr history"
    "BuildContext cw2 = text_message RoleSystem (bp_SystemContent sample_params) 0 # history @ [text_message RoleUser ''yo'' 10]"
    using context_of_run [OF st all ok] by blast
  have "history = [text_message RoleUser ''hi'' 10]"
    using st h(1) sample_start(2) by (auto simp: StartRun_Inr)
  then show ?thesis using add h(2) by (simp add: sample_params_def)
qed


end
