(* ===== verification/Provider.thy ===== *)
theory Provider
  imports CoreTypes "HOL-Library.AList"
begin

text \<open>
  Package \<open>provider\<close>: normalising the message list (normalize.go), checking its roles
  (validator.go), building the request and reading the response (openai.go, response.go). The
  model server is the function \<open>post\<close> from the request's members to an HTTP reply; \<open>marshal\<close>,
  \<open>unmarshal\<close> and \<open>decode\<close> are the text side of \<open>encoding/json\<close>. Logging is left out. The
  lemmas show what normalisation keeps, what the validator accepts, that tool calls survive the
  way out and back, and which messages never reach the server.
\<close>

section \<open>normalize.go\<close>

definition effectiveRole :: "Message \<Rightarrow> bool \<Rightarrow> role" where
  "effectiveRole msg useToolRole =
     (if \<not> useToolRole \<and> msg_ToolResult msg \<noteq> None then RoleUser else msg_Role msg)"

definition shouldMerge :: "Message \<Rightarrow> Message \<Rightarrow> bool \<Rightarrow> bool" where
  "shouldMerge current previous useToolRole =
     (let currentRole = effectiveRole current useToolRole; previousRole = effectiveRole previous useToolRole
      in if useToolRole \<and> currentRole = RoleTool then False else currentRole = previousRole)"

definition separator :: string where
  "separator = nl # nl # ''---'' @ [nl, nl]"

definition mergeMessages :: "Message \<Rightarrow> Message \<Rightarrow> Message" where
  "mergeMessages target source =
     target\<lparr>msg_Content := (if msg_Content target \<noteq> [] \<and> msg_Content source \<noteq> []
                            then msg_Content target @ separator @ msg_Content source
                            else msg_Content target @ msg_Content source),
            msg_Tokens := msg_Tokens target + msg_Tokens source,
            msg_ToolCalls := (if msg_ToolCalls source \<noteq> [] then msg_ToolCalls target @ msg_ToolCalls source
                              else msg_ToolCalls target)\<rparr>"

text \<open>The loop, with the last message of the result as \<open>previous\<close>.\<close>

fun normalize_from :: "bool \<Rightarrow> Message \<Rightarrow> Message list \<Rightarrow> Message list" where
  "normalize_from useToolRole previous [] = [previous]"
| "normalize_from useToolRole previous (current # rest) =
     (if shouldMerge current previous useToolRole
      then normalize_from useToolRole (mergeMessages previous current) rest
      else previous # normalize_from useToolRole current rest)"

definition normalizeMessages :: "Message list \<Rightarrow> bool \<Rightarrow> Message list" where
  "normalizeMessages messages useToolRole =
     (if length messages \<le> 1 then messages
      else normalize_from useToolRole (hd messages) (tl messages))"

section \<open>validator.go\<close>

definition is_result :: "Message \<Rightarrow> bool" where
  "is_result msg \<longleftrightarrow> msg_Role msg = RoleTool \<or> msg_ToolResult msg \<noteq> None"

definition is_calling :: "Message \<Rightarrow> bool" where
  "is_calling msg \<longleftrightarrow> msg_Role msg = RoleAssistant \<and> msg_ToolCalls msg \<noteq> []"

fun validate_roles_from :: "bool \<Rightarrow> role \<Rightarrow> bool \<Rightarrow> nat \<Rightarrow> Message list \<Rightarrow> unit result" where
  "validate_roles_from useToolRole prevRole expecting i [] = Inr ()"
| "validate_roles_from useToolRole prevRole expecting i (msg # msgs) =
     (let actualRole = effectiveRole msg useToolRole
      in if actualRole = prevRole \<and> actualRole \<noteq> RoleTool
         then Inl (Errorf ''consecutive %s messages at index %d and %d''
                     [AStr actualRole, AInt (int i - 1), AInt (int i)])
         else if is_result msg \<and> \<not> expecting
         then Inl (Errorf ''tool result at index %d without preceding assistant tool calls'' [AInt (int i)])
         else validate_roles_from useToolRole actualRole (is_calling msg \<or> is_result msg) (Suc i) msgs)"

definition validateRoleAlternation :: "Message list \<Rightarrow> bool \<Rightarrow> unit result" where
  "validateRoleAlternation messages useToolRole =
     (case messages of [] \<Rightarrow> Inr ()
      | first # rest \<Rightarrow>
          if msg_Role first \<noteq> RoleSystem
          then Inl (Errorf ''first message must be system role, got: %s'' [AStr (msg_Role first)])
          else validate_roles_from useToolRole [] False 1 rest)"

section \<open>openai.go: the request\<close>

definition toToolCall :: "(json \<Rightarrow> string) \<Rightarrow> ToolCall \<Rightarrow> json" where
  "toToolCall marshal call =
     JObj [(''id'', JStr (tc_ID call)), (''type'', JStr ''function''),
           (''function'', JObj [(''name'', JStr (tc_Name call)),
                                (''arguments'', JStr (marshal (JObj (tc_Arguments call))))])]"

definition toToolCalls :: "(json \<Rightarrow> string) \<Rightarrow> ToolCall list \<Rightarrow> json" where
  "toToolCalls marshal calls = JArr (map (toToolCall marshal) calls)"

definition message_entry :: "(json \<Rightarrow> string) \<Rightarrow> bool \<Rightarrow> Message \<Rightarrow> json_object" where
  "message_entry marshal useToolRole message =
     (let entry = [(''role'', JStr (msg_Role message)), (''content'', JStr (msg_Content message))];
          entry1 = (if msg_ToolCalls message \<noteq> []
                    then AList.update ''tool_calls'' (toToolCalls marshal (msg_ToolCalls message)) entry
                    else entry)
      in case msg_ToolResult message of
           None \<Rightarrow> entry1
         | Some r \<Rightarrow>
             if useToolRole
             then let entry2 = AList.update ''content'' (JStr (tr_Output r)) (AList.update ''role'' (JStr ''tool'') entry1)
                  in if tr_CallID r \<noteq> [] then AList.update ''tool_call_id'' (JStr (tr_CallID r)) entry2 else entry2
             else AList.update ''content'' (JStr (''Tool: '' @ tr_Name r @ nl # nl # ''Result:'' @ nl # tr_Output r))
                    (AList.update ''role'' (JStr ''user'') entry1))"

definition tool_entry :: "ToolDef \<Rightarrow> json" where
  "tool_entry t =
     JObj [(''type'', JStr ''function''),
           (''function'', JObj [(''name'', JStr (td_Name t)), (''description'', JStr (td_Description t)),
                                (''parameters'', td_Parameters t)])]"

definition optional_member :: "string \<Rightarrow> rat option \<Rightarrow> json_object" where
  "optional_member key v = (case v of None \<Rightarrow> [] | Some q \<Rightarrow> [(key, JNum q)])"

definition sampling_members :: "SamplingConfig option \<Rightarrow> json_object" where
  "sampling_members sampling =
     (case sampling of None \<Rightarrow> []
      | Some s \<Rightarrow> optional_member ''temperature'' (sc_Temperature s) @ optional_member ''top_p'' (sc_TopP s) @
          optional_member ''top_k'' (map_option of_int (sc_TopK s)) @
          optional_member ''repeat_penalty'' (sc_RepeatPenalty s))"

definition max_tokens :: "SamplingConfig option \<Rightarrow> int" where
  "max_tokens sampling =
     (case sampling of None \<Rightarrow> 4096
      | Some s \<Rightarrow> (case sc_MaxTokens s of None \<Rightarrow> 4096 | Some n \<Rightarrow> n))"

definition model_name :: "string \<Rightarrow> string" where
  "model_name model = trim_suffix (if model = [] then ''default'' else model) ''.gguf''"

definition chat_payload ::
  "(json \<Rightarrow> string) \<Rightarrow> Message list \<Rightarrow> ToolDef list \<Rightarrow> SamplingConfig option \<Rightarrow> string \<Rightarrow> bool \<Rightarrow> json_object" where
  "chat_payload marshal messages tools sampling model useToolRole =
     [(''model'', JStr (model_name model)),
      (''messages'', JArr (map (\<lambda>m. JObj (message_entry marshal useToolRole m)) messages)),
      (''tools'', JArr (map tool_entry tools)),
      (''max_tokens'', JNum (of_int (max_tokens sampling))),
      (''stream'', JBool False)] @ sampling_members sampling"

section \<open>openai.go: the response\<close>

record Usage =
  us_PromptTokens :: int
  us_CompletionTokens :: int
  us_TotalTokens :: int

record Response =
  rs_Content :: string
  rs_Reasoning :: string
  rs_ToolCalls :: "ToolCall list"
  rs_Usage :: "Usage option"

text \<open>Decoded numbers are float64; the cases \<open>int\<close> and \<open>int64\<close> never occur.\<close>

definition intFromAny :: "json option \<Rightarrow> int" where
  "intFromAny v = (case json_num v of None \<Rightarrow> 0 | Some q \<Rightarrow> trunc_rat q)"

definition parseUsage :: "json_object \<Rightarrow> Usage option" where
  "parseUsage response =
     (case json_obj (map_of response ''usage'') of None \<Rightarrow> None
      | Some m \<Rightarrow> Some \<lparr>us_PromptTokens = intFromAny (map_of m ''prompt_tokens''),
                       us_CompletionTokens = intFromAny (map_of m ''completion_tokens''),
                       us_TotalTokens = intFromAny (map_of m ''total_tokens'')\<rparr>)"

text \<open>A failing \<open>Unmarshal\<close> of the argument text leaves the arguments empty.\<close>

definition parse_arguments :: "(string \<Rightarrow> json_object option) \<Rightarrow> json option \<Rightarrow> json_object" where
  "parse_arguments unmarshal v =
     (case v of
        Some (JStr s) \<Rightarrow> (if s \<noteq> [] then (case unmarshal s of None \<Rightarrow> [] | Some m \<Rightarrow> m) else [])
      | Some (JObj m) \<Rightarrow> m
      | _ \<Rightarrow> [])"

definition parse_tool_call :: "(string \<Rightarrow> json_object option) \<Rightarrow> json \<Rightarrow> ToolCall option" where
  "parse_tool_call unmarshal rawCall =
     (case json_obj (Some rawCall) of None \<Rightarrow> None
      | Some rawEntry \<Rightarrow>
     (case json_obj (map_of rawEntry ''function'') of None \<Rightarrow> None
      | Some functionEntry \<Rightarrow>
          let callID = str_or_empty (json_str (map_of rawEntry ''id''));
              functionName = str_or_empty (json_str (map_of functionEntry ''name''))
          in if functionName = [] then None
             else Some \<lparr>tc_ID = callID, tc_Name = functionName,
                        tc_Arguments = parse_arguments unmarshal (map_of functionEntry ''arguments'')\<rparr>))"

definition parseToolCalls :: "(string \<Rightarrow> json_object option) \<Rightarrow> json_object \<Rightarrow> ToolCall list" where
  "parseToolCalls unmarshal message =
     (case json_arr (map_of message ''tool_calls'') of None \<Rightarrow> []
      | Some rawCalls \<Rightarrow> List.map_filter (parse_tool_call unmarshal) rawCalls)"

definition parseResponsePayload :: "(string \<Rightarrow> json_object option) \<Rightarrow> json_object \<Rightarrow> Response result" where
  "parseResponsePayload unmarshal payload =
     (case json_arr (map_of payload ''choices'') of
        None \<Rightarrow> Inl (Errorf ''no choices in response'' [])
      | Some [] \<Rightarrow> Inl (Errorf ''no choices in response'' [])
      | Some (c # cs) \<Rightarrow>
     (case json_obj (Some c) of None \<Rightarrow> Inl (Errorf ''malformed choice in response'' [])
      | Some choice \<Rightarrow>
     (case json_obj (map_of choice ''message'') of None \<Rightarrow> Inl (Errorf ''malformed message in response'' [])
      | Some message \<Rightarrow>
          Inr \<lparr>rs_Content = str_or_empty (json_str (map_of message ''content'')),
               rs_Reasoning = str_or_empty (json_str (map_of message ''reasoning_content'')),
               rs_ToolCalls = parseToolCalls unmarshal message, rs_Usage = parseUsage payload\<rparr>)))"

text \<open>A reply of the HTTP client: a transport error, or a status code with its text and the body.\<close>

datatype http_reply = TransportError go_error | HttpReply int string string

definition GenerateChat ::
  "(json_object \<Rightarrow> http_reply) \<Rightarrow> (json \<Rightarrow> string) \<Rightarrow> (string \<Rightarrow> json_object option) \<Rightarrow> (string \<Rightarrow> json_object result)
     \<Rightarrow> string \<Rightarrow> bool \<Rightarrow> Message list \<Rightarrow> ToolDef list \<Rightarrow> SamplingConfig option \<Rightarrow> string \<Rightarrow> bool \<Rightarrow> Response result" where
  "GenerateChat post marshal unmarshal decode requestID validateRoles messages0 tools sampling model useToolRole =
     (let messages = normalizeMessages messages0 useToolRole in
      result_bind
        (if validateRoles
         then map_error (\<lambda>err. Errorf ''role validation failed (request_id=%s): %w'' [AStr requestID, AErr err])
                (validateRoleAlternation messages useToolRole)
         else Inr ()) (\<lambda>_.
      case post (chat_payload marshal messages tools sampling model useToolRole) of
        TransportError err \<Rightarrow> Inl (Errorf ''provider request failed (request_id=%s): %w'' [AStr requestID, AErr err])
      | HttpReply code status body \<Rightarrow>
          if code < 200 \<or> code \<ge> 300
          then (if body \<noteq> []
                then Inl (Errorf ''provider error (request_id=%s): %s: %s''
                            [AStr requestID, AStr status, AStr (trim_space body)])
                else Inl (Errorf ''provider error (request_id=%s): %s'' [AStr requestID, AStr status]))
          else result_bind (map_error (\<lambda>err. Errorf ''decode response: %w'' [AErr err]) (decode body)) (\<lambda>payload.
               map_error (\<lambda>err. Errorf ''provider response parse failed (request_id=%s): %w'' [AStr requestID, AErr err])
                 (parseResponsePayload unmarshal payload))))"

definition estimateTokens :: "string \<Rightarrow> int" where
  "estimateTokens s = int (length s div 4)"

text \<open>The status code is not looked at; any body that decodes counts.\<close>

definition CountTokens :: "(json_object \<Rightarrow> http_reply) \<Rightarrow> (string \<Rightarrow> json_object result) \<Rightarrow> string \<Rightarrow> int" where
  "CountTokens post decode s =
     (case post [(''content'', JStr s)] of
        TransportError err \<Rightarrow> estimateTokens s
      | HttpReply code status body \<Rightarrow>
          (case decode body of Inl err \<Rightarrow> estimateTokens s
           | Inr payload \<Rightarrow>
               (case json_arr (map_of payload ''tokens'') of
                  Some tokens \<Rightarrow> int (length tokens)
                | None \<Rightarrow> (case json_num (map_of payload ''count'') of
                    Some n \<Rightarrow> trunc_rat n | None \<Rightarrow> estimateTokens s))))"

section \<open>What normalisation does\<close>

text \<open>Neighbours that may stand side by side: different effective roles, or tool results kept apart.\<close>

definition may_follow :: "bool \<Rightarrow> Message \<Rightarrow> Message \<Rightarrow> bool" where
  "may_follow useToolRole previous current \<longleftrightarrow> \<not> shouldMerge current previous useToolRole"

fun chain :: "('a \<Rightarrow> 'a \<Rightarrow> bool) \<Rightarrow> 'a list \<Rightarrow> bool" where
  "chain R [] = True"
| "chain R [x] = True"
| "chain R (x # y # zs) \<longleftrightarrow> R x y \<and> chain R (y # zs)"

lemma effectiveRole_merge [simp]: "effectiveRole (mergeMessages p c) u = effectiveRole p u"
  by (simp add: effectiveRole_def mergeMessages_def)

lemma shouldMerge_merge [simp]: "shouldMerge x (mergeMessages p c) u = shouldMerge x p u"
  by (simp add: shouldMerge_def)

lemma normalize_from_hd: "normalize_from u p ms \<noteq> [] \<and> effectiveRole (hd (normalize_from u p ms)) u = effectiveRole p u"
  by (induction u p ms rule: normalize_from.induct) auto

lemma shouldMerge_cong: "effectiveRole p u = effectiveRole q u \<Longrightarrow> effectiveRole x u = effectiveRole y u \<Longrightarrow>
    shouldMerge x p u = shouldMerge y q u"
  by (simp add: shouldMerge_def)

lemma chain_Cons: "xs \<noteq> [] \<Longrightarrow> chain R (x # xs) \<longleftrightarrow> R x (hd xs) \<and> chain R xs"
  by (cases xs) auto

lemma chain_normalize_from: "chain (may_follow u) (normalize_from u p ms)"
proof (induction u p ms rule: normalize_from.induct)
  case (2 u p c rest)
  show ?case
  proof (cases "shouldMerge c p u")
    case False
    have "may_follow u p (hd (normalize_from u c rest))"
      using False normalize_from_hd [of u c rest] shouldMerge_cong [of p u p "hd (normalize_from u c rest)" c]
      by (simp add: may_follow_def)
    then show ?thesis using False 2 normalize_from_hd [of u c rest] by (simp add: chain_Cons)
  qed (use 2 in simp)
qed simp

lemma chain_normalizeMessages: "chain (may_follow u) (normalizeMessages ms u)"
proof (cases "length ms \<le> 1")
  case True
  then show ?thesis by (cases ms rule: remdups_adj.cases) (auto simp: normalizeMessages_def)
qed (simp add: normalizeMessages_def chain_normalize_from)

lemma normalize_from_chain: "chain (may_follow u) (p # ms) \<Longrightarrow> normalize_from u p ms = p # ms"
  by (induction u p ms rule: normalize_from.induct) (auto simp: may_follow_def)

lemma normalize_chain: "chain (may_follow u) ms \<Longrightarrow> normalizeMessages ms u = ms"
  by (cases ms) (auto simp: normalizeMessages_def normalize_from_chain)

definition all_calls :: "Message list \<Rightarrow> ToolCall list" where
  "all_calls ms = concat (map msg_ToolCalls ms)"

definition all_tokens :: "Message list \<Rightarrow> int" where
  "all_tokens ms = sum_list (map msg_Tokens ms)"

lemma normalize_from_keeps:
  "all_calls (normalize_from u p ms) = all_calls (p # ms) \<and> all_tokens (normalize_from u p ms) = all_tokens (p # ms)"
  by (induction u p ms rule: normalize_from.induct) (auto simp: all_calls_def all_tokens_def mergeMessages_def)

section \<open>What the validator accepts\<close>

fun well_ordered :: "bool \<Rightarrow> role \<Rightarrow> bool \<Rightarrow> Message list \<Rightarrow> bool" where
  "well_ordered u prevRole expecting [] \<longleftrightarrow> True"
| "well_ordered u prevRole expecting (m # ms) \<longleftrightarrow>
     (effectiveRole m u = prevRole \<longrightarrow> prevRole = RoleTool) \<and> (is_result m \<longrightarrow> expecting) \<and>
     well_ordered u (effectiveRole m u) (is_calling m \<or> is_result m) ms"

lemma validate_well_ordered:
  "validate_roles_from u prevRole expecting i ms = Inr () \<longleftrightarrow> well_ordered u prevRole expecting ms"
  by (induction u prevRole expecting i ms rule: validate_roles_from.induct) (auto simp: Let_def)

text \<open>After normalisation only the tool results are left to go wrong.\<close>

definition results_answer :: "Message list \<Rightarrow> bool" where
  "results_answer ms \<longleftrightarrow> chain (\<lambda>p c. is_result c \<longrightarrow> is_calling p \<or> is_result p) ms"

lemma well_ordered_chain:
  "chain (may_follow u) (p # ms) \<Longrightarrow> results_answer (p # ms) \<Longrightarrow> (is_calling p \<or> is_result p) = expecting \<Longrightarrow>
     well_ordered u (effectiveRole p u) expecting ms"
  by (induction ms arbitrary: p expecting)
    (auto simp: results_answer_def may_follow_def shouldMerge_def Let_def split: if_splits)

lemma is_result_merge [simp]: "is_result (mergeMessages p c) = is_result p"
  by (simp add: is_result_def mergeMessages_def)

lemma merge_answers:
  assumes "shouldMerge c p u" and "is_result c \<Longrightarrow> is_calling p \<or> is_result p" and "is_calling c \<or> is_result c"
  shows "is_calling (mergeMessages p c) \<or> is_result (mergeMessages p c)"
  using assms
  by (auto simp: shouldMerge_def effectiveRole_def is_calling_def is_result_def mergeMessages_def Let_def split: if_splits)

lemma normalize_from_result: "is_result (hd (normalize_from u p ms)) = is_result p"
  by (induction u p ms rule: normalize_from.induct) auto

lemma results_answer_normalize:
  "results_answer (q # ms) \<Longrightarrow> (is_calling q \<or> is_result q \<Longrightarrow> is_calling p \<or> is_result p) \<Longrightarrow>
     results_answer (normalize_from u p ms)"
proof (induction u p ms arbitrary: q rule: normalize_from.induct)
  case (2 u p c rest)
  have c: "is_result c \<Longrightarrow> is_calling p \<or> is_result p" and rest: "results_answer (c # rest)"
    using "2.prems" by (auto simp: results_answer_def)
  show ?case
  proof (cases "shouldMerge c p u")
    case True
    have "results_answer (normalize_from u (mergeMessages p c) rest)"
      using "2.IH"(1) [OF True rest] merge_answers [OF True c] by blast
    then show ?thesis using True by simp
  next
    case False
    have "results_answer (normalize_from u c rest)" using "2.IH"(2) [OF False rest] by blast
    then show ?thesis
      using False c normalize_from_result [of u c rest] normalize_from_hd [of u c rest]
      by (simp add: results_answer_def chain_Cons)
  qed
qed (simp add: results_answer_def)

lemma normalize_from_roles:
  "m \<in> set (normalize_from u p ms) \<Longrightarrow> effectiveRole m u \<in> (\<lambda>m. effectiveRole m u) ` set (p # ms)"
  by (induction u p ms rule: normalize_from.induct) (auto split: if_splits)

lemma normalize_from_hd_role:
  "msg_Role (hd (normalize_from u p ms)) = msg_Role p \<and> msg_ToolResult (hd (normalize_from u p ms)) = msg_ToolResult p"
  by (induction u p ms rule: normalize_from.induct) (auto simp: mergeMessages_def)

lemma normalizeMessages_Cons: "normalizeMessages (m # ms) u = normalize_from u m ms"
  by (cases ms) (simp_all add: normalizeMessages_def)

lemma context_accepted:
  assumes "msg_Role sys = RoleSystem" and "msg_ToolResult sys = None"
    and "results_answer (sys # ms)" and "list_all (\<lambda>m. msg_Role m \<noteq> []) ms"
  shows "validateRoleAlternation (normalizeMessages (sys # ms) u) u = Inr ()"
proof -
  let ?N = "normalize_from u sys ms"
  obtain s rest where N: "?N = s # rest" using normalize_from_hd [of u sys ms] by (cases ?N) auto
  have s: "msg_Role s = RoleSystem" "msg_ToolResult s = None"
    using normalize_from_hd_role [of u sys ms] assms(1,2) by (simp_all add: N)
  have ch: "chain (may_follow u) (s # rest)" using chain_normalize_from [of u sys ms] by (simp add: N)
  have ans: "results_answer (s # rest)" using results_answer_normalize [OF assms(3)] by (metis N)
  have not: "\<not> is_calling s" "\<not> is_result s" using s by (auto simp: is_calling_def is_result_def)
  have "well_ordered u (effectiveRole s u) False rest"
    using not by (intro well_ordered_chain [OF ch ans]) simp
  moreover have "effectiveRole m u \<noteq> []" if "m \<in> set rest" for m
  proof -
    have "effectiveRole m u \<in> (\<lambda>m. effectiveRole m u) ` set (sys # ms)"
      using that by (intro normalize_from_roles) (simp add: N)
    then show ?thesis using assms(1,4) by (auto simp: effectiveRole_def list_all_iff split: if_splits)
  qed
  ultimately have "well_ordered u [] False rest" by (cases rest) auto
  then show ?thesis
    by (simp add: normalizeMessages_Cons N validateRoleAlternation_def s validate_well_ordered)
qed

section \<open>Properties\<close>

text \<open>
  Normalisation leaves no two neighbours with the same effective role except tool results in
  tool-role mode, loses no tool call and no token count, and does nothing more when it is
  applied again.
\<close>

theorem normalize_spec:
  "chain (may_follow u) (normalizeMessages ms u) \<and>
   all_calls (normalizeMessages ms u) = all_calls ms \<and>
   all_tokens (normalizeMessages ms u) = all_tokens ms \<and>
   normalizeMessages (normalizeMessages ms u) u = normalizeMessages ms u"
proof -
  have "all_calls (normalizeMessages ms u) = all_calls ms \<and> all_tokens (normalizeMessages ms u) = all_tokens ms"
    using normalize_from_keeps [of u "hd ms" "tl ms"] by (cases ms) (simp_all add: normalizeMessages_def)
  then show ?thesis by (simp add: chain_normalizeMessages normalize_chain)
qed

text \<open>
  A context that begins with the system prompt, gives every other message a role and lets
  every tool result follow an assistant's tool calls or another result passes the role check
  once it is normalised, in both modes.
\<close>

theorem normalized_context_accepted:
  assumes "msg_Role sys = RoleSystem" and "msg_ToolResult sys = None"
    and "results_answer (sys # ms)" and "list_all (\<lambda>m. msg_Role m \<noteq> []) ms"
  shows "validateRoleAlternation (normalizeMessages (sys # ms) u) u = Inr ()"
  by (rule context_accepted [OF assms])

definition call_message :: "string \<Rightarrow> ToolCall list \<Rightarrow> Message" where
  "call_message content calls = (text_message RoleAssistant content 0)\<lparr>msg_ToolCalls := calls\<rparr>"

definition result_message :: "string \<Rightarrow> string \<Rightarrow> Message" where
  "result_message name output =
     (text_message RoleTool output 0)\<lparr>msg_ToolResult :=
        Some \<lparr>tr_CallID = name, tr_Name = name, tr_Output = output, tr_IsError = False\<rparr>\<rparr>"

definition sample_context :: "Message list" where
  "sample_context =
     [text_message RoleSystem ''s'' 0, text_message RoleUser ''q'' 0,
      call_message [] [\<lparr>tc_ID = ''a'', tc_Name = ''a'', tc_Arguments = []\<rparr>, \<lparr>tc_ID = ''b'', tc_Name = ''b'', tc_Arguments = []\<rparr>],
      result_message ''a'' ''one'', result_message ''b'' ''two'']"

theorem normalized_context_accepted_witness:
  "validateRoleAlternation (normalizeMessages sample_context False) False = Inr ()"
  unfolding sample_context_def
  by (rule normalized_context_accepted)
    (simp_all add: results_answer_def is_result_def is_calling_def call_message_def result_message_def)

text \<open>
  Without the tool role, everything that normalisation merges into a tool result is lost: the
  entry sent for the result shows its own output only. After the first of several results of a
  turn, the outputs of the others, and a user message that follows, never reach the model.
\<close>

theorem merged_after_result_lost:
  assumes "msg_ToolResult r \<noteq> None"
    and "list_all (\<lambda>m. effectiveRole m False = RoleUser \<and> msg_ToolCalls m = []) lost"
  shows "map (message_entry marshal False) (normalize_from False r (lost @ rest)) =
         map (message_entry marshal False) (normalize_from False r rest)"
proof -
  have entry: "map (message_entry marshal False) (normalize_from False p rest) =
      map (message_entry marshal False) (normalize_from False q rest)"
    if "msg_ToolResult p = msg_ToolResult q" "msg_ToolResult q \<noteq> None" "msg_ToolCalls p = msg_ToolCalls q"
      "msg_Role p = msg_Role q" for p q
    using that
  proof (induction rest arbitrary: p q)
    case Nil
    then show ?case by (auto simp: message_entry_def Let_def)
  next
    case (Cons c rest)
    have "shouldMerge c p False = shouldMerge c q False"
      using Cons.prems by (simp add: shouldMerge_def effectiveRole_def)
    moreover have "message_entry marshal False p = message_entry marshal False q"
      using Cons.prems by (auto simp: message_entry_def Let_def)
    moreover have "map (message_entry marshal False) (normalize_from False (mergeMessages p c) rest) =
        map (message_entry marshal False) (normalize_from False (mergeMessages q c) rest)"
      using Cons.prems by (intro Cons.IH) (simp_all add: mergeMessages_def)
    ultimately show ?case by simp
  qed
  from assms show ?thesis
  proof (induction lost arbitrary: r)
    case (Cons m lost)
    have merge: "shouldMerge m r False" using Cons.prems by (simp add: shouldMerge_def effectiveRole_def)
    have "map (message_entry marshal False) (normalize_from False (mergeMessages r m) (lost @ rest)) =
        map (message_entry marshal False) (normalize_from False (mergeMessages r m) rest)"
      using Cons.prems by (intro Cons.IH) (simp_all add: mergeMessages_def)
    also have "\<dots> = map (message_entry marshal False) (normalize_from False r rest)"
      using Cons.prems by (intro entry) (simp_all add: mergeMessages_def)
    finally show ?case using merge by simp
  qed simp
qed

theorem merged_after_result_lost_witness:
  "map (message_entry (\<lambda>_. []) False)
     (normalize_from False (result_message ''a'' ''one'') [result_message ''b'' ''two'', text_message RoleUser ''and now?'' 0]) =
   [[(''role'', JStr ''user''), (''content'', JStr (''Tool: a'' @ nl # nl # ''Result:'' @ nl # ''one''))]]"
proof -
  have "map (message_entry (\<lambda>_. []) False)
      (normalize_from False (result_message ''a'' ''one'') ([result_message ''b'' ''two'', text_message RoleUser ''and now?'' 0] @ [])) =
    map (message_entry (\<lambda>_. []) False) (normalize_from False (result_message ''a'' ''one'') [])"
    by (rule merged_after_result_lost) (simp_all add: result_message_def effectiveRole_def)
  then show ?thesis by (simp add: message_entry_def result_message_def)
qed

text \<open>
  A history that was cut just before a tool result makes every request of the run fail while
  role checking is on, whatever is added to it: the result has no calls before it.
\<close>

theorem orphan_result_refused:
  assumes "msg_Role sys = RoleSystem" and "msg_ToolResult sys = None" and "is_result orphan"
    and "effectiveRole orphan u \<noteq> RoleSystem"
  shows "\<exists>err. GenerateChat post marshal unmarshal decode requestID True (sys # orphan # rest) tools sampling model u = Inl err"
proof -
  have sep: "\<not> shouldMerge orphan sys u"
    using assms by (auto simp: shouldMerge_def effectiveRole_def Let_def split: if_splits)
  obtain o' rest' where N: "normalize_from u orphan rest = o' # rest'"
    using normalize_from_hd [of u orphan rest] by (cases "normalize_from u orphan rest") auto
  have "is_result o'" using normalize_from_result [of u orphan rest] N assms(3) by simp
  then have "validateRoleAlternation (normalizeMessages (sys # orphan # rest) u) u \<noteq> Inr ()"
    using sep N assms(1)
    by (simp add: normalizeMessages_Cons validateRoleAlternation_def Let_def)
  then obtain err where "validateRoleAlternation (normalizeMessages (sys # orphan # rest) u) u = Inl err"
    by (cases "validateRoleAlternation (normalizeMessages (sys # orphan # rest) u) u") auto
  then show ?thesis by (simp add: GenerateChat_def Let_def map_error_def)
qed

theorem orphan_result_refused_witness:
  "\<exists>err. GenerateChat (\<lambda>_. TransportError (Errorf [] [])) (\<lambda>_. []) (\<lambda>_. None) (\<lambda>_. Inr []) ''r'' True
     [text_message RoleSystem ''s'' 0, result_message ''a'' ''one'', text_message RoleUser ''q'' 0] [] None [] True = Inl err"
  by (rule orphan_result_refused) (simp_all add: is_result_def effectiveRole_def result_message_def)

text \<open>
  Tool calls survive the way out and back: what \<open>toToolCalls\<close> writes for calls that have a
  name is read back by \<open>parseToolCalls\<close> as the same calls in the same order, given that the text
  of an argument object decodes to it.
\<close>

theorem tool_calls_roundtrip:
  assumes "list_all (\<lambda>c. tc_Name c \<noteq> [] \<and> marshal (JObj (tc_Arguments c)) \<noteq> [] \<and>
      unmarshal (marshal (JObj (tc_Arguments c))) = Some (tc_Arguments c)) calls"
  shows "parseToolCalls unmarshal [(''tool_calls'', toToolCalls marshal calls)] = calls"
proof -
  have "parse_tool_call unmarshal (toToolCall marshal c) = Some c"
    if "tc_Name c \<noteq> []" "marshal (JObj (tc_Arguments c)) \<noteq> []"
      "unmarshal (marshal (JObj (tc_Arguments c))) = Some (tc_Arguments c)" for c
    using that by (simp add: parse_tool_call_def toToolCall_def parse_arguments_def str_or_empty_def Let_def)
  then have "List.map_filter (parse_tool_call unmarshal) (map (toToolCall marshal) calls) = calls"
    using assms by (induction calls) (auto simp: List.map_filter_simps)
  then show ?thesis by (simp add: parseToolCalls_def toToolCalls_def)
qed

theorem tool_calls_roundtrip_witness:
  "parseToolCalls (\<lambda>t. if t = CHR 0x7B # [CHR 0x7D] then Some [] else None)
     [(''tool_calls'', toToolCalls (\<lambda>_. [CHR 0x7B, CHR 0x7D])
         [\<lparr>tc_ID = ''1'', tc_Name = ''f'', tc_Arguments = []\<rparr>, \<lparr>tc_ID = ''2'', tc_Name = ''g'', tc_Arguments = []\<rparr>])] =
   [\<lparr>tc_ID = ''1'', tc_Name = ''f'', tc_Arguments = []\<rparr>, \<lparr>tc_ID = ''2'', tc_Name = ''g'', tc_Arguments = []\<rparr>]"
  by (rule tool_calls_roundtrip) simp

end
