(* ===== verification/Approvals.thy ===== *)
theory Approvals
  imports CoreTypes
begin

text \<open>
  internal/agent/approvals.go and the commands and events of types.go: the batch of tool calls a
  turn proposes, and the collection of the client's decisions on them. A Go map is its list of
  entries; the order in which \<open>range\<close> visits them is left to the callers, which pass the
  visited list. The command channel is the queue of commands that will be received and whether
  the sender closes it after them. The lemmas show that the first decision on each call counts
  and nothing runs undecided.
\<close>

section \<open>types.go\<close>

abbreviation CmdApproveTool :: string where "CmdApproveTool \<equiv> ''approve_tool''"
abbreviation CmdDenyTool :: string where "CmdDenyTool \<equiv> ''deny_tool''"
abbreviation CmdCancel :: string where "CmdCancel \<equiv> ''cancel''"

record Command =
  cm_Type :: string
  cm_CallID :: string
  cm_Reason :: string

record ProposedToolCall =
  pt_CallID :: string
  pt_Name :: string
  pt_ArgumentsJSON :: string
  pt_Preview :: string

record channel =
  ch_queue :: "Command list"
  ch_closed :: bool

section \<open>approvals.go\<close>

datatype ApprovalState = ApprovalPending | ApprovalGranted | ApprovalDenied

record pendingCall =
  pc_ID :: string
  pc_Name :: string
  pc_Args :: json_object
  pc_Approval :: ApprovalState
  pc_Reason :: string

type_synonym pendingBatch = "(string \<times> pendingCall) list"

text \<open>\<open>fresh i\<close> is the identifier that \<open>NewToolCallID\<close> makes for the call at index \<open>i\<close>.\<close>

fun build_from :: "(nat \<Rightarrow> string) \<Rightarrow> nat \<Rightarrow> ToolCall list \<Rightarrow> pendingBatch \<Rightarrow> pendingBatch" where
  "build_from fresh i [] out = out"
| "build_from fresh i (call # calls) out =
     (let callID = (if tc_ID call = [] then fresh i else tc_ID call)
      in build_from fresh (Suc i) calls
           (AList.update callID
              \<lparr>pc_ID = callID, pc_Name = tc_Name call, pc_Args = tc_Arguments call,
               pc_Approval = ApprovalPending, pc_Reason = []\<rparr> out))"

definition buildPending :: "(nat \<Rightarrow> string) \<Rightarrow> ToolCall list \<Rightarrow> pendingBatch" where
  "buildPending fresh calls = build_from fresh 0 calls []"

text \<open>\<open>asProposed\<close>, \<open>asToolCalls\<close> and \<open>collectDecisions\<close> over the entries in the order visited.\<close>

definition asProposed ::
  "(json \<Rightarrow> string) \<Rightarrow> (string \<Rightarrow> json_object \<Rightarrow> string result) \<Rightarrow> pendingCall list \<Rightarrow> ProposedToolCall list" where
  "asProposed marshal preview visited =
     map (\<lambda>call. \<lparr>pt_CallID = pc_ID call, pt_Name = pc_Name call,
                  pt_ArgumentsJSON = marshal (JObj (pc_Args call)),
                  pt_Preview = (case preview (pc_Name call) (pc_Args call) of Inl err \<Rightarrow> [] | Inr previewText \<Rightarrow> previewText)\<rparr>)
       visited"

definition asToolCalls :: "pendingCall list \<Rightarrow> ToolCall list" where
  "asToolCalls visited =
     map (\<lambda>call. \<lparr>tc_ID = pc_ID call, tc_Name = pc_Name call, tc_Arguments = pc_Args call\<rparr>) visited"

definition areAllDecided :: "pendingBatch \<Rightarrow> bool" where
  "areAllDecided batch \<longleftrightarrow> list_all (\<lambda>(_, call). pc_Approval call \<noteq> ApprovalPending) batch"

definition anyWasDenied :: "pendingCall list \<Rightarrow> bool" where
  "anyWasDenied calls \<longleftrightarrow> list_ex (\<lambda>call. pc_Approval call = ApprovalDenied) calls"

text \<open>What one command does to the batch, \<open>CmdCancel\<close> apart.\<close>

definition decide :: "Command \<Rightarrow> pendingBatch \<Rightarrow> pendingBatch" where
  "decide command batch =
     (case map_of batch (cm_CallID command) of
        None \<Rightarrow> batch
      | Some call \<Rightarrow>
          if pc_Approval call \<noteq> ApprovalPending then batch
          else if cm_Type command = CmdApproveTool
          then AList.update (cm_CallID command) (call\<lparr>pc_Approval := ApprovalGranted\<rparr>) batch
          else if cm_Type command = CmdDenyTool
          then AList.update (cm_CallID command)
                 (call\<lparr>pc_Approval := ApprovalDenied, pc_Reason := cm_Reason command\<rparr>) batch
          else batch)"

text \<open>The loop ends decided, ends aborted, or waits for a command that has not come.\<close>

datatype collected = Decided pendingBatch | Aborted go_error | AwaitingCommand

fun collect_queue :: "bool \<Rightarrow> Command list \<Rightarrow> pendingBatch \<Rightarrow> collected \<times> Command list" where
  "collect_queue no_more queue batch =
     (if areAllDecided batch then (Decided batch, queue)
      else case queue of
        [] \<Rightarrow> (if no_more then Aborted (Errorf ''command channel closed'' []) else AwaitingCommand, [])
      | command # rest \<Rightarrow>
          if cm_Type command = CmdCancel then (Aborted (Errorf ''cancelled'' []), rest)
          else collect_queue no_more rest (decide command batch))"

declare collect_queue.simps [simp del]

definition collectApprovals :: "channel \<Rightarrow> pendingBatch \<Rightarrow> collected \<times> channel" where
  "collectApprovals ch batch =
     (case collect_queue (ch_closed ch) (ch_queue ch) batch of (r, rest) \<Rightarrow> (r, ch\<lparr>ch_queue := rest\<rparr>))"

section \<open>Batches\<close>

text \<open>Every entry is stored under its own identifier, once.\<close>

definition wf_batch :: "pendingBatch \<Rightarrow> bool" where
  "wf_batch batch \<longleftrightarrow> distinct (map fst batch) \<and> list_all (\<lambda>(k, call). pc_ID call = k) batch"

lemma wf_batch_update:
  "wf_batch batch \<Longrightarrow> pc_ID call = k \<Longrightarrow> wf_batch (AList.update k call batch)"
  by (auto simp: wf_batch_def list_all_iff distinct_update dest!: set_update)

lemma wf_build_from: "wf_batch out \<Longrightarrow> wf_batch (build_from fresh i calls out)"
  by (induction fresh i calls out rule: build_from.induct) (auto simp: Let_def wf_batch_update)

lemma wf_buildPending: "wf_batch (buildPending fresh calls)"
proof -
  have "wf_batch []" by (simp add: wf_batch_def)
  then show ?thesis unfolding buildPending_def by (rule wf_build_from)
qed

lemma keys_build_from:
  "fst ` set (build_from fresh i calls out) =
     fst ` set out \<union> (\<lambda>(j, call). if tc_ID call = [] then fresh j else tc_ID call) ` set (enumerate i calls)"
  by (induction fresh i calls out rule: build_from.induct) (auto simp: Let_def dom_update)

lemma build_from_pending:
  "list_all (\<lambda>(_, call). pc_Approval call = ApprovalPending) out \<Longrightarrow>
     list_all (\<lambda>(_, call). pc_Approval call = ApprovalPending) (build_from fresh i calls out)"
  by (induction fresh i calls out rule: build_from.induct) (fastforce simp: Let_def list_all_iff dest!: set_update)+

section \<open>Decisions\<close>

definition is_decision :: "Command \<Rightarrow> bool" where
  "is_decision c \<longleftrightarrow> cm_Type c = CmdApproveTool \<or> cm_Type c = CmdDenyTool"

definition first_decision :: "string \<Rightarrow> Command list \<Rightarrow> Command option" where
  "first_decision callID commands = find (\<lambda>c. cm_CallID c = callID \<and> is_decision c) commands"

definition decided_by :: "pendingCall \<Rightarrow> Command option \<Rightarrow> pendingCall" where
  "decided_by call decision =
     (case decision of None \<Rightarrow> call
      | Some c \<Rightarrow> if cm_Type c = CmdApproveTool then call\<lparr>pc_Approval := ApprovalGranted\<rparr>
                 else call\<lparr>pc_Approval := ApprovalDenied, pc_Reason := cm_Reason c\<rparr>)"

lemma update_map:
  "distinct (map fst al) \<Longrightarrow> map_of al k = Some w \<Longrightarrow>
     AList.update k v al = map (\<lambda>(k', v'). (k', if k' = k then v else v')) al"
proof (induction al)
  case (Cons x al)
  obtain k' v' where x: "x = (k', v')" by force
  show ?case
  proof (cases "k' = k")
    case True
    then have "map (\<lambda>(k', v'). (k', if k' = k then v else v')) al = al"
      using Cons.prems(1) x by (intro map_idI) (auto simp: image_iff)
    then show ?thesis using True x by simp
  qed (use Cons x in auto)
qed simp

lemma map_of_unique: "distinct (map fst al) \<Longrightarrow> (k, v) \<in> set al \<Longrightarrow> map_of al k = Some v"
  by (rule map_of_is_SomeI)

lemma decide_map:
  assumes "wf_batch batch"
  shows "decide c batch =
    map (\<lambda>(k, call). (k, if k = cm_CallID c \<and> is_decision c \<and> pc_Approval call = ApprovalPending
                         then decided_by call (Some c) else call)) batch"
proof -
  have dist: "distinct (map fst batch)" using assms by (simp add: wf_batch_def)
  have same: "call = v" if "(cm_CallID c, call) \<in> set batch" "map_of batch (cm_CallID c) = Some v" for call v
    using map_of_unique [OF dist that(1)] that(2) by simp
  show ?thesis
  proof (cases "map_of batch (cm_CallID c)")
    case None
    then have "cm_CallID c \<notin> fst ` set batch" by (simp add: map_of_eq_None_iff)
    then have "map (\<lambda>(k, call). (k, if k = cm_CallID c \<and> is_decision c \<and> pc_Approval call = ApprovalPending
        then decided_by call (Some c) else call)) batch = batch"
      by (intro map_idI) (auto simp: image_iff)
    then show ?thesis using None by (simp add: decide_def)
  next
    case (Some v)
    consider "pc_Approval v \<noteq> ApprovalPending \<or> \<not> is_decision c" | "pc_Approval v = ApprovalPending" "is_decision c" by blast
    then show ?thesis
    proof cases
      case 1
      then have "map (\<lambda>(k, call). (k, if k = cm_CallID c \<and> is_decision c \<and> pc_Approval call = ApprovalPending
          then decided_by call (Some c) else call)) batch = batch"
        using same [OF _ Some] by (intro map_idI) auto
      then show ?thesis using 1 Some by (auto simp: decide_def is_decision_def)
    next
      case 2
      then have "decide c batch = AList.update (cm_CallID c) (decided_by v (Some c)) batch"
        using Some by (auto simp: decide_def is_decision_def decided_by_def)
      then show ?thesis
        using update_map [OF dist Some] same [OF _ Some] 2 by auto
    qed
  qed
qed

lemma wf_batch_map:
  assumes "wf_batch batch" and "\<And>k call. (k, call) \<in> set batch \<Longrightarrow> pc_ID (f k call) = pc_ID call"
  shows "wf_batch (map (\<lambda>(k, call). (k, f k call)) batch)"
  using assms by (auto simp: wf_batch_def list_all_iff comp_def split_def)

lemma decided_by_ID [simp]:
  "pc_ID (decided_by call d) = pc_ID call" "pc_Name (decided_by call d) = pc_Name call"
  "pc_Args (decided_by call d) = pc_Args call"
  by (auto simp: decided_by_def split: option.split)

lemma decided_by_Some: "pc_Approval (decided_by call (Some c)) \<noteq> ApprovalPending"
  by (simp add: decided_by_def)

text \<open>A sequence of commands decides each pending call by the first decision that names it.\<close>

lemma decide_all:
  "wf_batch batch \<Longrightarrow>
     foldl (\<lambda>b c. decide c b) batch commands =
       map (\<lambda>(k, call). (k, if pc_Approval call = ApprovalPending
                            then decided_by call (first_decision k commands) else call)) batch"
proof (induction commands arbitrary: batch)
  case Nil
  have "map (\<lambda>(k, call). (k, if pc_Approval call = ApprovalPending then decided_by call (first_decision k []) else call)) batch = batch"
    by (rule map_idI) (auto simp: first_decision_def decided_by_def)
  then show ?case by simp
next
  case (Cons c cs)
  have "wf_batch (decide c batch)"
    unfolding decide_map [OF Cons.prems] by (rule wf_batch_map [OF Cons.prems]) simp
  note step = Cons.IH [OF this]
  have "foldl (\<lambda>b c. decide c b) batch (c # cs) =
      map (\<lambda>(k, call). (k, if pc_Approval call = ApprovalPending then decided_by call (first_decision k cs) else call))
        (decide c batch)"
    using step by simp
  also have "\<dots> = map (\<lambda>(k, call). (k, if pc_Approval call = ApprovalPending
      then decided_by call (first_decision k (c # cs)) else call)) batch"
    unfolding decide_map [OF Cons.prems] by (auto simp: first_decision_def decided_by_Some)
  finally show ?case .
qed

lemma collect_queue_Decided:
  "collect_queue no_more queue batch = (Decided b, rest) \<Longrightarrow>
     \<exists>used. queue = used @ rest \<and> list_all (\<lambda>c. cm_Type c \<noteq> CmdCancel) used \<and>
       b = foldl (\<lambda>b c. decide c b) batch used \<and> areAllDecided b"
proof (induction no_more queue batch rule: collect_queue.induct)
  case (1 no_more queue batch)
  show ?case
  proof (cases "areAllDecided batch")
    case True
    then show ?thesis using "1.prems" by (intro exI [of _ "[]"]) (simp add: collect_queue.simps)
  next
    case False
    then obtain c cs where q: "queue = c # cs" "cm_Type c \<noteq> CmdCancel"
      "collect_queue no_more cs (decide c batch) = (Decided b, rest)"
      using "1.prems" by (auto simp: collect_queue.simps [of _ queue] split: list.splits if_splits)
    from "1.IH" [OF False q] obtain used where "cs = used @ rest" "list_all (\<lambda>c. cm_Type c \<noteq> CmdCancel) used"
      "b = foldl (\<lambda>b c. decide c b) (decide c batch) used" "areAllDecided b" by blast
    then show ?thesis using q by (intro exI [of _ "c # used"]) simp
  qed
qed

lemma decided_batch:
  assumes "collectApprovals ch (buildPending fresh calls) = (Decided batch, ch')"
  shows "\<exists>used. ch_queue ch = used @ ch_queue ch' \<and> list_all (\<lambda>c. cm_Type c \<noteq> CmdCancel) used \<and>
    batch = map (\<lambda>(k, call). (k, decided_by call (first_decision k used))) (buildPending fresh calls) \<and>
    list_all (\<lambda>(k, call). first_decision k used \<noteq> None) batch"
proof -
  let ?b = "buildPending fresh calls"
  have run: "collect_queue (ch_closed ch) (ch_queue ch) ?b = (Decided batch, ch_queue ch')"
    using assms by (auto simp: collectApprovals_def split: prod.splits)
  from collect_queue_Decided [OF run] obtain used where used: "ch_queue ch = used @ ch_queue ch'"
    "list_all (\<lambda>c. cm_Type c \<noteq> CmdCancel) used" "batch = foldl (\<lambda>b c. decide c b) ?b used" "areAllDecided batch"
    by blast
  have pend: "list_all (\<lambda>(_, call). pc_Approval call = ApprovalPending) ?b"
    by (simp add: buildPending_def build_from_pending)
  then have batch: "batch = map (\<lambda>(k, call). (k, decided_by call (first_decision k used))) ?b"
    unfolding used(3) decide_all [OF wf_buildPending] by (auto simp: list_all_iff)
  have "list_all (\<lambda>(k, call). first_decision k used \<noteq> None) batch"
    unfolding list_all_iff
  proof (intro ballI)
    fix x assume x: "x \<in> set batch"
    then obtain k call where k: "x = (k, decided_by call (first_decision k used))" "(k, call) \<in> set ?b"
      unfolding batch by auto
    have "pc_Approval call = ApprovalPending" using pend k(2) by (auto simp: list_all_iff)
    moreover have "pc_Approval (decided_by call (first_decision k used)) \<noteq> ApprovalPending"
      using used(4) x by (auto simp: areAllDecided_def list_all_iff k(1))
    ultimately show "case x of (k, call) \<Rightarrow> first_decision k used \<noteq> None"
      by (cases "first_decision k used") (simp_all add: k(1) decided_by_def)
  qed
  then show ?thesis using used batch by blast
qed

text \<open>What a call that is not denied in a decided batch owes to the commands.\<close>

lemma decided_granted:
  assumes "collectApprovals ch (buildPending fresh calls) = (Decided batch, ch')" and "call \<in> snd ` set batch"
    and "pc_Approval call \<noteq> ApprovalDenied"
  shows "\<exists>c \<in> set (ch_queue ch). cm_Type c = CmdApproveTool \<and> cm_CallID c = pc_ID call"
proof -
  obtain used where used: "ch_queue ch = used @ ch_queue ch'"
    "batch = map (\<lambda>(k, call). (k, decided_by call (first_decision k used))) (buildPending fresh calls)"
    "list_all (\<lambda>(k, call). first_decision k used \<noteq> None) batch"
    using decided_batch [OF assms(1)] by blast
  obtain k call0 where k: "(k, call0) \<in> set (buildPending fresh calls)" "call = decided_by call0 (first_decision k used)"
    using assms(2) unfolding used(2) by auto
  have "pc_ID call0 = k" using wf_buildPending [of fresh calls] k(1) by (auto simp: wf_batch_def list_all_iff)
  moreover obtain c where c: "first_decision k used = Some c"
    using used(3) k unfolding used(2) by (auto simp: list_all_iff)
  moreover have "c \<in> set used" "cm_CallID c = k" "is_decision c"
    using c by (auto simp: first_decision_def find_Some_iff)
  ultimately show ?thesis
    using assms(3) k(2) used(1) by (intro bexI [of _ c]) (auto simp: decided_by_def is_decision_def split: if_splits)
qed

lemma keys_buildPending:
  "fst ` set (buildPending fresh calls) =
     (\<lambda>(j, call). if tc_ID call = [] then fresh j else tc_ID call) ` set (enumerate 0 calls)"
  by (simp add: buildPending_def keys_build_from)

lemma buildPending_nonempty: "calls \<noteq> [] \<Longrightarrow> buildPending fresh calls \<noteq> []"
  using keys_buildPending [of fresh calls] by (cases calls) auto

text \<open>With identifiers that are given and different, nothing is lost and the entries keep the calls' order.\<close>

definition pending_of :: "ToolCall \<Rightarrow> pendingCall" where
  "pending_of call =
     \<lparr>pc_ID = tc_ID call, pc_Name = tc_Name call, pc_Args = tc_Arguments call,
      pc_Approval = ApprovalPending, pc_Reason = []\<rparr>"

lemma update_new: "k \<notin> fst ` set al \<Longrightarrow> AList.update k v al = al @ [(k, v)]"
  by (induction al) auto

lemma build_from_distinct:
  "distinct (map fst out @ map tc_ID calls) \<Longrightarrow> list_all (\<lambda>c. tc_ID c \<noteq> []) calls \<Longrightarrow>
     build_from fresh i calls out = out @ map (\<lambda>c. (tc_ID c, pending_of c)) calls"
  by (induction fresh i calls out rule: build_from.induct) (auto simp: Let_def update_new pending_of_def)

lemma find_append_cases: "find P (xs @ ys) = (case find P xs of None \<Rightarrow> find P ys | Some x \<Rightarrow> Some x)"
  by (induction xs) auto

lemma map_of_build_from:
  "list_all (\<lambda>c. tc_ID c \<noteq> []) calls \<Longrightarrow>
     map_of (build_from fresh i calls out) k =
       (case find (\<lambda>c. tc_ID c = k) (rev calls) of None \<Rightarrow> map_of out k | Some c \<Rightarrow> Some (pending_of c))"
  by (induction fresh i calls out rule: build_from.induct)
    (auto simp: Let_def update_conv' find_append_cases pending_of_def split: option.split)

section \<open>Properties\<close>

text \<open>
  C5: when the collection of approvals ends with decisions, every call of the batch has been
  decided by the first approval or denial that names it among the commands received, later
  ones being ignored, and no cancellation was received before the last decision.
\<close>

theorem approvals_first_decision:
  assumes "collectApprovals ch (buildPending fresh calls) = (Decided batch, ch')"
  shows "\<exists>used. ch_queue ch = used @ ch_queue ch' \<and> list_all (\<lambda>c. cm_Type c \<noteq> CmdCancel) used \<and>
    batch = map (\<lambda>(k, call). (k, decided_by call (first_decision k used))) (buildPending fresh calls) \<and>
    list_all (\<lambda>(k, call). first_decision k used \<noteq> None) batch"
  by (rule decided_batch [OF assms])

definition sample_calls :: "ToolCall list" where
  "sample_calls = [\<lparr>tc_ID = ''a'', tc_Name = ''read_file'', tc_Arguments = []\<rparr>,
                   \<lparr>tc_ID = ''b'', tc_Name = ''edit_file'', tc_Arguments = []\<rparr>]"

definition sample_channel :: channel where
  "sample_channel =
     \<lparr>ch_queue = [\<lparr>cm_Type = CmdDenyTool, cm_CallID = ''b'', cm_Reason = ''no''\<rparr>,
                  \<lparr>cm_Type = CmdApproveTool, cm_CallID = ''b'', cm_Reason = []\<rparr>,
                  \<lparr>cm_Type = CmdApproveTool, cm_CallID = ''a'', cm_Reason = []\<rparr>,
                  \<lparr>cm_Type = CmdCancel, cm_CallID = [], cm_Reason = []\<rparr>], ch_closed = True\<rparr>"

theorem approvals_first_decision_witness:
  "\<exists>batch ch' used. collectApprovals sample_channel (buildPending (\<lambda>_. ''x'') sample_calls) = (Decided batch, ch') \<and>
     ch_queue sample_channel = used @ ch_queue ch' \<and> length used = 3 \<and>
     map (\<lambda>(k, call). (k, pc_Approval call)) batch = [(''a'', ApprovalGranted), (''b'', ApprovalDenied)]"
proof -
  let ?r = "collectApprovals sample_channel (buildPending (\<lambda>_. ''x'') sample_calls)"
  have ev: "case fst ?r of Decided batch \<Rightarrow> map (\<lambda>(k, call). (k, pc_Approval call)) batch = [(''a'', ApprovalGranted), (''b'', ApprovalDenied)]
      | Aborted e \<Rightarrow> False | AwaitingCommand \<Rightarrow> False" "length (ch_queue (snd ?r)) = 1" "length (ch_queue sample_channel) = 4"
    by code_simp+
  then obtain batch where r: "?r = (Decided batch, snd ?r)"
    "map (\<lambda>(k, call). (k, pc_Approval call)) batch = [(''a'', ApprovalGranted), (''b'', ApprovalDenied)]"
    by (cases ?r) (auto split: collected.splits)
  obtain used where u: "ch_queue sample_channel = used @ ch_queue (snd ?r)"
    using approvals_first_decision [OF r(1)] by blast
  have "length used = 3"
    using arg_cong [OF u, of length] ev(2,3) by simp
  then show ?thesis
    by (intro exI [of _ batch] exI [of _ "snd ?r"] exI [of _ used] conjI r u)
qed

text \<open>
  The batch holds one entry for each different identifier. Calls with identifiers of their
  own are all kept, in order; of calls that share one, a model's mistake that nothing reports,
  only the last is proposed and run.
\<close>

theorem buildPending_entries:
  assumes "list_all (\<lambda>c. tc_ID c \<noteq> []) calls"
  shows "distinct (map fst (buildPending fresh calls)) \<and>
    set (map fst (buildPending fresh calls)) = set (map tc_ID calls) \<and>
    (distinct (map tc_ID calls) \<longrightarrow> buildPending fresh calls = map (\<lambda>c. (tc_ID c, pending_of c)) calls) \<and>
    map_of (buildPending fresh calls) k = map_option pending_of (find (\<lambda>c. tc_ID c = k) (rev calls))"
proof -
  have "distinct (map fst (buildPending fresh calls))" using wf_buildPending by (simp add: wf_batch_def)
  moreover have "set (map fst (buildPending fresh calls)) = set (map tc_ID calls)"
  proof -
    have "(\<lambda>(j, call). if tc_ID call = [] then fresh j else tc_ID call) ` set (enumerate 0 calls) =
        tc_ID ` snd ` set (enumerate 0 calls)"
      using assms unfolding image_image
      by (intro image_cong refl) (auto simp: list_all_iff in_set_enumerate_eq)
    also have "snd ` set (enumerate 0 calls) = set calls"
      using map_snd_enumerate [of 0 calls] by (metis set_map)
    finally show ?thesis using keys_buildPending [of fresh calls] by simp
  qed
  moreover have "distinct (map tc_ID calls) \<Longrightarrow> buildPending fresh calls = map (\<lambda>c. (tc_ID c, pending_of c)) calls"
    using build_from_distinct [of "[]" calls fresh 0] assms by (simp add: buildPending_def)
  moreover have "map_of (buildPending fresh calls) k = map_option pending_of (find (\<lambda>c. tc_ID c = k) (rev calls))"
    using map_of_build_from [OF assms, of fresh 0 "[]" k]
    by (cases "find (\<lambda>c. tc_ID c = k) (rev calls)") (simp_all add: buildPending_def)
  ultimately show ?thesis by blast
qed

theorem buildPending_entries_witness:
  "map_of (buildPending (\<lambda>_. ''x'') (sample_calls @ [\<lparr>tc_ID = ''a'', tc_Name = ''write_file'', tc_Arguments = []\<rparr>])) ''a'' =
     Some (pending_of \<lparr>tc_ID = ''a'', tc_Name = ''write_file'', tc_Arguments = []\<rparr>) \<and>
   set (map fst (buildPending (\<lambda>_. ''x'') (sample_calls @ [\<lparr>tc_ID = ''a'', tc_Name = ''write_file'', tc_Arguments = []\<rparr>]))) =
     {''a'', ''b''}"
proof -
  let ?calls = "sample_calls @ [\<lparr>tc_ID = ''a'', tc_Name = ''write_file'', tc_Arguments = []\<rparr>]"
  have ids: "list_all (\<lambda>c. tc_ID c \<noteq> []) ?calls" by (simp add: sample_calls_def)
  have "map_of (buildPending (\<lambda>_. ''x'') ?calls) ''a'' = map_option pending_of (find (\<lambda>c. tc_ID c = ''a'') (rev ?calls))"
    "set (map fst (buildPending (\<lambda>_. ''x'') ?calls)) = set (map tc_ID ?calls)"
    using buildPending_entries [OF ids] by blast+
  moreover have "set (map tc_ID ?calls) = {''a'', ''b''}" by (auto simp: sample_calls_def)
  moreover have "find (\<lambda>c. tc_ID c = ''a'') (rev ?calls) = Some \<lparr>tc_ID = ''a'', tc_Name = ''write_file'', tc_Arguments = []\<rparr>"
    by simp
  ultimately show ?thesis by (simp only: option.map simp_thms)
qed

end
