(* ===== verification/AgentLoop.thy ===== *)
theory AgentLoop
  imports Window Provider Approvals
begin

text \<open>
  The agent loop (internal/agent/agent.go, tools.go, types.go): prompt the model, propose its tool
  calls, collect the client's decisions, run what was approved, feed the results back. A run is a
  function from the state of the session (its window and the files) and the commands the client
  will send to the events it emits, the final state, and how it stands: finished, waiting for a
  command, or out of the number of turns it was given to take. What the loop calls through
  interfaces is a parameter, collected in \<open>env\<close>: the model's answer in each turn, the token
  counter, the tool executor, which may change the session's state, and the order in which each
  \<open>range\<close> over a map visits its entries. The run lives in one goroutine and only it touches the
  window, so that the steps are the statements in their order.
\<close>

section \<open>Events\<close>

abbreviation EvtRunStarted :: string where "EvtRunStarted \<equiv> ''run_started''"
abbreviation EvtTokenDelta :: string where "EvtTokenDelta \<equiv> ''token_delta''"
abbreviation EvtReasoningDelta :: string where "EvtReasoningDelta \<equiv> ''reasoning_delta''"
abbreviation EvtTurnCompleted :: string where "EvtTurnCompleted \<equiv> ''turn_completed''"
abbreviation EvtToolsProposed :: string where "EvtToolsProposed \<equiv> ''tools_proposed''"
abbreviation EvtToolStarted :: string where "EvtToolStarted \<equiv> ''tool_execution_started''"
abbreviation EvtToolCompleted :: string where "EvtToolCompleted \<equiv> ''tool_execution_completed''"
abbreviation EvtToolFailed :: string where "EvtToolFailed \<equiv> ''tool_execution_failed''"
abbreviation EvtToolsCompleted :: string where "EvtToolsCompleted \<equiv> ''tools_completed''"
abbreviation EvtRunCompleted :: string where "EvtRunCompleted \<equiv> ''run_completed''"
abbreviation EvtRunCancelled :: string where "EvtRunCancelled \<equiv> ''run_cancelled''"
abbreviation EvtRunFailed :: string where "EvtRunFailed \<equiv> ''run_failed''"

definition empty_response :: Response where
  "empty_response = \<lparr>rs_Content = [], rs_Reasoning = [], rs_ToolCalls = [], rs_Usage = None\<rparr>"

record Event =
  ev_Type :: string
  ev_RunID :: string
  ev_SessionID :: string
  ev_AgentName :: string
  ev_Token :: string
  ev_Reasoning :: string
  ev_Calls :: "ProposedToolCall list"
  ev_CallID :: string
  ev_Output :: string
  ev_Response :: Response
  ev_Snapshot :: "Snapshot option"
  ev_Error :: string

definition event :: "string \<Rightarrow> string \<Rightarrow> Event" where
  "event type runID =
     \<lparr>ev_Type = type, ev_RunID = runID, ev_SessionID = [], ev_AgentName = [], ev_Token = [], ev_Reasoning = [], ev_Calls = [], ev_CallID = [],
      ev_Output = [], ev_Response = empty_response, ev_Snapshot = None, ev_Error = []\<rparr>"

section \<open>The surroundings of a run\<close>

record world =
  wd_window :: Window
  wd_fs :: fs

record RunConfig =
  rc_AgentName :: string
  rc_ContextSize :: int
  rc_Sampling :: "SamplingConfig option"
  rc_ProviderModel :: string
  rc_WorkingDir :: string
  rc_ToolRole :: bool

record env =
  en_chat :: "nat \<Rightarrow> Message list \<Rightarrow> ToolDef list \<Rightarrow> SamplingConfig option \<Rightarrow> string \<Rightarrow> bool \<Rightarrow> Response result"
  en_count :: "string \<Rightarrow> int"
  en_tools :: "ToolDef list"
  en_tools_text :: string
  en_execute :: "string \<Rightarrow> string \<Rightarrow> json_object \<Rightarrow> world \<Rightarrow> string result \<times> world"
  en_preview :: "string \<Rightarrow> string \<Rightarrow> json_object \<Rightarrow> world \<Rightarrow> string result"
  en_range :: "nat \<Rightarrow> string \<Rightarrow> pendingCall list \<Rightarrow> pendingCall list"
  en_fresh :: "nat \<Rightarrow> nat \<Rightarrow> string"
  en_marshal :: "json \<Rightarrow> string"
  en_enc :: "Message \<Rightarrow> string"
  en_dec :: "string \<Rightarrow> Message option"

definition add_message :: "env \<Rightarrow> Message \<Rightarrow> world \<Rightarrow> unit result \<times> world" where
  "add_message en msg w =
     (case AddMessage (en_enc en) (wd_window w, wd_fs w) msg of
        Inl err \<Rightarrow> (Inl err, w)
      | Inr (cw, s) \<Rightarrow> (Inr (), w\<lparr>wd_window := cw, wd_fs := s\<rparr>))"

section \<open>tools.go\<close>

definition executeToolCall ::
  "env \<Rightarrow> RunConfig \<Rightarrow> string \<Rightarrow> pendingCall \<Rightarrow> world \<Rightarrow> string result \<times> world \<times> Event list" where
  "executeToolCall en cfg runID call w =
     (if pc_Approval call = ApprovalDenied
      then let reason = (if pc_Reason call = [] then ''user denied'' else pc_Reason call)
           in (Inl (Errorf ''denied: %s'' [AStr reason]), w, [])
      else let started = (event EvtToolStarted runID)\<lparr>ev_CallID := pc_ID call\<rparr>;
               (output, w') = en_execute en (rc_WorkingDir cfg) (pc_Name call) (pc_Args call) w;
               outcome = (case output of
                   Inl err \<Rightarrow> (event EvtToolFailed runID)\<lparr>ev_CallID := pc_ID call, ev_Error := error_text err\<rparr>
                 | Inr out \<Rightarrow> (event EvtToolCompleted runID)\<lparr>ev_CallID := pc_ID call, ev_Output := out\<rparr>)
           in (output, w', [started, outcome]))"

definition tool_result :: "pendingCall \<Rightarrow> string result \<Rightarrow> ToolResult" where
  "tool_result call output =
     (case output of
        Inl err \<Rightarrow> \<lparr>tr_CallID = pc_ID call, tr_Name = pc_Name call, tr_Output = error_text err, tr_IsError = True\<rparr>
      | Inr out \<Rightarrow> \<lparr>tr_CallID = pc_ID call, tr_Name = pc_Name call, tr_Output = out, tr_IsError = False\<rparr>)"

definition tool_message :: "env \<Rightarrow> ToolResult \<Rightarrow> Message" where
  "tool_message en r =
     (text_message RoleTool (tr_Output r) (en_count en (tr_Output r)))\<lparr>msg_ToolResult := Some r\<rparr>"

fun execute_each ::
  "env \<Rightarrow> RunConfig \<Rightarrow> string \<Rightarrow> pendingCall list \<Rightarrow> world \<Rightarrow> unit result \<times> world \<times> Event list" where
  "execute_each en cfg runID [] w = (Inr (), w, [])"
| "execute_each en cfg runID (call # calls) w =
     (case executeToolCall en cfg runID call w of
        (output, w1, evs) \<Rightarrow>
          (case add_message en (tool_message en (tool_result call output)) w1 of
             (Inl err, w2) \<Rightarrow> (Inl err, w2, evs)
           | (Inr _, w2) \<Rightarrow>
               (case execute_each en cfg runID calls w2 of (r, w3, evs') \<Rightarrow> (r, w3, evs @ evs'))))"

definition executeTools ::
  "env \<Rightarrow> RunConfig \<Rightarrow> string \<Rightarrow> pendingCall list \<Rightarrow> world \<Rightarrow> unit result \<times> world \<times> Event list" where
  "executeTools en cfg runID calls w =
     (case execute_each en cfg runID calls w of
        (Inl err, w', evs) \<Rightarrow> (Inl err, w', evs)
      | (Inr _, w', evs) \<Rightarrow> (Inr (), w', evs @ [event EvtToolsCompleted runID]))"

section \<open>agent.go\<close>

datatype run_status = Finished | Waiting | OutOfTurns

text \<open>One pass of the \<open>for\<close> loop; \<open>None\<close> goes on with the next one.\<close>

definition agent_turn ::
  "env \<Rightarrow> RunConfig \<Rightarrow> string \<Rightarrow> nat \<Rightarrow> world \<Rightarrow> channel \<Rightarrow> Event list \<times> world \<times> channel \<times> run_status option" where
  "agent_turn en cfg runID turn w ch =
     (let contextMessages = BuildContext (wd_window w) in
      case en_chat en turn contextMessages (en_tools en) (rc_Sampling cfg) (rc_ProviderModel cfg) (rc_ToolRole cfg) of
        Inl err \<Rightarrow> ([(event EvtRunFailed runID)\<lparr>ev_Error := error_text err\<rparr>], w, ch, Some Finished)
      | Inr chatResponse \<Rightarrow>
      let completionTokens = (case rs_Usage chatResponse of None \<Rightarrow> 0 | Some u \<Rightarrow> us_CompletionTokens u);
          reply = (text_message RoleAssistant (rs_Content chatResponse) completionTokens)
            \<lparr>msg_AgentName := rc_AgentName cfg\<rparr>
      in if rs_ToolCalls chatResponse = []
         then let w1 = snd (add_message en reply w);
                  snapshot = take_snapshot (wd_window w1)
              in ([(event EvtTurnCompleted runID)\<lparr>ev_Response := chatResponse, ev_Snapshot := Some snapshot\<rparr>,
                   (event EvtRunCompleted runID)\<lparr>ev_Response := chatResponse\<rparr>], w1, ch, Some Finished)
         else
           let pendingToolCalls = buildPending (en_fresh en turn) (rs_ToolCalls chatResponse);
               calls = map snd pendingToolCalls;
               assistantMessage = reply\<lparr>msg_ToolCalls := asToolCalls (en_range en turn ''asToolCalls'' calls)\<rparr>;
               w1 = snd (add_message en assistantMessage w);
               snapshot = take_snapshot (wd_window w1);
               proposedCalls = asProposed (en_marshal en) (\<lambda>name args. en_preview en (rc_WorkingDir cfg) name args w1)
                 (en_range en turn ''asProposed'' calls);
               evs = [(event EvtTurnCompleted runID)\<lparr>ev_Response := chatResponse, ev_Snapshot := Some snapshot\<rparr>,
                      (event EvtToolsProposed runID)\<lparr>ev_Calls := proposedCalls\<rparr>]
           in case collectApprovals ch pendingToolCalls of
                (AwaitingCommand, ch') \<Rightarrow> (evs, w1, ch', Some Waiting)
              | (Aborted err, ch') \<Rightarrow> (evs @ [event EvtRunCancelled runID], w1, ch', Some Finished)
              | (Decided batch, ch') \<Rightarrow>
                  let toolDecisions = en_range en turn ''collectDecisions'' (map snd batch)
                  in case executeTools en cfg runID toolDecisions w1 of
                       (Inl err, w2, tevs) \<Rightarrow>
                         (evs @ tevs @ [(event EvtRunFailed runID)\<lparr>ev_Error := error_text err\<rparr>], w2, ch', Some Finished)
                     | (Inr _, w2, tevs) \<Rightarrow>
                         (if anyWasDenied toolDecisions
                          then (evs @ tevs @ [event EvtRunCompleted runID], w2, ch', Some Finished)
                          else (evs @ tevs, w2, ch', None)))"

fun agent_turns ::
  "nat \<Rightarrow> env \<Rightarrow> RunConfig \<Rightarrow> string \<Rightarrow> nat \<Rightarrow> world \<Rightarrow> channel \<Rightarrow> Event list \<times> world \<times> run_status" where
  "agent_turns 0 en cfg runID turn w ch = ([], w, OutOfTurns)"
| "agent_turns (Suc fuel) en cfg runID turn w ch =
     (case agent_turn en cfg runID turn w ch of
        (evs, w', ch', Some status) \<Rightarrow> (evs, w', status)
      | (evs, w', ch', None) \<Rightarrow>
          (case agent_turns fuel en cfg runID (Suc turn) w' ch' of (evs', w'', status) \<Rightarrow> (evs @ evs', w'', status)))"

text \<open>What comes before the loop. A failing \<open>StartRun\<close> or \<open>AddMessage\<close> is only logged.\<close>

definition start_params :: "env \<Rightarrow> RunConfig \<Rightarrow> string \<Rightarrow> Window \<Rightarrow> BudgetParams" where
  "start_params en cfg prompt cw =
     \<lparr>bp_ContextSize = rc_ContextSize cfg, bp_SystemContent = SystemContent cw,
      bp_SystemTokens = en_count en (SystemContent cw), bp_ToolTokens = en_count en (en_tools_text en),
      bp_UserPromptTokens = (if prompt \<noteq> [] then en_count en prompt else 0)\<rparr>"

definition run_start :: "env \<Rightarrow> RunConfig \<Rightarrow> string \<Rightarrow> world \<Rightarrow> world" where
  "run_start en cfg prompt w =
     (let w1 = w\<lparr>wd_window := snd (StartRun (en_dec en) (wd_fs w) (start_params en cfg prompt (wd_window w)) (wd_window w))\<rparr>
      in if prompt \<noteq> [] then snd (add_message en (text_message RoleUser prompt (en_count en prompt)) w1) else w1)"

text \<open>The whole run; \<open>CompleteRun\<close> is deferred to the return of the loop.\<close>

definition agent_run ::
  "nat \<Rightarrow> env \<Rightarrow> RunConfig \<Rightarrow> string \<Rightarrow> string \<Rightarrow> world \<Rightarrow> channel \<Rightarrow> Event list \<times> world \<times> run_status" where
  "agent_run fuel en cfg runID prompt w ch =
     (case agent_turns fuel en cfg runID 0 (run_start en cfg prompt w) ch of
        (evs, w', status) \<Rightarrow>
          (event EvtRunStarted runID # evs,
           if status = Finished then w'\<lparr>wd_window := CompleteRun (wd_window w')\<rparr> else w', status))"

section \<open>The shape of a run\<close>

definition terminal :: "Event \<Rightarrow> bool" where
  "terminal e \<longleftrightarrow> ev_Type e \<in> {EvtRunCompleted, EvtRunCancelled, EvtRunFailed}"

lemma ev_Type_event [simp]: "ev_Type (event type runID) = type"
  by (simp add: event_def)

lemma executeToolCall_events:
  "executeToolCall en cfg runID call w = (output, w', evs) \<Longrightarrow> e \<in> set evs \<Longrightarrow>
     \<not> terminal e \<and> ev_CallID e = pc_ID call \<and> pc_Approval call \<noteq> ApprovalDenied"
  by (auto simp: executeToolCall_def Let_def terminal_def split: if_splits prod.splits sum.splits)

lemma execute_each_events:
  "execute_each en cfg runID calls w = (r, w', evs) \<Longrightarrow> e \<in> set evs \<Longrightarrow>
     \<not> terminal e \<and> (\<exists>call \<in> set calls. ev_CallID e = pc_ID call \<and> pc_Approval call \<noteq> ApprovalDenied)"
proof (induction calls arbitrary: w r w' evs)
  case (Cons call calls)
  obtain out w1 evs1 where c: "executeToolCall en cfg runID call w = (out, w1, evs1)"
    by (metis prod_cases3)
  obtain a w2 where a: "add_message en (tool_message en (tool_result call out)) w1 = (a, w2)" by force
  obtain r3 w3 evs3 where rest: "execute_each en cfg runID calls w2 = (r3, w3, evs3)" by (metis prod_cases3)
  have evs: "evs = evs1 \<or> evs = evs1 @ evs3"
    using Cons.prems(1) c a rest by (auto split: sum.splits)
  show ?case
  proof (cases "e \<in> set evs1")
    case True
    then show ?thesis using executeToolCall_events [OF c] by auto
  next
    case False
    then have "e \<in> set evs3" using evs Cons.prems(2) by auto
    then show ?thesis using Cons.IH [OF rest] by auto
  qed
qed simp

lemma executeTools_events:
  assumes "executeTools en cfg runID calls w = (r, w', evs)" and "e \<in> set evs"
  shows "\<not> terminal e" and "ev_Type e = EvtToolStarted \<Longrightarrow>
    \<exists>call \<in> set calls. ev_CallID e = pc_ID call \<and> pc_Approval call \<noteq> ApprovalDenied"
proof -
  obtain r1 evs1 where x: "execute_each en cfg runID calls w = (r1, w', evs1)"
    and evs: "evs = evs1 \<or> evs = evs1 @ [event EvtToolsCompleted runID]"
    using assms(1) by (auto simp: executeTools_def split: prod.splits sum.splits)
  show "\<not> terminal e" using execute_each_events [OF x, of e] evs assms(2) by (auto simp: terminal_def)
  show "\<exists>call \<in> set calls. ev_CallID e = pc_ID call \<and> pc_Approval call \<noteq> ApprovalDenied" if "ev_Type e = EvtToolStarted"
    using execute_each_events [OF x, of e] evs assms(2) that by auto
qed

text \<open>The ways a turn can go, with the events of each.\<close>

lemma agent_turn_cases [consumes 1, case_names chat_failed answered waiting aborted store_failed denied continues]:
  assumes "agent_turn en cfg runID turn w ch = (evs, w', ch', st)"
  obtains (chat_failed) err where "evs = [(event EvtRunFailed runID)\<lparr>ev_Error := error_text err\<rparr>]" "w' = w" "st = Some Finished" "ch' = ch"
  | (answered) reply e1 e2 where "evs = [e1, e2]" "ev_Type e1 = EvtTurnCompleted" "ev_Type e2 = EvtRunCompleted"
      "w' = snd (add_message en reply w)" "msg_ToolCalls reply = []" "st = Some Finished" "ch' = ch"
  | (waiting) reply e1 e2 where "evs = [e1, e2]" "ev_Type e1 = EvtTurnCompleted" "ev_Type e2 = EvtToolsProposed"
      "w' = snd (add_message en reply w)" "st = Some Waiting"
  | (aborted) reply calls err e1 e2 where "evs = [e1, e2, event EvtRunCancelled runID]" "ev_Type e1 = EvtTurnCompleted"
      "ev_Type e2 = EvtToolsProposed" "calls \<noteq> []"
      "collectApprovals ch (buildPending (en_fresh en turn) calls) = (Aborted err, ch')"
      "reply = (text_message RoleAssistant (msg_Content reply) (msg_Tokens reply))
         \<lparr>msg_AgentName := rc_AgentName cfg,
          msg_ToolCalls := asToolCalls (en_range en turn ''asToolCalls'' (map snd (buildPending (en_fresh en turn) calls)))\<rparr>"
      "w' = snd (add_message en reply w)" "st = Some Finished"
  | (store_failed) reply calls batch err tevs e1 e2 where
      "evs = e1 # e2 # tevs @ [(event EvtRunFailed runID)\<lparr>ev_Error := error_text err\<rparr>]"
      "ev_Type e1 = EvtTurnCompleted" "ev_Type e2 = EvtToolsProposed"
      "collectApprovals ch (buildPending (en_fresh en turn) calls) = (Decided batch, ch')"
      "executeTools en cfg runID (en_range en turn ''collectDecisions'' (map snd batch)) (snd (add_message en reply w)) = (Inl err, w', tevs)"
      "st = Some Finished"
  | (denied) reply calls batch tevs e1 e2 where
      "evs = e1 # e2 # tevs @ [event EvtRunCompleted runID]"
      "ev_Type e1 = EvtTurnCompleted" "ev_Type e2 = EvtToolsProposed"
      "collectApprovals ch (buildPending (en_fresh en turn) calls) = (Decided batch, ch')"
      "executeTools en cfg runID (en_range en turn ''collectDecisions'' (map snd batch)) (snd (add_message en reply w)) = (Inr (), w', tevs)"
      "st = Some Finished"
  | (continues) reply calls batch tevs e1 e2 where "evs = e1 # e2 # tevs"
      "ev_Type e1 = EvtTurnCompleted" "ev_Type e2 = EvtToolsProposed" "calls \<noteq> []"
      "collectApprovals ch (buildPending (en_fresh en turn) calls) = (Decided batch, ch')"
      "reply = (text_message RoleAssistant (msg_Content reply) (msg_Tokens reply))
         \<lparr>msg_AgentName := rc_AgentName cfg,
          msg_ToolCalls := asToolCalls (en_range en turn ''asToolCalls'' (map snd (buildPending (en_fresh en turn) calls)))\<rparr>"
      "executeTools en cfg runID (en_range en turn ''collectDecisions'' (map snd batch)) (snd (add_message en reply w)) = (Inr (), w', tevs)"
      "st = None"
proof (cases "en_chat en turn (BuildContext (wd_window w)) (en_tools en) (rc_Sampling cfg) (rc_ProviderModel cfg) (rc_ToolRole cfg)")
  case (Inl err)
  then show thesis using assms by (intro chat_failed [of err]) (auto simp: agent_turn_def Let_def)
next
  case (Inr resp)
  define base where "base = (text_message RoleAssistant (rs_Content resp) (case rs_Usage resp of None \<Rightarrow> 0 | Some u \<Rightarrow> us_CompletionTokens u))
            \<lparr>msg_AgentName := rc_AgentName cfg\<rparr>"
  show thesis
  proof (cases "rs_ToolCalls resp = []")
    case True
    then show thesis using assms Inr
      by (intro answered [of _ _ base]) (auto simp: agent_turn_def Let_def base_def text_message_def)
  next
    case calls: False
    define reply where "reply = base\<lparr>msg_ToolCalls := asToolCalls (en_range en turn ''asToolCalls'' (map snd (buildPending (en_fresh en turn) (rs_ToolCalls resp))))\<rparr>"
    have reply: "reply = (text_message RoleAssistant (msg_Content reply) (msg_Tokens reply))
         \<lparr>msg_AgentName := rc_AgentName cfg,
          msg_ToolCalls := asToolCalls (en_range en turn ''asToolCalls'' (map snd (buildPending (en_fresh en turn) (rs_ToolCalls resp))))\<rparr>"
      by (simp add: reply_def base_def text_message_def)
    note unfolded = assms [unfolded agent_turn_def Let_def Inr sum.case if_not_P [OF calls] base_def [symmetric] reply_def [symmetric]]
    obtain col ch1 where col: "collectApprovals ch (buildPending (en_fresh en turn) (rs_ToolCalls resp)) = (col, ch1)" by force
    show thesis
    proof (cases col)
      case AwaitingCommand
      then show thesis using unfolded col by (intro waiting [of _ _ reply]) auto
    next
      case (Aborted err)
      then show thesis using unfolded col calls reply by (intro aborted [of _ _ "rs_ToolCalls resp" err reply]) auto
    next
      case (Decided batch)
      obtain r w2 tevs where ex: "executeTools en cfg runID (en_range en turn ''collectDecisions'' (map snd batch)) (snd (add_message en reply w)) = (r, w2, tevs)"
        by (metis prod_cases3)
      show thesis
      proof (cases r)
        case (Inl err)
        then show thesis using unfolded col Decided ex
          by (intro store_failed [of _ _ tevs err "rs_ToolCalls resp" batch reply]) auto
      next
        case (Inr u)
        show thesis
        proof (cases "anyWasDenied (en_range en turn ''collectDecisions'' (map snd batch))")
          case True
          then show thesis using unfolded col Decided ex Inr
            by (intro denied [of _ _ tevs "rs_ToolCalls resp" batch reply]) auto
        next
          case False
          then show thesis using unfolded col Decided ex Inr calls reply
            by (intro continues [of _ _ tevs "rs_ToolCalls resp" batch reply]) auto
        qed
      qed
    qed
  qed
qed

lemma turn_events:
  assumes "agent_turn en cfg runID turn w ch = (evs, w', ch', st)"
  shows "if st = Some Finished
    then \<exists>mid l. evs = mid @ [l] \<and> terminal l \<and> list_all (\<lambda>e. \<not> terminal e) mid
    else list_all (\<lambda>e. \<not> terminal e) evs"
  using assms
proof (cases rule: agent_turn_cases)
  case (chat_failed err)
  then show ?thesis by (auto simp: terminal_def)
next
  case (answered reply e1 e2)
  then show ?thesis by (auto simp: terminal_def intro!: exI [of _ "[e1]"])
next
  case (waiting reply e1 e2)
  then show ?thesis by (simp add: terminal_def)
next
  case (aborted reply calls err e1 e2)
  then show ?thesis by (auto simp: terminal_def intro!: exI [of _ "[e1, e2]"])
next
  case (store_failed reply calls batch err tevs e1 e2)
  then show ?thesis
    using executeTools_events(1) [OF store_failed(5)]
    by (auto simp: terminal_def list_all_iff intro!: exI [of _ "e1 # e2 # tevs"])
next
  case (denied reply calls batch tevs e1 e2)
  then show ?thesis
    using executeTools_events(1) [OF denied(5)]
    by (auto simp: terminal_def list_all_iff intro!: exI [of _ "e1 # e2 # tevs"])
next
  case (continues reply calls batch tevs e1 e2)
  then show ?thesis
    using executeTools_events(1) [OF continues(7)] by (auto simp: terminal_def list_all_iff)
qed

lemma turns_events:
  "agent_turns fuel en cfg runID turn w ch = (evs, w', st) \<Longrightarrow>
     if st = Finished
     then \<exists>mid l. evs = mid @ [l] \<and> terminal l \<and> list_all (\<lambda>e. \<not> terminal e) mid
     else list_all (\<lambda>e. \<not> terminal e) evs"
proof (induction fuel arbitrary: turn w ch evs w' st)
  case (Suc fuel)
  obtain evs1 w1 ch1 st1 where t: "agent_turn en cfg runID turn w ch = (evs1, w1, ch1, st1)" by (metis prod_cases4)
  note ev1 = turn_events [OF t]
  show ?case
  proof (cases st1)
    case (Some s)
    then show ?thesis using Suc.prems t ev1 by auto
  next
    case None
    obtain evs2 w2 st2 where r: "agent_turns fuel en cfg runID (Suc turn) w1 ch1 = (evs2, w2, st2)" by (metis prod_cases3)
    have "evs = evs1 @ evs2" "st = st2" using Suc.prems t r None by auto
    moreover have "\<exists>mid l. evs1 @ evs2 = mid @ [l] \<and> terminal l \<and> list_all (\<lambda>e. \<not> terminal e) mid" if "st2 = Finished"
    proof -
      obtain mid l where "evs2 = mid @ [l]" "terminal l" "list_all (\<lambda>e. \<not> terminal e) mid"
        using Suc.IH [OF r] \<open>st2 = Finished\<close> by auto
      then show ?thesis using ev1 None by (intro exI [of _ "evs1 @ mid"] exI [of _ l]) auto
    qed
    ultimately show ?thesis using Suc.IH [OF r] ev1 None by auto
  qed
qed simp

section \<open>Only what was approved is run\<close>

text \<open>A \<open>range\<close> over a map visits each entry once, in some order.\<close>

definition range_ok :: "env \<Rightarrow> bool" where
  "range_ok en \<longleftrightarrow> (\<forall>turn site calls. mset (en_range en turn site calls) = mset calls)"

lemma range_ok_set: "range_ok en \<Longrightarrow> set (en_range en turn site calls) = set calls"
  unfolding range_ok_def by (metis mset_eq_setD)

lemma collect_queue_suffix: "collect_queue no_more queue batch = (r, rest) \<Longrightarrow> \<exists>used. queue = used @ rest"
proof (induction no_more queue batch rule: collect_queue.induct)
  case (1 no_more queue batch)
  show ?case
  proof (cases "areAllDecided batch")
    case False
    show ?thesis
    proof (cases queue)
      case (Cons c cs)
      then show ?thesis
        using "1.prems" "1.IH" [OF False Cons] False
        by (cases "cm_Type c = CmdCancel") (auto simp: collect_queue.simps [of no_more "c # cs"])
    qed (use "1.prems" False in \<open>auto simp: collect_queue.simps [of no_more "[]"] split: if_splits\<close>)
  qed (use "1.prems" in \<open>auto simp: collect_queue.simps\<close>)
qed

lemma collectApprovals_suffix: "collectApprovals ch batch = (r, ch') \<Longrightarrow> set (ch_queue ch') \<subseteq> set (ch_queue ch)"
  using collect_queue_suffix by (fastforce simp: collectApprovals_def split: prod.splits)

lemma turn_started_approved:
  assumes "agent_turn en cfg runID turn w ch = (evs, w', ch', st)" and "range_ok en"
    and "e \<in> set evs" and "ev_Type e = EvtToolStarted"
  shows "\<exists>c \<in> set (ch_queue ch). cm_Type c = CmdApproveTool \<and> cm_CallID c = ev_CallID e"
proof -
  have run: ?thesis
    if col: "collectApprovals ch (buildPending (en_fresh en turn) calls) = (Decided batch, ch')"
      and ex: "executeTools en cfg runID (en_range en turn ''collectDecisions'' (map snd batch)) w1 = (r, w', tevs)" and e: "e \<in> set tevs"
    for calls batch w1 r tevs
  proof -
    obtain call where "call \<in> set (en_range en turn ''collectDecisions'' (map snd batch))" "ev_CallID e = pc_ID call"
      "pc_Approval call \<noteq> ApprovalDenied"
      using executeTools_events(2) [OF ex e assms(4)] by blast
    then show ?thesis using decided_granted [OF col] range_ok_set [OF assms(2)] by auto
  qed
  from assms(1) show ?thesis
  proof (cases rule: agent_turn_cases)
    case (store_failed reply calls batch err tevs e1 e2)
    then show ?thesis using run [OF store_failed(4,5)] assms(3,4) by auto
  next
    case (denied reply calls batch tevs e1 e2)
    then show ?thesis using run [OF denied(4,5)] assms(3,4) by auto
  next
    case (continues reply calls batch tevs e1 e2)
    then show ?thesis using run [OF continues(5,7)] assms(3,4) by auto
  qed (use assms(3,4) in auto)
qed

lemma turn_channel:
  assumes "agent_turn en cfg runID turn w ch = (evs, w', ch', st)"
  shows "set (ch_queue ch') \<subseteq> set (ch_queue ch)"
  using assms
  by (auto simp: agent_turn_def Let_def dest!: collectApprovals_suffix
      split: sum.splits if_splits prod.splits collected.splits)

lemma turns_started_approved:
  "agent_turns fuel en cfg runID turn w ch = (evs, w', st) \<Longrightarrow> range_ok en \<Longrightarrow> e \<in> set evs \<Longrightarrow>
     ev_Type e = EvtToolStarted \<Longrightarrow>
     \<exists>c \<in> set (ch_queue ch). cm_Type c = CmdApproveTool \<and> cm_CallID c = ev_CallID e"
proof (induction fuel arbitrary: turn w ch evs w' st)
  case (Suc fuel)
  obtain evs1 w1 ch1 st1 where t: "agent_turn en cfg runID turn w ch = (evs1, w1, ch1, st1)" by (metis prod_cases4)
  show ?case
  proof (cases "e \<in> set evs1")
    case True
    then show ?thesis using turn_started_approved [OF t Suc.prems(2)] Suc.prems(4) by blast
  next
    case False
    obtain evs2 w2 st2 where r: "agent_turns fuel en cfg runID (Suc turn) w1 ch1 = (evs2, w2, st2)" by (metis prod_cases3)
    have "e \<in> set evs2" using Suc.prems(1,3) t r False by (cases st1) auto
    then show ?thesis using Suc.IH [OF r Suc.prems(2) _ Suc.prems(4)] turn_channel [OF t] by blast
  qed
qed simp

section \<open>What a run leaves in the window\<close>

text \<open>
  A world whose session file can be written, and tools that keep it so and do not touch the
  window (the skill tool does).
\<close>

definition healthy :: "world \<Rightarrow> bool" where
  "healthy w \<longleftrightarrow> faults (wd_fs w) = [] \<and>
     is_dir (wd_fs w) (path_dir (cw_sessionFile (wd_window w))) \<and>
     lookup (wd_fs w) (cw_sessionFile (wd_window w)) \<noteq> Some DirNode"

definition quiet_tools :: "env \<Rightarrow> bool" where
  "quiet_tools en \<longleftrightarrow> (\<forall>wd name args w. healthy w \<longrightarrow>
     wd_window (snd (en_execute en wd name args w)) = wd_window w \<and> healthy (snd (en_execute en wd name args w)))"

lemma healthy_append:
  assumes "healthy w"
  obtains d where "sf_Append enc (wd_fs w) (cw_sessionFile (wd_window w)) m =
    Inr (put_node (cw_sessionFile (wd_window w)) (FileNode d) (wd_fs w))"
proof -
  have "open_write (wd_fs w) (cw_sessionFile (wd_window w)) = None"
    using assms by (simp add: healthy_def open_write_def fault_def)
  then show thesis
    using that assms
    by (cases "lookup (wd_fs w) (cw_sessionFile (wd_window w))"; cases "the (lookup (wd_fs w) (cw_sessionFile (wd_window w)))")
      (auto simp: sf_Append_def os_AppendFile_def map_error_def healthy_def)
qed

lemma healthy_add:
  assumes "healthy w"
  shows "\<exists>w'. add_message en m w = (Inr (), w') \<and> healthy w' \<and>
    wd_window w' = (wd_window w)\<lparr>cw_memory := cw_memory (wd_window w) @ [m]\<rparr>"
proof -
  obtain d where d: "sf_Append (en_enc en) (wd_fs w) (cw_sessionFile (wd_window w)) m =
      Inr (put_node (cw_sessionFile (wd_window w)) (FileNode d) (wd_fs w))"
    using healthy_append [OF assms] .
  have dir: "is_dir (put_node (cw_sessionFile (wd_window w)) (FileNode d) (wd_fs w)) (path_dir (cw_sessionFile (wd_window w)))"
    using assms is_dir_put by (simp add: healthy_def)
  show ?thesis
    using assms d dir by (simp add: add_message_def AddMessage_def) (simp add: healthy_def)
qed

text \<open>Each call is answered by one tool message, in the order of execution.\<close>

definition answers :: "pendingCall \<Rightarrow> Message \<Rightarrow> bool" where
  "answers call m \<longleftrightarrow> msg_Role m = RoleTool \<and>
     (\<exists>r. msg_ToolResult m = Some r \<and> tr_CallID r = pc_ID call \<and> tr_Name r = pc_Name call \<and> msg_Content m = tr_Output r \<and>
       (pc_Approval call = ApprovalDenied \<longrightarrow> tr_IsError r \<and>
          tr_Output r = ''denied: '' @ (if pc_Reason call = [] then ''user denied'' else pc_Reason call)))"

lemma sprintf_denied: "error_text (Errorf ''denied: %s'' [AStr s]) = ''denied: '' @ s"
  by simp

lemma answers_result:
  "executeToolCall en cfg runID call w = (out, w', evs) \<Longrightarrow> answers call (tool_message en (tool_result call out))"
  by (auto simp: answers_def tool_message_def tool_result_def executeToolCall_def Let_def sprintf_denied
      simp del: error_text.simps arg_text.simps split: sum.splits if_splits prod.splits)

lemma execute_each_answers:
  assumes "healthy w" and "quiet_tools en"
  shows "\<exists>w' evs ms. execute_each en cfg runID calls w = (Inr (), w', evs) \<and> healthy w' \<and> list_all2 answers calls ms \<and>
    wd_window w' = (wd_window w)\<lparr>cw_memory := cw_memory (wd_window w) @ ms\<rparr>"
  using assms(1)
proof (induction calls arbitrary: w)
  case (Cons call calls)
  obtain out w1 evs1 where c: "executeToolCall en cfg runID call w = (out, w1, evs1)" by (metis prod_cases3)
  have w1: "wd_window w1 = wd_window w" "healthy w1"
    using c Cons.prems assms(2) unfolding quiet_tools_def executeToolCall_def Let_def
    by (auto split: if_splits prod.splits) (metis snd_conv)+
  let ?m = "tool_message en (tool_result call out)"
  obtain w2 where w2: "add_message en ?m w1 = (Inr (), w2)" "healthy w2"
    "wd_window w2 = (wd_window w1)\<lparr>cw_memory := cw_memory (wd_window w1) @ [?m]\<rparr>"
    using healthy_add [OF w1(2)] by blast
  obtain w3 evs3 ms where w3: "execute_each en cfg runID calls w2 = (Inr (), w3, evs3)" "healthy w3"
    "list_all2 answers calls ms" "wd_window w3 = (wd_window w2)\<lparr>cw_memory := cw_memory (wd_window w2) @ ms\<rparr>"
    using Cons.IH [OF w2(2)] by blast
  show ?case
    using c w1 w2 w3 answers_result [OF c] by (intro exI [of _ w3] exI [of _ "evs1 @ evs3"] exI [of _ "?m # ms"]) simp
qed simp

lemma executeTools_answers:
  assumes "executeTools en cfg runID calls w = (r, w', evs)" and "healthy w" and "quiet_tools en"
  shows "\<exists>ms. r = Inr () \<and> healthy w' \<and> list_all2 answers calls ms \<and>
    wd_window w' = (wd_window w)\<lparr>cw_memory := cw_memory (wd_window w) @ ms\<rparr>"
  using execute_each_answers [OF assms(2,3), of cfg runID calls] assms(1)
  by (auto simp: executeTools_def)

section \<open>The contexts of a run\<close>

text \<open>The states in which the loop asks the model, from the one after the start on.\<close>

inductive asks :: "env \<Rightarrow> RunConfig \<Rightarrow> string \<Rightarrow> world \<Rightarrow> channel \<Rightarrow> nat \<Rightarrow> world \<Rightarrow> channel \<Rightarrow> bool"
  for en cfg runID w0 ch0 where
  asks_start: "asks en cfg runID w0 ch0 0 w0 ch0"
| asks_next: "asks en cfg runID w0 ch0 turn w ch \<Longrightarrow> agent_turn en cfg runID turn w ch = (evs, w', ch', None) \<Longrightarrow>
    asks en cfg runID w0 ch0 (Suc turn) w' ch'"

inductive_cases asks_SucE: "asks en cfg runID w0 ch0 (Suc turn) w ch"

definition context_in_order :: "world \<Rightarrow> bool" where
  "context_in_order w \<longleftrightarrow> results_answer (BuildContext (wd_window w)) \<and>
     list_all (\<lambda>m. msg_Role m \<noteq> []) (cw_history (wd_window w) @ cw_memory (wd_window w))"

lemma chain_append:
  "chain R (xs @ ys) \<longleftrightarrow> chain R xs \<and> chain R ys \<and> (xs \<noteq> [] \<and> ys \<noteq> [] \<longrightarrow> R (last xs) (hd ys))"
proof (induction xs)
  case (Cons x xs)
  then show ?case by (cases xs; cases ys) auto
qed simp

lemma results_answer_calls:
  assumes "results_answer ms" and "is_calling m" and "\<not> is_result m" and "list_all is_result rs"
  shows "results_answer (ms @ m # rs)"
proof -
  have "results_answer (m # rs)" using assms(2,4)
  proof (induction rs arbitrary: m rule: rev_induct)
    case (snoc r rs)
    then have "results_answer (m # rs)" by simp
    moreover have "is_calling (last (m # rs)) \<or> is_result (last (m # rs))"
      using snoc.prems by (cases rs rule: rev_cases) auto
    ultimately show ?case
      unfolding results_answer_def using chain_append [of _ "m # rs" "[r]"] by simp
  qed (simp add: results_answer_def)
  then show ?thesis using assms(1,3) by (simp add: results_answer_def chain_append)
qed

lemma answers_result_role: "list_all2 answers calls ms \<Longrightarrow> list_all (\<lambda>m. is_result m \<and> msg_Role m \<noteq> []) ms"
  by (induction rule: list_all2_induct) (auto simp: answers_def is_result_def)

lemma turn_keeps_order:
  assumes "agent_turn en cfg runID turn w ch = (evs, w', ch', None)" and "healthy w" and "quiet_tools en" and "range_ok en"
    and "context_in_order w"
  shows "healthy w' \<and> context_in_order w'"
  using assms(1)
proof (cases rule: agent_turn_cases)
  case (continues reply calls batch tevs e1 e2)
  let ?pending = "map snd (buildPending (en_fresh en turn) calls)"
  obtain w1 where w1: "add_message en reply w = (Inr (), w1)" "healthy w1"
    "wd_window w1 = (wd_window w)\<lparr>cw_memory := cw_memory (wd_window w) @ [reply]\<rparr>"
    using healthy_add [OF assms(2)] by blast
  obtain ms where ms: "healthy w'" "list_all2 answers (en_range en turn ''collectDecisions'' (map snd batch)) ms"
    "wd_window w' = (wd_window w1)\<lparr>cw_memory := cw_memory (wd_window w1) @ ms\<rparr>"
    using executeTools_answers [OF continues(7)] w1 assms(3) by auto
  have "set (en_range en turn ''asToolCalls'' ?pending) \<noteq> {}"
    using range_ok_set [OF assms(4)] buildPending_nonempty [OF continues(4)] by simp
  then have "is_calling reply" "\<not> is_result reply" "msg_Role reply \<noteq> []"
    by (subst continues(6); simp add: is_calling_def is_result_def asToolCalls_def)+
  moreover have "list_all is_result ms" "list_all (\<lambda>m. msg_Role m \<noteq> []) ms"
    using answers_result_role [OF ms(2)] by (simp_all add: list_all_iff)
  moreover have "BuildContext (wd_window w') = BuildContext (wd_window w) @ reply # ms"
    by (simp add: BuildContext_def ms(3) w1(3))
  ultimately show ?thesis
    using assms(5) ms(1,3) w1(3) results_answer_calls by (simp add: context_in_order_def)
qed simp_all

lemma asks_in_order:
  "asks en cfg runID w0 ch0 turn w ch \<Longrightarrow> healthy w0 \<Longrightarrow> quiet_tools en \<Longrightarrow> range_ok en \<Longrightarrow> context_in_order w0 \<Longrightarrow>
     healthy w \<and> context_in_order w"
  by (induction rule: asks.induct) (auto dest: turn_keeps_order)

lemma start_in_order:
  assumes "healthy w" and "StartRun (en_dec en) (wd_fs w) (start_params en cfg prompt (wd_window w)) (wd_window w) = (Inr (), cw)"
    and "results_answer (text_message RoleSystem [] 0 # cw_history cw)" and "list_all (\<lambda>m. msg_Role m \<noteq> []) (cw_history cw)"
  shows "healthy (run_start en cfg prompt w) \<and> context_in_order (run_start en cfg prompt w)"
proof -
  let ?w1 = "w\<lparr>wd_window := cw\<rparr>"
  have cw: "cw_memory cw = []" "cw_sessionFile cw = cw_sessionFile (wd_window w)"
    using assms(2) by (auto simp: StartRun_Inr)
  have h1: "healthy ?w1" using assms(1) cw by (simp add: healthy_def)
  have sys: "results_answer (text_message RoleSystem c 0 # ms) \<longleftrightarrow> results_answer (text_message RoleSystem [] 0 # ms)" for c ms
    by (cases ms) (simp_all add: results_answer_def is_calling_def is_result_def)
  obtain w2 where w2: "add_message en (text_message RoleUser prompt (en_count en prompt)) ?w1 = (Inr (), w2)" "healthy w2"
    "wd_window w2 = cw\<lparr>cw_memory := [text_message RoleUser prompt (en_count en prompt)]\<rparr>"
    using healthy_add [OF h1, of en "text_message RoleUser prompt (en_count en prompt)"] cw(1) by auto
  have "results_answer ((text_message RoleSystem c 0 # cw_history cw) @ [text_message RoleUser prompt n])" for c n
    unfolding results_answer_def using assms(3) sys [of c "cw_history cw"]
    by (subst chain_append) (simp add: results_answer_def is_result_def)
  then show ?thesis
    using assms(2,3,4) cw(1) h1 w2 sys
    by (auto simp: run_start_def Let_def context_in_order_def BuildContext_def)
qed

lemma turns_return:
  "(\<And>ctx. case en_chat en (turn + n) ctx (en_tools en) (rc_Sampling cfg) (rc_ProviderModel cfg) (rc_ToolRole cfg) of
      Inl err \<Rightarrow> True | Inr r \<Rightarrow> rs_ToolCalls r = []) \<Longrightarrow>
     snd (snd (agent_turns (Suc n) en cfg runID turn w ch)) \<noteq> OutOfTurns"
proof (induction n arbitrary: turn w ch)
  case 0
  obtain evs w' ch' st where t: "agent_turn en cfg runID turn w ch = (evs, w', ch', st)" by (metis prod_cases4)
  have "st \<noteq> None"
    using t "0" [of "BuildContext (wd_window w)"] by (auto simp: agent_turn_def Let_def split: sum.splits)
  then show ?case
    using t by (auto simp: agent_turn_def Let_def split: sum.splits if_splits prod.splits collected.splits)
next
  case (Suc n)
  obtain evs w' ch' st where t: "agent_turn en cfg runID turn w ch = (evs, w', ch', st)" by (metis prod_cases4)
  show ?case
  proof (cases st)
    case None
    obtain a b c where r: "agent_turns (Suc n) en cfg runID (Suc turn) w' ch' = (a, b, c)" by (metis prod_cases3)
    have "snd (snd (agent_turns (Suc n) en cfg runID (Suc turn) w' ch')) \<noteq> OutOfTurns"
      by (rule Suc.IH) (use Suc.prems in simp)
    then show ?thesis using t None r by (simp del: agent_turns.simps add: agent_turns.simps(2) [of "Suc n"])
  next
    case (Some s)
    then have "s \<noteq> OutOfTurns"
      using t by (auto simp: agent_turn_def Let_def split: sum.splits if_splits prod.splits collected.splits)
    then show ?thesis using t Some by (simp del: agent_turns.simps add: agent_turns.simps(2) [of "Suc n"])
  qed
qed

section \<open>Properties\<close>

text \<open>
  C11: a run that ends emits one terminal event (completed, cancelled or failed) and emits it last;
  a run that waits for a command or goes on has emitted none; the first event is always the start.
\<close>

theorem run_event_trace:
  assumes "agent_run fuel en cfg runID prompt w ch = (evs, w', st)"
  shows "hd evs = event EvtRunStarted runID \<and>
    (if st = Finished
     then \<exists>mid l. evs = mid @ [l] \<and> terminal l \<and> list_all (\<lambda>e. \<not> terminal e) mid
     else list_all (\<lambda>e. \<not> terminal e) evs)"
proof -
  obtain evs1 w1 where t: "agent_turns fuel en cfg runID 0 (run_start en cfg prompt w) ch = (evs1, w1, st)"
    and evs: "evs = event EvtRunStarted runID # evs1"
    using assms by (auto simp: agent_run_def split: prod.splits)
  have "\<not> terminal (event EvtRunStarted runID)" by (simp add: terminal_def)
  moreover have "\<exists>mid l. evs = mid @ [l] \<and> terminal l \<and> list_all (\<lambda>e. \<not> terminal e) mid" if fin: "st = Finished"
  proof -
    obtain mid l where "evs1 = mid @ [l]" "terminal l" "list_all (\<lambda>e. \<not> terminal e) mid"
      using turns_events [OF t] fin by auto
    then show ?thesis using evs calculation by (intro exI [of _ "event EvtRunStarted runID # mid"] exI [of _ l]) simp
  qed
  ultimately show ?thesis using turns_events [OF t] evs by auto
qed

text \<open>
  C3: no tool is ever run that the client has not approved: every start of an execution in the
  events of a run is matched by an approval command for that very call.
\<close>

theorem run_only_approved:
  assumes "agent_run fuel en cfg runID prompt w ch = (evs, w', st)" and "range_ok en"
    and "e \<in> set evs" and "ev_Type e = EvtToolStarted"
  shows "\<exists>c \<in> set (ch_queue ch). cm_Type c = CmdApproveTool \<and> cm_CallID c = ev_CallID e"
proof -
  obtain evs1 w1 where t: "agent_turns fuel en cfg runID 0 (run_start en cfg prompt w) ch = (evs1, w1, st)"
    and evs: "evs = event EvtRunStarted runID # evs1"
    using assms(1) by (auto simp: agent_run_def split: prod.splits)
  then have "e \<in> set evs1" using assms(3,4) by auto
  then show ?thesis using turns_started_approved [OF t assms(2) _ assms(4)] by blast
qed



text \<open>
  C21: a run returns: if the model, in some turn, answers without tool calls or fails, then the
  loop has stopped by then or waits for a command of the client; that many turns are enough.
\<close>

theorem run_returns:
  assumes "\<And>ctx. case en_chat en n ctx (en_tools en) (rc_Sampling cfg) (rc_ProviderModel cfg) (rc_ToolRole cfg) of
      Inl err \<Rightarrow> True | Inr r \<Rightarrow> rs_ToolCalls r = []"
  shows "snd (snd (agent_run (Suc n) en cfg runID prompt w ch)) \<noteq> OutOfTurns"
proof -
  obtain a b c where r: "agent_turns (Suc n) en cfg runID 0 (run_start en cfg prompt w) ch = (a, b, c)" by (metis prod_cases3)
  then show ?thesis
    using turns_return [of en 0 n cfg runID "run_start en cfg prompt w" ch] assms
    by (simp del: agent_turns.simps add: agent_run_def)
qed

text \<open>
  A run that is cancelled while its tool calls await approval leaves the assistant message with
  the calls as the last message, in the window and so on file, and no result for any of them.
\<close>

theorem cancelled_calls_unanswered:
  assumes "agent_turn en cfg runID turn w ch = (evs, w', ch', st)" and "ev_Type (last evs) = EvtRunCancelled"
    and "healthy w" and "range_ok en"
  shows "\<exists>m. is_calling m \<and> BuildContext (wd_window w') = BuildContext (wd_window w) @ [m]"
  using assms(1)
proof (cases rule: agent_turn_cases)
  case (aborted reply calls err e1 e2)
  obtain w1 where w1: "add_message en reply w = (Inr (), w1)"
    "wd_window w1 = (wd_window w)\<lparr>cw_memory := cw_memory (wd_window w) @ [reply]\<rparr>"
    using healthy_add [OF assms(3)] by blast
  have "set (en_range en turn ''asToolCalls'' (map snd (buildPending (en_fresh en turn) calls))) \<noteq> {}"
    using range_ok_set [OF assms(4)] buildPending_nonempty [OF aborted(4)] by simp
  then have "is_calling reply" by (subst aborted(6)) (simp add: is_calling_def asToolCalls_def)
  then show ?thesis using aborted(7) w1 by (intro exI [of _ reply]) (simp add: BuildContext_def)
next
  case (continues reply calls batch tevs e1 e2)
  have "\<not> terminal e" if "e \<in> set evs" for e
    using that continues(1,2,3) executeTools_events(1) [OF continues(7)] by (auto simp: terminal_def)
  then have False using assms(2) continues(1) by (auto simp: terminal_def dest!: meta_spec [of _ "last evs"])
  then show ?thesis ..
qed (use assms(2) in auto)

section \<open>A run to check the statements on\<close>

text \<open>The model asks for two tools, then answers; the client denies one call or approves both.\<close>

definition sample_env :: env where
  "sample_env =
     \<lparr>en_chat = (\<lambda>turn ctx tools sampling model toolRole.
        if turn = 0
        then Inr (empty_response\<lparr>rs_ToolCalls := sample_calls\<rparr>)
        else Inr (empty_response\<lparr>rs_Content := ''done''\<rparr>)),
      en_count = (\<lambda>s. int (length s)), en_tools = [], en_tools_text = [],
      en_execute = (\<lambda>wd name args w. (Inr name, w)), en_preview = (\<lambda>wd name args w. Inr []),
      en_range = (\<lambda>turn site calls. rev calls), en_fresh = (\<lambda>turn i. ''x''), en_marshal = (\<lambda>_. []),
      en_enc = brace_enc, en_dec = brace_dec\<rparr>"

definition sample_cfg :: RunConfig where
  "sample_cfg = \<lparr>rc_AgentName = ''coder'', rc_ContextSize = 100, rc_Sampling = None, rc_ProviderModel = [],
                 rc_WorkingDir = [], rc_ToolRole = True\<rparr>"

definition sample_world :: world where
  "sample_world = \<lparr>wd_window = NewWindow ''/s/a.jsonl'', wd_fs = empty_session_fs\<rparr>"

definition approve_both :: channel where
  "approve_both =
     \<lparr>ch_queue = [\<lparr>cm_Type = CmdApproveTool, cm_CallID = ''b'', cm_Reason = []\<rparr>,
                  \<lparr>cm_Type = CmdApproveTool, cm_CallID = ''a'', cm_Reason = []\<rparr>], ch_closed = False\<rparr>"

definition cancelling :: channel where
  "cancelling = \<lparr>ch_queue = [\<lparr>cm_Type = CmdCancel, cm_CallID = [], cm_Reason = []\<rparr>], ch_closed = False\<rparr>"

lemma sample_env_ok: "range_ok sample_env" "quiet_tools sample_env" "healthy sample_world"
proof -
  show "range_ok sample_env" by (simp add: range_ok_def sample_env_def)
  show "quiet_tools sample_env" by (simp add: quiet_tools_def sample_env_def)
  have "path_dir ''/s/a.jsonl'' = ''/s''" by code_simp
  then show "healthy sample_world"
    by (simp add: healthy_def sample_world_def NewWindow_def empty_session_fs_def is_dir_def lookup_def)
qed

abbreviation sample_run :: "Event list \<times> world \<times> run_status" where
  "sample_run \<equiv> agent_run 5 sample_env sample_cfg ''r'' ''hi'' sample_world approve_both"

lemma sample_run_events:
  "map ev_Type (fst sample_run) =
     [EvtRunStarted, EvtTurnCompleted, EvtToolsProposed, EvtToolStarted, EvtToolCompleted, EvtToolStarted,
      EvtToolCompleted, EvtToolsCompleted, EvtTurnCompleted, EvtRunCompleted]"
  "map ev_CallID (filter (\<lambda>e. ev_Type e = EvtToolStarted) (fst sample_run)) = [''b'', ''a'']"
  "snd (snd sample_run) = Finished"
  by code_simp+

theorem run_event_trace_witness:
  "\<exists>mid l. fst sample_run = mid @ [l] \<and> terminal l \<and> list_all (\<lambda>e. \<not> terminal e) mid \<and> length mid = 9"
proof -
  obtain evs w' where r: "sample_run = (evs, w', Finished)"
    using sample_run_events(3) by (metis prod.collapse)
  then obtain mid l where "evs = mid @ [l]" "terminal l" "list_all (\<lambda>e. \<not> terminal e) mid"
    using run_event_trace [OF r] by auto
  moreover have "length evs = 10" using arg_cong [OF sample_run_events(1), of length] r by simp
  ultimately show ?thesis using r by auto
qed

theorem run_only_approved_witness:
  "\<exists>e \<in> set (fst sample_run). ev_Type e = EvtToolStarted \<and>
     (\<exists>c \<in> set (ch_queue approve_both). cm_Type c = CmdApproveTool \<and> cm_CallID c = ev_CallID e)"
proof -
  obtain evs w' st where r: "sample_run = (evs, w', st)" by (metis prod_cases3)
  have "EvtToolStarted \<in> set (map ev_Type evs)" using sample_run_events(1) r by simp
  then obtain e where e: "e \<in> set evs" "ev_Type e = EvtToolStarted" by auto
  then show ?thesis using run_only_approved [OF r sample_env_ok(1) e] r by auto
qed



theorem run_returns_witness:
  "snd (snd (agent_run 2 sample_env sample_cfg ''r'' ''hi'' sample_world approve_both)) \<noteq> OutOfTurns"
  using run_returns [of sample_env 1 sample_cfg "''r''" "''hi''" sample_world approve_both]
  by (simp add: sample_env_def empty_response_def numeral_2_eq_2)

theorem cancelled_calls_unanswered_witness:
  "\<exists>m. is_calling m \<and>
     BuildContext (wd_window (fst (snd (agent_turn sample_env sample_cfg ''r'' 0 sample_world cancelling)))) =
       [text_message RoleSystem [] 0, m]"
proof -
  let ?t = "agent_turn sample_env sample_cfg ''r'' 0 sample_world cancelling"
  have "ev_Type (last (fst ?t)) = EvtRunCancelled" by code_simp
  moreover obtain evs w' ch' st where t: "?t = (evs, w', ch', st)" by (metis prod_cases4)
  ultimately obtain m where "is_calling m" "BuildContext (wd_window w') = BuildContext (wd_window sample_world) @ [m]"
    using cancelled_calls_unanswered [OF t _ sample_env_ok(3,1)] by auto
  moreover have "BuildContext (wd_window sample_world) = [text_message RoleSystem [] 0]"
    by (simp add: BuildContext_def sample_world_def NewWindow_def)
  ultimately show ?thesis using t by auto
qed

end
