(* ===== verification/ProtocolTypes.thy ===== *)
theory ProtocolTypes
  imports CoreTypes "HOL-Library.Word"
begin

text \<open>
  internal/protocol/types: the values of the agent client protocol, and how \<open>encoding/json\<close> turns
  them into JSON values and back. Decoding into a struct visits the members of the object in
  order, finds a field by its name without regard to the case of ASCII letters, leaves fields
  alone that are absent or (for a plain field) null, ignores unknown members, and reports the
  first member of a wrong type. A number is the rational it denotes, so that \<open>1.0\<close>, which Go
  refuses for an integer field, is read as 1.
\<close>

section \<open>Decoding\<close>

fun json_kind :: "json \<Rightarrow> string" where
  "json_kind JNull = ''null''"
| "json_kind (JBool _) = ''bool''"
| "json_kind (JNum _) = ''number''"
| "json_kind (JStr _) = ''string''"
| "json_kind (JArr _) = ''array''"
| "json_kind (JObj _) = ''object''"

definition type_error :: "json \<Rightarrow> string \<Rightarrow> go_error" where
  "type_error v t = Errorf ''json: cannot unmarshal %s into Go value of type %s'' [AStr (json_kind v), AStr t]"

fun dec_string :: "string \<Rightarrow> json \<Rightarrow> string result" where
  "dec_string old (JStr s) = Inr s"
| "dec_string old JNull = Inr old"
| "dec_string old v = Inl (type_error v ''string'')"

fun dec_bool :: "bool \<Rightarrow> json \<Rightarrow> bool result" where
  "dec_bool old (JBool b) = Inr b"
| "dec_bool old JNull = Inr old"
| "dec_bool old v = Inl (type_error v ''bool'')"

fun dec_int :: "int \<Rightarrow> json \<Rightarrow> int result" where
  "dec_int old (JNum q) =
     (if of_int \<lfloor>q\<rfloor> = q \<and> - (2 ^ 63) \<le> \<lfloor>q\<rfloor> \<and> \<lfloor>q\<rfloor> < 2 ^ 63 then Inr \<lfloor>q\<rfloor> else Inl (type_error (JNum q) ''int''))"
| "dec_int old JNull = Inr old"
| "dec_int old v = Inl (type_error v ''int'')"

fun dec_uint32 :: "32 word \<Rightarrow> json \<Rightarrow> 32 word result" where
  "dec_uint32 old (JNum q) =
     (if of_int \<lfloor>q\<rfloor> = q \<and> 0 \<le> \<lfloor>q\<rfloor> \<and> \<lfloor>q\<rfloor> < 2 ^ 32 then Inr (word_of_int \<lfloor>q\<rfloor>) else Inl (type_error (JNum q) ''uint32''))"
| "dec_uint32 old JNull = Inr old"
| "dec_uint32 old v = Inl (type_error v ''uint32'')"

text \<open>A pointer field: null makes it nil, another value is decoded into the object it points to.\<close>

definition dec_ptr :: "('a \<Rightarrow> json \<Rightarrow> 'a result) \<Rightarrow> 'a \<Rightarrow> 'a option \<Rightarrow> json \<Rightarrow> 'a option result" where
  "dec_ptr d zero old v =
     (if v = JNull then Inr None
      else result_bind (d (case old of None \<Rightarrow> zero | Some x \<Rightarrow> x) v) (\<lambda>x. Inr (Some x)))"

fun dec_elements :: "('a \<Rightarrow> json \<Rightarrow> 'a result) \<Rightarrow> 'a \<Rightarrow> json list \<Rightarrow> 'a list result" where
  "dec_elements d zero [] = Inr []"
| "dec_elements d zero (v # vs) = result_bind (d zero v) (\<lambda>x. result_bind (dec_elements d zero vs) (\<lambda>xs. Inr (x # xs)))"

definition dec_slice :: "('a \<Rightarrow> json \<Rightarrow> 'a result) \<Rightarrow> 'a \<Rightarrow> 'a list \<Rightarrow> json \<Rightarrow> 'a list result" where
  "dec_slice d zero old v =
     (case v of JArr vs \<Rightarrow> dec_elements d zero vs | JNull \<Rightarrow> Inr [] | _ \<Rightarrow> Inl (type_error v ''slice''))"

text \<open>A map: of members with the same name the last one wins, so it comes first for \<open>map_of\<close>.\<close>

fun dec_map :: "json_object option \<Rightarrow> json \<Rightarrow> json_object option result" where
  "dec_map old (JObj kvs) = Inr (Some (rev kvs @ (case old of None \<Rightarrow> [] | Some m \<Rightarrow> m)))"
| "dec_map old JNull = Inr None"
| "dec_map old v = Inl (type_error v ''map[string]interface {}'')"

text \<open>A field of type \<open>any\<close> or \<open>json.RawMessage\<close> takes the value as it is.\<close>

definition dec_any :: "json \<Rightarrow> json \<Rightarrow> json result" where
  "dec_any old v = Inr v"

text \<open>
  A struct: each member is offered to the field of its name. A field is a name and the update of
  the struct that decodes a value into it.
\<close>

type_synonym 'r field = "string \<times> ('r \<Rightarrow> json \<Rightarrow> 'r result)"

definition set_field :: "(('a \<Rightarrow> 'a) \<Rightarrow> 'r \<Rightarrow> 'r) \<Rightarrow> ('r \<Rightarrow> 'a) \<Rightarrow> ('a \<Rightarrow> json \<Rightarrow> 'a result) \<Rightarrow> 'r \<Rightarrow> json \<Rightarrow> 'r result" where
  "set_field upd sel d r v = result_bind (d (sel r) v) (\<lambda>x. Inr (upd (\<lambda>_. x) r))"

fun dec_members :: "'r field list \<Rightarrow> 'r \<Rightarrow> json_object \<Rightarrow> 'r result" where
  "dec_members fds r [] = Inr r"
| "dec_members fds r ((k, v) # kvs) =
     (case find (\<lambda>(n, _). to_upper n = to_upper k) fds of
        None \<Rightarrow> dec_members fds r kvs
      | Some (_, d) \<Rightarrow> result_bind (d r v) (\<lambda>r'. dec_members fds r' kvs))"

definition dec_struct :: "string \<Rightarrow> 'r field list \<Rightarrow> 'r \<Rightarrow> json \<Rightarrow> 'r result" where
  "dec_struct t fds r v =
     (case v of JObj kvs \<Rightarrow> dec_members fds r kvs | JNull \<Rightarrow> Inr r | _ \<Rightarrow> Inl (type_error v t))"

text \<open>\<open>json.Unmarshal\<close> of a raw message; no text at all (a nil message) is a syntax error.\<close>

definition unmarshal :: "('r \<Rightarrow> json \<Rightarrow> 'r result) \<Rightarrow> 'r \<Rightarrow> json option \<Rightarrow> 'r result" where
  "unmarshal d zero raw =
     (case raw of None \<Rightarrow> Inl (Errorf ''unexpected end of JSON input'' []) | Some v \<Rightarrow> d zero v)"

section \<open>Encoding\<close>

text \<open>Members of a struct in the order of its fields; a member with \<open>omitempty\<close> is left out when it is empty.\<close>

definition omit_str :: "string \<Rightarrow> string \<Rightarrow> json_object" where
  "omit_str k s = (if s = [] then [] else [(k, JStr s)])"

definition omit_none :: "string \<Rightarrow> ('a \<Rightarrow> json) \<Rightarrow> 'a option \<Rightarrow> json_object" where
  "omit_none k enc v = (case v of None \<Rightarrow> [] | Some x \<Rightarrow> [(k, enc x)])"

definition JInt :: "int \<Rightarrow> json" where
  "JInt i = JNum (of_int i)"

definition JUint :: "32 word \<Rightarrow> json" where
  "JUint w = JInt (uint w)"

section \<open>Capabilities\<close>

record FileSystemCapability =
  fc_ReadTextFile :: bool
  fc_WriteTextFile :: bool

record ClientCapabilities =
  cc_Fs :: "FileSystemCapability option"
  cc_Terminal :: bool

definition no_fs :: FileSystemCapability where
  "no_fs = \<lparr>fc_ReadTextFile = False, fc_WriteTextFile = False\<rparr>"

definition no_caps :: ClientCapabilities where
  "no_caps = \<lparr>cc_Fs = None, cc_Terminal = False\<rparr>"

definition dec_FileSystemCapability :: "FileSystemCapability \<Rightarrow> json \<Rightarrow> FileSystemCapability result" where
  "dec_FileSystemCapability = dec_struct ''types.FileSystemCapability''
     [(''readTextFile'', set_field fc_ReadTextFile_update fc_ReadTextFile dec_bool),
      (''writeTextFile'', set_field fc_WriteTextFile_update fc_WriteTextFile dec_bool)]"

definition dec_ClientCapabilities :: "ClientCapabilities \<Rightarrow> json \<Rightarrow> ClientCapabilities result" where
  "dec_ClientCapabilities = dec_struct ''types.ClientCapabilities''
     [(''fs'', set_field cc_Fs_update cc_Fs (dec_ptr dec_FileSystemCapability no_fs)),
      (''terminal'', set_field cc_Terminal_update cc_Terminal dec_bool)]"

text \<open>The request of the handshake; its \<open>clientInfo\<close> is decoded and never read, here only checked to be an object.\<close>

record InitializeRequest =
  ir_ProtocolVersion :: int
  ir_ClientCapabilities :: ClientCapabilities

definition dec_InitializeRequest :: "InitializeRequest \<Rightarrow> json \<Rightarrow> InitializeRequest result" where
  "dec_InitializeRequest = dec_struct ''types.InitializeRequest''
     [(''protocolVersion'', set_field ir_ProtocolVersion_update ir_ProtocolVersion dec_int),
      (''clientCapabilities'', set_field ir_ClientCapabilities_update ir_ClientCapabilities dec_ClientCapabilities),
      (''clientInfo'', \<lambda>r v. result_bind (dec_struct ''types.Implementation'' [] () v) (\<lambda>_. Inr r))]"

definition ProtocolVersion :: int where
  "ProtocolVersion = 1"

section \<open>Sessions and prompts\<close>

record NewSessionRequest =
  ns_Cwd :: string
  ns_Meta :: "json_object option"

definition dec_mcpServers :: "json \<Rightarrow> unit list result" where
  "dec_mcpServers = dec_slice (dec_struct ''types.McpServer'' []) () []"

definition dec_NewSessionRequest :: "NewSessionRequest \<Rightarrow> json \<Rightarrow> NewSessionRequest result" where
  "dec_NewSessionRequest = dec_struct ''types.NewSessionRequest''
     [(''cwd'', set_field ns_Cwd_update ns_Cwd dec_string),
      (''mcpServers'', \<lambda>r v. result_bind (dec_mcpServers v) (\<lambda>_. Inr r)),
      (''_meta'', set_field ns_Meta_update ns_Meta dec_map)]"

record LoadSessionRequest =
  ls_SessionID :: string
  ls_Cwd :: string

definition dec_LoadSessionRequest :: "LoadSessionRequest \<Rightarrow> json \<Rightarrow> LoadSessionRequest result" where
  "dec_LoadSessionRequest = dec_struct ''types.LoadSessionRequest''
     [(''sessionId'', set_field ls_SessionID_update ls_SessionID dec_string),
      (''cwd'', set_field ls_Cwd_update ls_Cwd dec_string),
      (''mcpServers'', \<lambda>r v. result_bind (dec_mcpServers v) (\<lambda>_. Inr r))]"

record ContentBlock =
  cb_Type :: string
  cb_Text :: string

definition dec_ContentBlock :: "ContentBlock \<Rightarrow> json \<Rightarrow> ContentBlock result" where
  "dec_ContentBlock = dec_struct ''types.ContentBlock''
     [(''type'', set_field cb_Type_update cb_Type dec_string),
      (''text'', set_field cb_Text_update cb_Text dec_string)]"

definition TextBlock :: "string \<Rightarrow> ContentBlock" where
  "TextBlock t = \<lparr>cb_Type = ''text'', cb_Text = t\<rparr>"

definition enc_ContentBlock :: "ContentBlock \<Rightarrow> json" where
  "enc_ContentBlock b = JObj ((''type'', JStr (cb_Type b)) # omit_str ''text'' (cb_Text b))"

record PromptRequest =
  pr_SessionID :: string
  pr_Prompt :: "ContentBlock list"

definition dec_PromptRequest :: "PromptRequest \<Rightarrow> json \<Rightarrow> PromptRequest result" where
  "dec_PromptRequest = dec_struct ''types.PromptRequest''
     [(''sessionId'', set_field pr_SessionID_update pr_SessionID dec_string),
      (''prompt'', set_field pr_Prompt_update pr_Prompt (dec_slice dec_ContentBlock \<lparr>cb_Type = [], cb_Text = []\<rparr>))]"

definition dec_CancelNotification :: "string \<Rightarrow> json \<Rightarrow> string result" where
  "dec_CancelNotification = dec_struct ''types.CancelNotification'' [(''sessionId'', dec_string)]"

abbreviation StopReasonEndTurn :: string where "StopReasonEndTurn \<equiv> ''end_turn''"
abbreviation StopReasonCancelled :: string where "StopReasonCancelled \<equiv> ''cancelled''"

section \<open>Permissions\<close>

record PermissionOption =
  po_OptionID :: string
  po_Name :: string
  po_Kind :: string

definition IsAllow :: "string \<Rightarrow> bool" where
  "IsAllow k \<longleftrightarrow> k = ''allow_once'' \<or> k = ''allow_always''"

record PermissionOutcome =
  pm_Outcome :: string
  pm_OptionID :: string

definition PermissionSelected :: "string \<Rightarrow> PermissionOutcome" where
  "PermissionSelected optionID = \<lparr>pm_Outcome = ''selected'', pm_OptionID = optionID\<rparr>"

definition PermissionCancelled :: PermissionOutcome where
  "PermissionCancelled = \<lparr>pm_Outcome = ''cancelled'', pm_OptionID = []\<rparr>"

definition no_outcome :: PermissionOutcome where
  "no_outcome = \<lparr>pm_Outcome = [], pm_OptionID = []\<rparr>"

definition dec_PermissionOutcome :: "PermissionOutcome \<Rightarrow> json \<Rightarrow> PermissionOutcome result" where
  "dec_PermissionOutcome = dec_struct ''types.PermissionOutcome''
     [(''outcome'', set_field pm_Outcome_update pm_Outcome dec_string),
      (''optionId'', set_field pm_OptionID_update pm_OptionID dec_string)]"

definition enc_PermissionOutcome :: "PermissionOutcome \<Rightarrow> json" where
  "enc_PermissionOutcome p = JObj ((''outcome'', JStr (pm_Outcome p)) # omit_str ''optionId'' (pm_OptionID p))"

text \<open>A \<open>RequestPermissionResponse\<close> has the outcome as its only field and is that outcome.\<close>

definition dec_RequestPermissionResponse :: "PermissionOutcome \<Rightarrow> json \<Rightarrow> PermissionOutcome result" where
  "dec_RequestPermissionResponse = dec_struct ''types.RequestPermissionResponse'' [(''outcome'', dec_PermissionOutcome)]"

definition enc_RequestPermissionResponse :: "PermissionOutcome \<Rightarrow> json" where
  "enc_RequestPermissionResponse p = JObj [(''outcome'', enc_PermissionOutcome p)]"

definition enc_PermissionOption :: "PermissionOption \<Rightarrow> json" where
  "enc_PermissionOption p =
     JObj [(''optionId'', JStr (po_OptionID p)), (''name'', JStr (po_Name p)), (''kind'', JStr (po_Kind p))]"

record ToolCallDetail =
  tcd_ToolCallID :: string
  tcd_Title :: "string option"
  tcd_Kind :: "string option"
  tcd_Status :: "string option"
  tcd_RawInput :: "json option"
  tcd_Preview :: "json option"

definition enc_ToolCallDetail :: "ToolCallDetail \<Rightarrow> json" where
  "enc_ToolCallDetail d =
     JObj ((''toolCallId'', JStr (tcd_ToolCallID d)) # omit_none ''title'' JStr (tcd_Title d) @
           omit_none ''kind'' JStr (tcd_Kind d) @ omit_none ''status'' JStr (tcd_Status d) @
           omit_none ''rawInput'' id (tcd_RawInput d) @ omit_none ''preview'' id (tcd_Preview d))"

record RequestPermissionRequest =
  rp_SessionID :: string
  rp_ToolCall :: ToolCallDetail
  rp_Options :: "PermissionOption list"

definition enc_RequestPermissionRequest :: "RequestPermissionRequest \<Rightarrow> json" where
  "enc_RequestPermissionRequest r =
     JObj [(''sessionId'', JStr (rp_SessionID r)), (''toolCall'', enc_ToolCallDetail (rp_ToolCall r)),
           (''options'', JArr (map enc_PermissionOption (rp_Options r)))]"

section \<open>Session updates\<close>

abbreviation ToolCallStatusPending :: string where "ToolCallStatusPending \<equiv> ''pending''"
abbreviation ToolCallStatusInProgress :: string where "ToolCallStatusInProgress \<equiv> ''in_progress''"
abbreviation ToolCallStatusCompleted :: string where "ToolCallStatusCompleted \<equiv> ''completed''"
abbreviation ToolCallStatusFailed :: string where "ToolCallStatusFailed \<equiv> ''failed''"

definition toolKindMap :: "(string \<times> string) list" where
  "toolKindMap =
     [(''read_file'', ''read''), (''list_files'', ''search''), (''write_file'', ''edit''), (''edit_file'', ''edit''),
      (''web_fetch'', ''fetch''), (''run_command'', ''execute''), (''skill'', ''other'')]"

definition ToolKindFromName :: "string \<Rightarrow> string" where
  "ToolKindFromName toolName = (case map_of toolKindMap toolName of Some kind \<Rightarrow> kind | None \<Rightarrow> ''other'')"

definition AgentMessageChunk :: "string \<Rightarrow> json" where
  "AgentMessageChunk text =
     JObj [(''sessionUpdate'', JStr ''agent_message_chunk''),
           (''content'', JObj [(''type'', JStr ''text''), (''text'', JStr text)])]"

definition AgentThoughtChunk :: "string \<Rightarrow> json" where
  "AgentThoughtChunk text =
     JObj [(''sessionUpdate'', JStr ''agent_thought_chunk''),
           (''content'', JObj [(''type'', JStr ''text''), (''text'', JStr text)])]"

text \<open>A \<open>ToolCallContent\<close> around a text block.\<close>

definition TextToolContent :: "string \<Rightarrow> json" where
  "TextToolContent text = JObj [(''type'', JStr ''content''), (''content'', enc_ContentBlock (TextBlock text))]"

definition ToolCallStart :: "string \<Rightarrow> string \<Rightarrow> string \<Rightarrow> json list option \<Rightarrow> json option \<Rightarrow> json" where
  "ToolCallStart callID title kind locations rawInput =
     JObj ([(''sessionUpdate'', JStr ''tool_call''), (''toolCallId'', JStr callID), (''title'', JStr title),
            (''kind'', JStr kind), (''status'', JStr ToolCallStatusPending), (''content'', JArr [])] @
           omit_none ''locations'' JArr locations @ omit_none ''rawInput'' id rawInput)"

definition ToolCallUpdate :: "string \<Rightarrow> string \<Rightarrow> json list option \<Rightarrow> json option \<Rightarrow> json" where
  "ToolCallUpdate callID status content rawOutput =
     JObj ([(''sessionUpdate'', JStr ''tool_call_update''), (''toolCallId'', JStr callID), (''status'', JStr status)] @
           omit_none ''content'' JArr content @ omit_none ''rawOutput'' id rawOutput)"

definition AvailableCommandsUpdate :: "(string \<times> string) list \<Rightarrow> json" where
  "AvailableCommandsUpdate commands =
     JObj [(''sessionUpdate'', JStr ''available_commands_update''),
           (''availableCommands'', JArr (map (\<lambda>(n, d). JObj [(''name'', JStr n), (''description'', JStr d)]) commands))]"

definition enc_SessionNotification :: "string \<Rightarrow> json \<Rightarrow> json" where
  "enc_SessionNotification sid update = JObj [(''sessionId'', JStr sid), (''update'', update)]"

section \<open>Round trips\<close>

text \<open>
  A permission outcome survives the wire: what the client encodes, the server decodes.
\<close>

theorem permission_roundtrip:
  "unmarshal dec_RequestPermissionResponse no_outcome (Some (enc_RequestPermissionResponse p)) = Inr p"
  by (cases p)
    (simp add: unmarshal_def dec_RequestPermissionResponse_def dec_struct_def enc_RequestPermissionResponse_def
      dec_PermissionOutcome_def enc_PermissionOutcome_def set_field_def omit_str_def no_outcome_def
      to_upper_def upper_char_def)

end
