(* ===== verification/JsonText.thy ===== *)
theory JsonText
  imports Json
begin

text \<open>
  What is printed is read back: the round trip through the text of a JSON value, by way of its tokens.
\<close>

section \<open>The parts of a value\<close>

fun numbers :: "json \<Rightarrow> rat list"
  and element_numbers :: "json list \<Rightarrow> rat list"
  and member_numbers :: "json_object \<Rightarrow> rat list" where
  "numbers JNull = []"
| "numbers (JBool b) = []"
| "numbers (JNum q) = [q]"
| "numbers (JStr s) = []"
| "numbers (JArr vs) = element_numbers vs"
| "numbers (JObj kvs) = member_numbers kvs"
| "element_numbers [] = []"
| "element_numbers (v # vs) = numbers v @ element_numbers vs"
| "member_numbers [] = []"
| "member_numbers ((k, v) # kvs) = numbers v @ member_numbers kvs"

fun valid_json :: "json \<Rightarrow> json"
  and valid_elements :: "json list \<Rightarrow> json list"
  and valid_members :: "json_object \<Rightarrow> json_object" where
  "valid_json JNull = JNull"
| "valid_json (JBool b) = JBool b"
| "valid_json (JNum q) = JNum q"
| "valid_json (JStr s) = JStr (to_valid s)"
| "valid_json (JArr vs) = JArr (valid_elements vs)"
| "valid_json (JObj kvs) = JObj (valid_members kvs)"
| "valid_elements [] = []"
| "valid_elements (v # vs) = valid_json v # valid_elements vs"
| "valid_members [] = []"
| "valid_members ((k, v) # kvs) = (to_valid k, valid_json v) # valid_members kvs"

fun nesting :: "json \<Rightarrow> nat"
  and element_nesting :: "json list \<Rightarrow> nat"
  and member_nesting :: "json_object \<Rightarrow> nat" where
  "nesting JNull = 0"
| "nesting (JBool b) = 0"
| "nesting (JNum q) = 0"
| "nesting (JStr s) = 0"
| "nesting (JArr vs) = Suc (element_nesting vs)"
| "nesting (JObj kvs) = Suc (member_nesting kvs)"
| "element_nesting [] = 0"
| "element_nesting (v # vs) = max (nesting v) (element_nesting vs)"
| "member_nesting [] = 0"
| "member_nesting ((k, v) # kvs) = max (nesting v) (member_nesting kvs)"

fun tokens :: "json \<Rightarrow> token list"
  and element_tokens :: "json list \<Rightarrow> token list"
  and member_tokens :: "json_object \<Rightarrow> token list" where
  "tokens JNull = [Scalar JNull]"
| "tokens (JBool b) = [Scalar (JBool b)]"
| "tokens (JNum q) = [Scalar (JNum q)]"
| "tokens (JStr s) = [Str (to_valid s)]"
| "tokens (JArr vs) = Punct (CHR ''['') # element_tokens vs @ [Punct (CHR '']'')]"
| "tokens (JObj kvs) = Punct (CHR 0x7B) # member_tokens kvs @ [Punct (CHR 0x7D)]"
| "element_tokens [] = []"
| "element_tokens (v # vs) = tokens v @ (if vs = [] then [] else Punct (CHR '','') # element_tokens vs)"
| "member_tokens [] = []"
| "member_tokens ((k, v) # kvs) =
     Str (to_valid k) # Punct (CHR '':'') # tokens v @ (if kvs = [] then [] else Punct (CHR '','') # member_tokens kvs)"

section \<open>Numbers read back\<close>

lemma digit_word [simp]: "is_digit c \<Longrightarrow> word_char c"
  by (simp add: word_char_def)

lemma digits_all: "takeWhile is_digit (nat_digits n) = nat_digits n" "dropWhile is_digit (nat_digits n) = []"
  using digits_plain by (auto simp: takeWhile_eq_all_conv dropWhile_eq_Nil_conv)

lemma digits_length: "10 \<le> n \<Longrightarrow> 1 < length (nat_digits n)"
  using number_digits [of "n div 10"] by (cases "nat_digits (n div 10)") (simp_all add: nat_digits.simps [of n])

lemma digits_lead: "nat_digits n \<noteq> [] \<and> (1 < length (nat_digits n) \<longrightarrow> hd (nat_digits n) \<noteq> CHR ''0'')"
proof (induction n rule: nat_digits.induct)
  case (1 n)
  show ?case
  proof (cases "n < 10")
    case True
    then show ?thesis by (simp add: nat_digits.simps [of n])
  next
    case False
    have "hd (nat_digits (n div 10)) \<noteq> CHR ''0''"
    proof (cases "n div 10 < 10")
      case True
      then show ?thesis using False by (simp add: nat_digits.simps [of "n div 10"] char_of_eq_iff take_bit_eq_mod)
    next
      case False
      then show ?thesis using 1 digits_length [of "n div 10"] \<open>\<not> n < 10\<close> by simp
    qed
    then show ?thesis using False number_digits [of "n div 10"] by (simp add: nat_digits.simps [of n])
  qed
qed

lemma read_digits:
  "optional_sign w = (neg, nat_digits n) \<Longrightarrow> read_number w = Some (of_int (if neg then - int n else int n))"
  using digits_lead [of n] number_digits [of n]
  by (auto simp: read_number_def digits_all fraction_part_def exponent_part_def power_of_ten_def digits_value_def Let_def)

lemma read_itoa: "read_number (itoa i) = Some (of_int i)"
proof (cases "i < 0")
  case True
  then have "optional_sign (itoa i) = (True, nat_digits (nat (- i)))" by (simp add: itoa_def optional_sign_def)
  then show ?thesis using True by (simp add: read_digits)
next
  case False
  have "optional_sign (nat_digits n) = (False, nat_digits n)" for n
    using digits_plain [of "hd (nat_digits n)" n] digits_lead [of n] not_digit(1)
    by (cases "nat_digits n") (auto simp: optional_sign_def)
  then show ?thesis using False by (simp add: read_digits itoa_def)
qed

lemma itoa_word: "itoa i \<noteq> []" "c \<in> set (itoa i) \<Longrightarrow> c = CHR ''-'' \<or> is_digit c"
  using digits_lead digits_plain by (auto simp: itoa_def split: if_splits)

lemma read_word_itoa: "read_word (itoa i) = Some (JNum (of_int i))"
proof -
  have "CHR ''l'' \<notin> set (itoa i)" "CHR ''e'' \<notin> set (itoa i)"
    using itoa_word(2) by (fastforce simp: is_digit_def less_eq_char_def)+
  then have "itoa i \<noteq> ''null''" "itoa i \<noteq> ''true''" "itoa i \<noteq> ''false''" by auto
  then show ?thesis by (simp add: read_word_def read_itoa)
qed


section \<open>Tokens\<close>

text \<open>A word ends where no character of a word follows.\<close>

definition word_ends :: "string \<Rightarrow> bool" where
  "word_ends rest \<longleftrightarrow> rest = [] \<or> \<not> word_char (hd rest)"

lemma word_ends_simps [simp]: "word_ends []" "\<not> word_char c \<Longrightarrow> word_ends (c # rest)"
  by (simp_all add: word_ends_def)

lemma word_chars:
  "word_char c \<Longrightarrow> \<not> json_space c \<and> \<not> json_punct c \<and> c \<noteq> CHR 0x22"
  by (auto simp: word_char_def json_space_def json_punct_def is_digit_def less_eq_char_def)

lemma punct_chars: "json_punct c \<Longrightarrow> \<not> json_space c \<and> \<not> word_char c"
  by (auto simp: word_char_def json_space_def json_punct_def is_digit_def less_eq_char_def)

lemma lex_punct [simp]: "json_punct c \<Longrightarrow> tokenize (c # cs) = map_option (Cons (Punct c)) (tokenize cs)"
  using punct_chars by simp

lemma lex_word:
  assumes "read_word w = Some v" and "w \<noteq> []" and "list_all word_char w" and "word_ends rest"
  shows "tokenize (w @ rest) = map_option (Cons (Scalar v)) (tokenize rest)"
proof (cases w)
  case (Cons c cs)
  have "takeWhile word_char (cs @ rest) = cs" "dropWhile word_char (cs @ rest) = rest"
    using assms(3,4) Cons by (cases rest; auto simp: word_ends_def list_all_iff takeWhile_append dropWhile_append)+
  then show ?thesis using assms Cons word_chars [of c] by simp
qed (use assms in simp)

lemma lex_quote: "tokenize (quote_json s @ rest) = map_option (Cons (Str (to_valid s))) (tokenize rest)"
proof -
  have q: "\<not> json_space (CHR 0x22)" "\<not> json_punct (CHR 0x22)" by (simp_all add: json_space_def json_punct_def)
  have "tokenize (CHR 0x22 # (escape_json s @ CHR 0x22 # rest)) = map_option (Cons (Str (to_valid s))) (tokenize rest)"
    by (subst tokenize.simps(2)) (simp add: q lex_quoted)
  then show ?thesis by (simp add: quote_json_def del: tokenize.simps)
qed

lemma puncts [simp]:
  "json_punct (CHR ''['')" "json_punct (CHR '']'')" "json_punct (CHR '','')" "json_punct (CHR '':'')"
  "json_punct (CHR 0x7B)" "json_punct (CHR 0x7D)"
  by (simp_all add: json_punct_def)

lemma lex_number: "plain_number q \<Longrightarrow> word_ends rest \<Longrightarrow> tokenize (print_number num q @ rest) = map_option (Cons (Scalar (JNum q))) (tokenize rest)"
proof -
  assume q: "plain_number q" and rest: "word_ends rest"
  have "list_all word_char (itoa i)" for i
    using itoa_word(2) by (auto simp: list_all_iff word_char_def)
  then show ?thesis
    using q rest itoa_word(1) lex_word [OF read_word_itoa, of "\<lfloor>q\<rfloor>" rest] by (simp add: print_number_def plain_number_def del: of_int_floor_cancel)
qed

lemma prepend_tokens:
  "map_option ((@) []) r = r" "map_option ((@) (t # ts)) r = map_option (Cons t) (map_option ((@) ts) r)"
  "map_option ((@) (ts @ us)) r = map_option ((@) ts) (map_option ((@) us) r)"
  by (cases r; simp)+

lemma lex_print:
  "list_all plain_number (numbers v) \<Longrightarrow> word_ends rest \<Longrightarrow>
     tokenize (print_json num v @ rest) = map_option (\<lambda>ts. tokens v @ ts) (tokenize rest)"
  "list_all plain_number (element_numbers vs) \<Longrightarrow> word_ends rest \<Longrightarrow>
     tokenize (print_elements num vs @ rest) = map_option (\<lambda>ts. element_tokens vs @ ts) (tokenize rest)"
  "list_all plain_number (member_numbers kvs) \<Longrightarrow> word_ends rest \<Longrightarrow>
     tokenize (print_members num kvs @ rest) = map_option (\<lambda>ts. member_tokens kvs @ ts) (tokenize rest)"
proof (induction v and vs and kvs arbitrary: rest and rest and rest rule: numbers_element_numbers_member_numbers.induct)
  case 1
  then show ?case using lex_word [of "''null''" JNull rest] by (simp add: read_word_def word_char_def less_eq_char_def del: tokenize.simps)
next
  case (2 b)
  then show ?case
    using lex_word [of "''true''" "JBool True" rest] lex_word [of "''false''" "JBool False" rest]
    by (simp add: read_word_def word_char_def less_eq_char_def del: tokenize.simps)
next
  case (3 q)
  then show ?case by (simp add: lex_number del: tokenize.simps)
next
  case (4 s)
  then show ?case by (simp add: lex_quote del: tokenize.simps)
qed (simp_all add: lex_quote prepend_tokens punct_chars del: tokenize.simps)

section \<open>Values\<close>

lemma read_tokens_append:
  "read_tokens s (ts @ us) = (case read_tokens s ts of None \<Rightarrow> None | Some s' \<Rightarrow> read_tokens s' us)"
  by (induction s ts rule: read_tokens.induct) (auto split: option.split)

lemma first_value: "read_tokens (FirstElement, st) (tokens v @ us) = read_tokens (AnyValue, st) (tokens v @ us)"
  by (cases v) simp_all

lemma first_member:
  "kvs \<noteq> [] \<Longrightarrow> read_tokens (FirstMember, st) (member_tokens kvs @ us) = read_tokens (NextKey [], st) (member_tokens kvs @ us)"
  by (cases kvs) auto

lemma read_printed:
  "nesting v + length st \<le> maxNestingDepth \<Longrightarrow> read_tokens (AnyValue, st) (tokens v) = Some (AfterValue (valid_json v), st)"
  "vs \<noteq> [] \<Longrightarrow> element_nesting vs + Suc (length st) \<le> maxNestingDepth \<Longrightarrow>
     read_tokens (AnyValue, InArray us # st) (element_tokens vs @ [Punct (CHR '']'')]) =
       Some (AfterValue (JArr (us @ valid_elements vs)), st)"
  "kvs \<noteq> [] \<Longrightarrow> member_nesting kvs + Suc (length st) \<le> maxNestingDepth \<Longrightarrow>
     read_tokens (NextKey ms, st) (member_tokens kvs @ [Punct (CHR 0x7D)]) =
       Some (AfterValue (JObj (ms @ valid_members kvs)), st)"
proof (induction v and vs and kvs arbitrary: st and st us and st ms rule: numbers_element_numbers_member_numbers.induct)
  case (5 vs)
  show ?case
  proof (cases vs)
    case (Cons w ws)
    have "read_tokens (FirstElement, InArray [] # st) (element_tokens vs @ [Punct (CHR '']'')]) =
        read_tokens (AnyValue, InArray [] # st) (element_tokens vs @ [Punct (CHR '']'')])"
      using first_value [of "InArray [] # st" w] Cons by simp
    then show ?thesis using 5 Cons by (simp add: start_value_def)
  qed (use 5 in \<open>simp add: start_value_def\<close>)
next
  case (6 kvs)
  show ?case
  proof (cases "kvs = []")
    case False
    then show ?thesis using 6 first_member by (simp add: start_value_def)
  qed (use 6 in \<open>simp add: start_value_def\<close>)
next
  case (8 v vs)
  then show ?case
    by (cases "vs = []") (simp_all add: read_tokens_append end_value_def)
next
  case (10 k v kvs)
  then show ?case
    by (cases "kvs = []") (simp_all add: read_tokens_append end_value_def read_key_def)
qed (simp_all add: start_value_def)

text \<open>A value printed is read back, its strings made valid.\<close>

lemma parse_print:
  assumes "list_all plain_number (numbers v)" and "nesting v \<le> maxNestingDepth"
  shows "parse_json (print_json num v) = Some (valid_json v)"
  using lex_print(1) [OF assms(1), of "[]" num] read_printed(1) [of v "[]"] assms(2) by (simp add: parse_json_def)


section \<open>The printed text\<close>

lemma hex_digit_printable: "d < 16 \<Longrightarrow> 32 \<le> byte (hex_digit d)"
  by (auto simp: hex_digit_def)

lemma hex_printable: "n < 0x10000 \<Longrightarrow> list_all (\<lambda>c. 32 \<le> byte c) (json_hex n)"
  by (simp add: json_hex_def hex_digit_printable div_less_iff_less_mult)

lemma escape_printable: "list_all (\<lambda>c. 32 \<le> byte c) (json_escape c)"
  using hex_printable [of "byte c"] nat_of_char_less_256 [of c] by (auto simp: json_escape_def)

lemma rune_printable: "rune_rest c cs = Some k \<Longrightarrow> list_all (\<lambda>c. 32 \<le> byte c) (c # take k cs)"
  using rune_rest_lead [of c cs k]
  by (fastforce simp: rune_rest_def list_all_iff continuation_def split: option.splits if_splits)

lemma escape_json_printable: "list_all (\<lambda>c. 32 \<le> byte c) (escape_json s)"
proof (induction s rule: escape_json.induct)
  case (2 c cs)
  show ?case
  proof (cases "rune_rest c cs")
    case None
    then show ?thesis using 2 escape_printable hex_printable [of 65533] by auto
  next
    case (Some k)
    then show ?thesis
      using 2 escape_printable hex_printable [of 8232] hex_printable [of 8233] rune_printable [OF Some] by auto
  qed
qed simp

lemma printable:
  "list_all plain_number (numbers v) \<Longrightarrow> list_all (\<lambda>c. 32 \<le> byte c) (print_json num v)"
  "list_all plain_number (element_numbers vs) \<Longrightarrow> list_all (\<lambda>c. 32 \<le> byte c) (print_elements num vs)"
  "list_all plain_number (member_numbers kvs) \<Longrightarrow> list_all (\<lambda>c. 32 \<le> byte c) (print_members num kvs)"
proof (induction v and vs and kvs rule: numbers_element_numbers_member_numbers.induct)
  case (3 q)
  have "list_all (\<lambda>c. 32 \<le> byte c) (itoa i)" for i
    using itoa_word(2) [of _ i] by (fastforce simp: list_all_iff is_digit_def less_eq_char_def)
  then show ?case using 3 by (simp add: print_number_def)
qed (simp_all add: quote_json_def escape_json_printable)

lemma print_not_empty: "list_all plain_number (numbers v) \<Longrightarrow> print_json num v \<noteq> []"
  using itoa_word(1) by (cases v) (simp_all add: quote_json_def print_number_def)

lemma printed_line:
  assumes "list_all plain_number (numbers v)"
  shows "nl \<notin> set (print_json num v)" and "print_json num v \<noteq> []" and "last (print_json num v) \<noteq> CHR 0x0D"
proof -
  show "print_json num v \<noteq> []" by (rule print_not_empty [OF assms])
  then have "last (print_json num v) \<in> set (print_json num v)" by simp
  then show "nl \<notin> set (print_json num v)" "last (print_json num v) \<noteq> CHR 0x0D"
    using printable(1) [OF assms, of num] by (fastforce simp: list_all_iff)+
qed

section \<open>Strings that are UTF-8\<close>

lemma to_valid_Nil [simp]: "to_valid s = [] \<longleftrightarrow> s = []"
  by (cases s) (auto split: option.split)

lemma ascii_valid: "list_all (\<lambda>c. byte c < 0x80) s \<Longrightarrow> to_valid s = s"
  by (induction s) simp_all

lemma rune_error_rest: "rune_rest (CHR 0xEF) (CHR 0xBF # CHR 0xBD # t) = Some 2"
  by (simp add: rune_rest_def utf8_lead_def continuation_def)

lemma to_valid_twice: "to_valid (to_valid s) = to_valid s"
proof (induction s rule: to_valid.induct)
  case (2 c cs)
  show ?case
  proof (cases "byte c < 0x80 \<or> rune_rest c cs = None")
    case True
    then show ?thesis using 2 rune_error_rest by auto
  next
    case False
    then obtain k where k: "rune_rest c cs = Some k" by auto
    then show ?thesis using 2 False rune_rest_more [OF k] rune_rest_length [OF k] by simp
  qed
qed simp

lemma valid_twice:
  "valid_json (valid_json v) = valid_json v" "valid_elements (valid_elements vs) = valid_elements vs"
  "valid_members (valid_members kvs) = valid_members kvs"
  by (induction v and vs and kvs rule: numbers_element_numbers_member_numbers.induct) (simp_all add: to_valid_twice)

section \<open>The results of \<open>Unmarshal\<close>\<close>

text \<open>\<open>err\<close> is the error of \<open>Unmarshal\<close> for a text that is no JSON.\<close>

definition json_parse :: "(string \<Rightarrow> go_error) \<Rightarrow> string \<Rightarrow> json result" where
  "json_parse err t = or_error (parse_json t) (err t)"

lemma json_parse_print:
  assumes "list_all plain_number (numbers v)" and "nesting v \<le> maxNestingDepth"
  shows "json_parse err (print_json num v) = Inr (valid_json v)"
  using parse_print [OF assms] by (simp add: json_parse_def or_error_def)

end
