(* ===== verification/Sessions.thy ===== *)
theory Sessions
  imports SessionFile ProtocolTypes JsonText
begin

text \<open>
  internal/session/file_sessions.go: sessions as files of a directory, one \<open>.jsonl\<close> file of
  messages and one \<open>.meta.json\<close> file with the default agent. The clock and the random source give
  the identifier of a new session (\<open>fresh\<close>); \<open>mtime\<close> is the modification time the file system
  reports for a path; \<open>parse\<close> and \<open>print\<close> are the text side of \<open>encoding/json\<close> for the metadata.
  The lemmas show that the operations on one session do what they say and leave the others alone.
\<close>

section \<open>Paths\<close>

definition sessionDir :: "string \<Rightarrow> string" where
  "sessionDir BaseDir = path_join [BaseDir, ''sessions'']"

definition sessionPath :: "string \<Rightarrow> string \<Rightarrow> string" where
  "sessionPath BaseDir sessionID = path_join [sessionDir BaseDir, sessionID @ ''.jsonl'']"

definition metaPath :: "string \<Rightarrow> string \<Rightarrow> string" where
  "metaPath BaseDir sessionID = path_join [sessionDir BaseDir, sessionID @ ''.meta.json'']"

section \<open>Creating\<close>

definition NewSessionID :: "string \<Rightarrow> string \<Rightarrow> string" where
  "NewSessionID timestamp randomSeed = ''sess_'' @ timestamp @ ''_'' @ randomSeed"

definition session_Create :: "string \<Rightarrow> string \<Rightarrow> fs \<Rightarrow> (string \<times> string) result \<times> fs" where
  "session_Create BaseDir sessionID s =
     (case os_MkdirAll s (sessionDir BaseDir) of
        (Inl err, s1) \<Rightarrow> (Inl (Errorf ''create sessions directory: %w'' [AErr err]), s1)
      | (Inr _, s1) \<Rightarrow>
          let path = sessionPath BaseDir sessionID
          in case os_CreateExcl s1 path of
               Inl err \<Rightarrow> (Inl (Errorf ''create session file: %w'' [AErr err]), s1)
             | Inr s2 \<Rightarrow> (Inr (sessionID, path), s2))"

definition session_Ensure :: "string \<Rightarrow> string \<Rightarrow> fs \<Rightarrow> string result \<times> fs" where
  "session_Ensure BaseDir sessionID s =
     (case os_MkdirAll s (sessionDir BaseDir) of
        (Inl err, s1) \<Rightarrow> (Inl (Errorf ''create sessions directory: %w'' [AErr err]), s1)
      | (Inr _, s1) \<Rightarrow>
          let path = sessionPath BaseDir sessionID
          in case os_CreateOpen s1 path of
               Inl err \<Rightarrow> (Inl (Errorf ''ensure session file: %w'' [AErr err]), s1)
             | Inr s2 \<Rightarrow> (Inr path, s2))"

section \<open>The default agent\<close>

text \<open>\<open>sessionMeta\<close> has the default agent as its only field and is that name.\<close>

definition dec_meta :: "(string \<Rightarrow> json result) \<Rightarrow> string \<Rightarrow> string result" where
  "dec_meta parse data = result_bind (parse data) (dec_struct ''session.sessionMeta'' [(''default_agent'', dec_string)] [])"

definition enc_meta :: "(json \<Rightarrow> string) \<Rightarrow> string \<Rightarrow> string" where
  "enc_meta print name = print (JObj (if name = [] then [] else [(''default_agent'', JStr name)]))"

definition GetDefaultAgent :: "(string \<Rightarrow> json result) \<Rightarrow> string \<Rightarrow> string \<Rightarrow> fs \<Rightarrow> string result" where
  "GetDefaultAgent parse BaseDir sessionID s =
     (case os_ReadFile s (metaPath BaseDir sessionID) of
        Inl err \<Rightarrow> (if is_not_exist err then Inr [] else Inl (Errorf ''read session metadata: %w'' [AErr err]))
      | Inr data \<Rightarrow> map_error (\<lambda>err. Errorf ''parse session metadata: %w'' [AErr err]) (dec_meta parse data))"

text \<open>
  The old metadata is read, and a failure to do so only logged; its one field is then overwritten,
  and marshalling a struct of a string does not fail.
\<close>

definition SetDefaultAgent :: "(json \<Rightarrow> string) \<Rightarrow> string \<Rightarrow> string \<Rightarrow> string \<Rightarrow> fs \<Rightarrow> fs result" where
  "SetDefaultAgent print BaseDir sessionID agentName s =
     map_error (\<lambda>err. Errorf ''write session metadata: %w'' [AErr err])
       (os_WriteFile s (metaPath BaseDir sessionID) (enc_meta print agentName))"

section \<open>Time stamps\<close>

text \<open>\<open>time.Parse\<close> with the layout \<open>20060102T150405.000000000\<close>: fixed widths, each part in its range.\<close>

record timestamp =
  ts_year :: nat
  ts_month :: nat
  ts_day :: nat
  ts_hour :: nat
  ts_minute :: nat
  ts_second :: nat
  ts_nano :: nat

definition leap_year :: "nat \<Rightarrow> bool" where
  "leap_year y \<longleftrightarrow> y mod 4 = 0 \<and> (y mod 100 \<noteq> 0 \<or> y mod 400 = 0)"

definition days_in :: "nat \<Rightarrow> nat \<Rightarrow> nat" where
  "days_in y m = (if m = 2 then (if leap_year y then 29 else 28) else if m \<in> {4, 6, 9, 11} then 30 else 31)"

definition in_range :: "timestamp \<Rightarrow> bool" where
  "in_range t \<longleftrightarrow> 1 \<le> ts_month t \<and> ts_month t \<le> 12 \<and> 1 \<le> ts_day t \<and> ts_day t \<le> days_in (ts_year t) (ts_month t) \<and>
     ts_hour t < 24 \<and> ts_minute t < 60 \<and> ts_second t < 60"

definition parse_time :: "string \<Rightarrow> timestamp option" where
  "parse_time s =
     (if length s = 25 \<and> s ! 8 = CHR ''T'' \<and> s ! 15 = CHR ''.''
      then (case (number_of (span_of s 0 4), number_of (span_of s 4 6), number_of (span_of s 6 8),
                  number_of (span_of s 9 11), number_of (span_of s 11 13), number_of (span_of s 13 15), number_of (span_of s 16 25)) of
              (Some y, Some mo, Some d, Some h, Some mi, Some sec, Some ns) \<Rightarrow>
                let t = \<lparr>ts_year = y, ts_month = mo, ts_day = d, ts_hour = h, ts_minute = mi, ts_second = sec, ts_nano = ns\<rparr>
                in if in_range t then Some t else None
            | _ \<Rightarrow> None)
      else None)"

text \<open>\<open>None\<close> is the zero time. \<open>SplitN(s, "_", 2)\<close> keeps what comes before the first underscore.\<close>

definition parseSessionTimestamp :: "string \<Rightarrow> timestamp option" where
  "parseSessionTimestamp sessionID =
     (if \<not> has_prefix sessionID ''sess_'' then None
      else parse_time (takeWhile (\<lambda>c. c \<noteq> CHR ''_'') (trim_prefix sessionID ''sess_'')))"

section \<open>Reading and deleting\<close>

record Info =
  in_ID :: string
  in_DefaultAgent :: string
  in_MessageCount :: int
  in_FileSize :: int
  in_CreatedAt :: "timestamp option"
  in_ModifiedAt :: int

text \<open>A file that cannot be opened, and a directory, count as no lines.\<close>

definition countLines :: "fs \<Rightarrow> string \<Rightarrow> int" where
  "countLines s path =
     (case os_ReadFile s path of Inl _ \<Rightarrow> 0 | Inr data \<Rightarrow> int (length (filter (\<lambda>c. c = nl) data)))"

text \<open>The size of a directory is the file system's; here one block.\<close>

definition stat_size :: "node \<Rightarrow> int" where
  "stat_size n = (case n of FileNode d \<Rightarrow> int (length d) | DirNode \<Rightarrow> 4096)"

definition session_Get :: "(string \<Rightarrow> json result) \<Rightarrow> (string \<Rightarrow> int) \<Rightarrow> string \<Rightarrow> string \<Rightarrow> fs \<Rightarrow> Info result" where
  "session_Get parse mtime BaseDir sessionID s =
     (let path = sessionPath BaseDir sessionID
      in case os_Stat s path of
           Inl err \<Rightarrow> (if is_not_exist err then Inl (Errorf ''session not found: %s'' [AStr sessionID])
                       else Inl (Errorf ''stat session: %w'' [AErr err]))
         | Inr n \<Rightarrow>
             Inr \<lparr>in_ID = sessionID,
                  in_DefaultAgent = (case GetDefaultAgent parse BaseDir sessionID s of Inl _ \<Rightarrow> [] | Inr a \<Rightarrow> a),
                  in_MessageCount = countLines s path, in_FileSize = stat_size n,
                  in_CreatedAt = parseSessionTimestamp sessionID, in_ModifiedAt = mtime path\<rparr>)"

text \<open>\<open>sort.Slice\<close> leaves the order of equal times open; here it is the order of the directory.\<close>

definition session_List :: "(string \<Rightarrow> json result) \<Rightarrow> (string \<Rightarrow> int) \<Rightarrow> string \<Rightarrow> fs \<Rightarrow> Info list result" where
  "session_List parse mtime BaseDir s =
     (case os_ReadDir s (sessionDir BaseDir) of
        Inl err \<Rightarrow> (if is_not_exist err then Inr [] else Inl (Errorf ''list sessions: %w'' [AErr err]))
      | Inr entries \<Rightarrow>
          let ids = map (\<lambda>(name, n). trim_suffix name ''.jsonl'')
                (filter (\<lambda>(name, n). n \<noteq> DirNode \<and> has_suffix name ''.jsonl'') entries);
              result = List.map_filter (\<lambda>sid. case session_Get parse mtime BaseDir sid s of Inl _ \<Rightarrow> None | Inr info \<Rightarrow> Some info) ids
          in Inr (sort_key (\<lambda>info. - in_ModifiedAt info) result))"

definition session_Delete :: "string \<Rightarrow> string \<Rightarrow> fs \<Rightarrow> unit result \<times> fs" where
  "session_Delete BaseDir sessionID s =
     (let path = sessionPath BaseDir sessionID
      in case os_Stat s path of
           Inl err \<Rightarrow> (if is_not_exist err then (Inl (Errorf ''session not found: %s'' [AStr sessionID]), s)
                       else (Inl (Errorf ''stat session: %w'' [AErr err]), s))
         | Inr _ \<Rightarrow>
             (case os_Remove s path of
                Inl err \<Rightarrow> (Inl (Errorf ''delete session: %w'' [AErr err]), s)
              | Inr s1 \<Rightarrow>
                  (case os_Remove s1 (metaPath BaseDir sessionID) of
                     Inl err \<Rightarrow> (if is_not_exist err then (Inr (), s1)
                                 else (Inl (Errorf ''delete session metadata: %w'' [AErr err]), s1))
                   | Inr s2 \<Rightarrow> (Inr (), s2))))"

section \<open>Where a session is kept\<close>

text \<open>
  An identifier is an ordinary name when it has no slash. Then the two files of a session are
  direct entries of the directory, and no two sessions share one.
\<close>

definition plain_id :: "string \<Rightarrow> bool" where
  "plain_id sessionID \<longleftrightarrow> slash \<notin> set sessionID"

lemma sessionDir_nonempty [simp]: "sessionDir BaseDir \<noteq> []"
proof -
  have "path_clean p \<noteq> []" for p
    using elements_no_slash [of "[]" p] by (cases "elements p"; cases "tl (elements p)") (auto simp: path_clean_def)
  then show ?thesis by (simp add: sessionDir_def path_join_def)
qed

lemma plain_files:
  assumes "plain_id sid"
  shows "plain_name (sid @ ''.jsonl'')" and "plain_name (sid @ ''.meta.json'')"
proof -
  have "sid @ t \<noteq> ''.'' \<and> sid @ t \<noteq> ''..''" if "2 < length t" for t
    using that by (auto dest!: arg_cong [of _ _ length])
  from this [of "''.jsonl''"] this [of "''.meta.json''"] assms
  show "plain_name (sid @ ''.jsonl'')" "plain_name (sid @ ''.meta.json'')" by (auto simp: plain_name_def plain_id_def)
qed

lemma sessionPath_inj: "plain_id a \<Longrightarrow> plain_id b \<Longrightarrow> sessionPath BaseDir a = sessionPath BaseDir b \<longleftrightarrow> a = b"
  by (simp add: sessionPath_def path_join_inj plain_files)

lemma metaPath_inj: "plain_id a \<Longrightarrow> plain_id b \<Longrightarrow> metaPath BaseDir a = metaPath BaseDir b \<longleftrightarrow> a = b"
  by (simp add: metaPath_def path_join_inj plain_files)

lemma session_meta_differ: "plain_id a \<Longrightarrow> plain_id b \<Longrightarrow> sessionPath BaseDir a \<noteq> metaPath BaseDir b"
proof -
  assume ab: "plain_id a" "plain_id b"
  have "last (a @ ''.jsonl'') \<noteq> last (b @ ''.meta.json'')" by simp
  then have "a @ ''.jsonl'' \<noteq> b @ ''.meta.json''" by metis
  then show ?thesis using ab by (simp add: sessionPath_def metaPath_def path_join_inj plain_files)
qed

text \<open>
  An identifier comes from the client unchecked; one with parent references names a file outside the
  directory of the sessions.
\<close>

lemma session_path_escapes: "sessionPath ''/d'' ''../../etc/x'' = ''/etc/x.jsonl''"
proof -
  have "sessionDir ''/d'' = ''/d/sessions''" by code_simp
  moreover have "path_join [''/d/sessions'', ''../../etc/x'' @ ''.jsonl''] = ''/etc/x.jsonl''" by code_simp
  ultimately show ?thesis by (simp only: sessionPath_def)
qed

section \<open>Creating\<close>

definition only_dirs_added :: "fs \<Rightarrow> fs \<Rightarrow> string \<Rightarrow> bool" where
  "only_dirs_added s s' q \<longleftrightarrow> lookup s' q = lookup s q \<or> (lookup s q = None \<and> lookup s' q = Some DirNode)"

text \<open>
  Creating a session makes one new empty file and never touches an existing one: an identifier
  that is taken is an error. Ensuring a session keeps the messages it has. Neither changes any
  other file; at most the directory is made.
\<close>

theorem session_created:
  "(session_Create BaseDir sid s = (Inr (sid', path), s') \<longrightarrow>
      sid' = sid \<and> path = sessionPath BaseDir sid \<and> lookup s path = None \<and> lookup s' path = Some (FileNode []) \<and>
      (\<forall>q. q \<noteq> path \<longrightarrow> only_dirs_added s s' q)) \<and>
   (session_Ensure BaseDir sid s = (Inr path, s') \<longrightarrow>
      path = sessionPath BaseDir sid \<and> (\<forall>d. lookup s path = Some (FileNode d) \<longrightarrow> lookup s' path = Some (FileNode d)) \<and>
      (\<forall>q. q \<noteq> path \<longrightarrow> only_dirs_added s s' q))"
proof -
  obtain r s1 where m: "os_MkdirAll s (sessionDir BaseDir) = (r, s1)" by force
  have frame: "lookup s1 q = lookup s q \<or> (lookup s q = None \<and> lookup s1 q = Some DirNode)" for q
    by (rule os_MkdirAll_frame [OF m])
  show ?thesis
    using frame [of path]
    by (auto simp: session_Create_def session_Ensure_def m Let_def only_dirs_added_def
        dest!: os_CreateExcl_ok os_CreateOpen_ok split: sum.splits option.splits)
      (metis frame)+
qed

theorem session_created_witness:
  "\<exists>s'. session_Create ''/'' ''a'' \<lparr>nodes = [(''/x'', FileNode ''k'')], faults = []\<rparr> = (Inr (''a'', ''/sessions/a.jsonl''), s') \<and>
     lookup s' ''/sessions/a.jsonl'' = Some (FileNode []) \<and> only_dirs_added \<lparr>nodes = [(''/x'', FileNode ''k'')], faults = []\<rparr> s' ''/x''"
proof -
  define s where "s = \<lparr>nodes = [(''/x'', FileNode ''k'')], faults = []\<rparr>"
  have "fst (session_Create ''/'' ''a'' s) = Inr (''a'', ''/sessions/a.jsonl'')" unfolding s_def by code_simp
  then obtain s' where c: "session_Create ''/'' ''a'' s = (Inr (''a'', ''/sessions/a.jsonl''), s')" by (metis prod.collapse)
  define P Q where "P = ''/sessions/a.jsonl''" and "Q = ''/x''"
  have "Q \<noteq> P" by (simp add: P_def Q_def)
  moreover have c': "session_Create ''/'' ''a'' s = (Inr (''a'', P), s')" using c by (simp only: P_def)
  ultimately have "lookup s' P = Some (FileNode [])" "only_dirs_added s s' Q"
    using session_created [of "''/''" "''a''" s "''a''" P s'] by (simp_all only: simp_thms) blast+
  then show ?thesis using c unfolding P_def Q_def s_def [symmetric] by (intro exI [of _ s'] conjI)
qed

section \<open>Counting messages\<close>

lemma count_lines_append:
  assumes "list_all (\<lambda>m. nl \<notin> set (enc m)) ms" and "session_log.add_all enc path s ms = Inr s'"
  shows "length (filter (\<lambda>c. c = nl) (file_text s' path)) = length (filter (\<lambda>c. c = nl) (file_text s path)) + length ms"
  using assms
proof (induction ms arbitrary: s)
  case (Cons m ms)
  then obtain s1 where s1: "sf_Append enc s path m = Inr s1" "session_log.add_all enc path s1 ms = Inr s'"
    by (auto simp: result_simps)
  have "filter (\<lambda>c. c = nl) (enc m) = []" using Cons.prems(1) by (auto simp: filter_empty_conv)
  then show ?case using Cons.IH [OF _ s1(2)] Cons.prems(1) sf_Append_text [OF s1(1)] by simp
qed simp

lemma countLines_text: "fault s ''open'' path = None \<Longrightarrow>
    countLines s path = int (length (filter (\<lambda>c. c = nl) (file_text s path)))"
  by (simp add: countLines_def os_ReadFile_def file_text_def split: option.split node.split)

lemma sf_Append_faults: "sf_Append enc s path m = Inr s' \<Longrightarrow> faults s' = faults s \<and> lookup s' path \<noteq> None"
  by (auto simp: sf_Append_def result_simps dest!: os_AppendFile_ok)

lemma add_all_faults:
  "session_log.add_all enc path s ms = Inr s' \<Longrightarrow> faults s' = faults s \<and> (lookup s path \<noteq> None \<longrightarrow> lookup s' path \<noteq> None)"
  by (induction ms arbitrary: s) (auto simp: result_simps dest!: sf_Append_faults)

text \<open>
  The message count a session reports is the number of messages that were appended to its file
  since it was created, whatever the messages are, as long as each is encoded on one line.
\<close>

theorem session_message_count:
  assumes "session_Create BaseDir sid s = (Inr (sid, path), s1)" and "faults s = []"
    and "session_log.add_all enc path s1 ms = Inr s2" and "list_all (\<lambda>m. nl \<notin> set (enc m)) ms"
  shows "\<exists>info. session_Get parse mtime BaseDir sid s2 = Inr info \<and> in_MessageCount info = int (length ms) \<and>
    in_ID info = sid"
proof -
  have path: "path = sessionPath BaseDir sid" and new: "lookup s1 path = Some (FileNode [])"
    using session_created [of BaseDir sid s sid path s1] assms(1) by blast+
  have "faults s1 = []"
    using assms(1,2) os_MkdirAll_faults
    by (auto simp: session_Create_def Let_def dest!: os_CreateExcl_ok split: prod.splits sum.splits)
  then have f: "fault s2 op q = None" for op q using add_all_faults [OF assms(3)] by (simp add: fault_def)
  obtain n where n: "lookup s2 path = Some n" using add_all_faults [OF assms(3)] new by auto
  have "countLines s2 path = int (length ms)"
    using count_lines_append [OF assms(4,3)] new f by (simp add: countLines_text) (simp add: file_text_def)
  then show ?thesis using n f by (simp add: session_Get_def os_Stat_def path [symmetric] Let_def)
qed

theorem session_message_count_witness:
  "\<forall>parse mtime. \<exists>s1 s2 info. session_Create ''/'' ''a'' \<lparr>nodes = [], faults = []\<rparr> = (Inr (''a'', ''/sessions/a.jsonl''), s1) \<and>
     session_log.add_all brace_enc ''/sessions/a.jsonl'' s1 [text_message RoleUser ''hi'' 1] = Inr s2 \<and>
     session_Get parse mtime ''/'' ''a'' s2 = Inr info \<and> in_MessageCount info = 1"
proof (intro allI, goal_cases)
  case (1 parse mtime)
  define s1 where "s1 = put_node ''/sessions/a.jsonl'' (FileNode []) (put_node ''/sessions'' DirNode \<lparr>nodes = [], faults = []\<rparr>)"
  have c: "session_Create ''/'' ''a'' \<lparr>nodes = [], faults = []\<rparr> = (Inr (''a'', ''/sessions/a.jsonl''), s1)"
    unfolding s1_def by code_simp
  have "\<not> isl (session_log.add_all brace_enc ''/sessions/a.jsonl'' s1 [text_message RoleUser ''hi'' 1])"
    unfolding s1_def session_log.add_all.simps by code_simp
  then obtain s2 where a: "session_log.add_all brace_enc ''/sessions/a.jsonl'' s1 [text_message RoleUser ''hi'' 1] = Inr s2"
    by (metis isl_def sum.exhaust)
  have "list_all (\<lambda>m. nl \<notin> set (brace_enc m)) [text_message RoleUser ''hi'' 1]" by (simp add: brace_enc_def text_message_def)
  from session_message_count [OF c _ a this, of parse mtime] obtain info where
    "session_Get parse mtime ''/'' ''a'' s2 = Inr info" "in_MessageCount info = 1" by auto
  then show ?case using c a by blast
qed

section \<open>The default agent\<close>

text \<open>
  The default agent that was set last is the one that is read back, through the JSON text of the
  metadata file (with bytes that are no UTF-8 replaced), and the agent of every other session stays what it was.
\<close>

theorem default_agent_roundtrip:
  assumes "SetDefaultAgent (print_json num) BaseDir sid agent s = Inr s'" and "faults s = []" and "plain_id sid"
  shows "GetDefaultAgent (json_parse err) BaseDir sid s' = Inr (to_valid agent) \<and>
    (\<forall>other. plain_id other \<longrightarrow> other \<noteq> sid \<longrightarrow>
       GetDefaultAgent (json_parse err) BaseDir other s' = GetDefaultAgent (json_parse err) BaseDir other s)"
proof -
  let ?print = "print_json num" and ?parse = "json_parse err"
  have w: "os_WriteFile s (metaPath BaseDir sid) (enc_meta ?print agent) = Inr s'"
    using assms(1) by (simp add: SetDefaultAgent_def result_simps)
  have "os_ReadFile s' (metaPath BaseDir sid) = Inr (enc_meta ?print agent)"
    using osfs.read_written [OF w] assms(2) by (simp add: os_readable_def fault_def)
  moreover have "dec_meta ?parse (enc_meta ?print agent) = Inr (to_valid agent)"
    by (simp add: dec_meta_def enc_meta_def json_parse_print dec_struct_def ascii_valid del: print_json.simps)
  moreover have "os_ReadFile s' (metaPath BaseDir other) = os_ReadFile s (metaPath BaseDir other)"
    if "plain_id other" "other \<noteq> sid" for other
    using osfs.read_other [OF w] metaPath_inj [OF that(1) assms(3)] that(2) by simp
  ultimately show ?thesis by (simp add: GetDefaultAgent_def map_error_def)
qed

section \<open>Deleting\<close>

lemma delete_nodes:
  assumes "faults s = []" and "session_Delete BaseDir sid s = (Inr (), s')"
  shows "faults s' = [] \<and>
    (\<forall>q. lookup s' q = (if q = sessionPath BaseDir sid \<or> q = metaPath BaseDir sid then None else lookup s q))"
proof -
  define P M where "P = sessionPath BaseDir sid" and "M = metaPath BaseDir sid"
  have f: "fault s op q = None" "fault (s\<lparr>nodes := ns\<rparr>) op q = None" for op q ns using assms(1) by (simp_all add: fault_def)
  obtain n where n: "lookup s P = Some n"
    using assms(2) unfolding session_Delete_def P_def [symmetric] Let_def
    by (cases "lookup s P") (auto simp: os_Stat_def f not_exist_def)
  let ?s1 = "s\<lparr>nodes := AList.delete P (nodes s)\<rparr>"
  have "s' = (if lookup ?s1 M = None then ?s1 else ?s1\<lparr>nodes := AList.delete M (nodes ?s1)\<rparr>)"
    using assms(2) unfolding session_Delete_def P_def [symmetric] M_def [symmetric] Let_def
    by (cases "lookup ?s1 M") (simp_all add: os_Stat_def os_Remove_def f n not_exist_def)
  then show ?thesis
    unfolding P_def [symmetric] M_def [symmetric] using assms(1) lookup_delete [where s = s and p = P] lookup_delete [where s = ?s1 and p = M]
    by (auto split: if_splits)
qed

text \<open>
  A deleted session is gone: neither file is left, looking it up says it was not found, its agent
  reads as unset, and every other file is untouched. Deleting a session that is not there is an error.
\<close>

theorem session_deleted:
  assumes "faults s = []"
  shows "(session_Delete BaseDir sid s = (Inr (), s') \<longrightarrow>
      session_Get parse mtime BaseDir sid s' = Inl (Errorf ''session not found: %s'' [AStr sid]) \<and>
      GetDefaultAgent parse BaseDir sid s' = Inr [] \<and>
      (\<forall>q. q \<noteq> sessionPath BaseDir sid \<longrightarrow> q \<noteq> metaPath BaseDir sid \<longrightarrow> lookup s' q = lookup s q)) \<and>
    (lookup s (sessionPath BaseDir sid) = None \<longrightarrow>
      session_Delete BaseDir sid s = (Inl (Errorf ''session not found: %s'' [AStr sid]), s))"
proof -
  have f: "fault s op q = None" for op q using assms by (simp add: fault_def)
  have nf: "is_not_exist (not_exist op q)" for op q by (simp add: not_exist_def)
  show ?thesis
  proof (intro conjI impI)
    assume "lookup s (sessionPath BaseDir sid) = None"
    then show "session_Delete BaseDir sid s = (Inl (Errorf ''session not found: %s'' [AStr sid]), s)"
      by (simp add: session_Delete_def os_Stat_def f nf)
  next
    assume del: "session_Delete BaseDir sid s = (Inr (), s')"
    have gone: "faults s' = [] \<and> (\<forall>q. lookup s' q = (if q = sessionPath BaseDir sid \<or> q = metaPath BaseDir sid then None else lookup s q))"
      using delete_nodes [OF assms del] .
    then show "\<forall>q. q \<noteq> sessionPath BaseDir sid \<longrightarrow> q \<noteq> metaPath BaseDir sid \<longrightarrow> lookup s' q = lookup s q" by simp
    show "session_Get parse mtime BaseDir sid s' = Inl (Errorf ''session not found: %s'' [AStr sid])"
      using gone nf by (simp add: session_Get_def os_Stat_def fault_def)
    show "GetDefaultAgent parse BaseDir sid s' = Inr []"
      using gone nf by (simp add: GetDefaultAgent_def os_ReadFile_def fault_def)
  qed
qed

section \<open>Listing\<close>

lemma sessionDir_clean: "path_clean (sessionDir BaseDir) = sessionDir BaseDir"
  by (simp add: sessionDir_def path_join_def split: list.split)

text \<open>
  Listing returns the sessions that can be read, the one modified last first, and misses none: a
  session whose file is in the directory is in the list, under its identifier.
\<close>

theorem session_List_complete:
  assumes "session_List parse mtime BaseDir s = Inr infos" and "faults s = []"
  shows "sorted_wrt (\<lambda>a b. in_ModifiedAt b \<le> in_ModifiedAt a) infos"
    and "\<forall>info \<in> set infos. session_Get parse mtime BaseDir (in_ID info) s = Inr info"
    and "\<forall>sid d. plain_id sid \<longrightarrow> is_dir s (sessionDir BaseDir) \<longrightarrow>
      lookup s (sessionPath BaseDir sid) = Some (FileNode d) \<longrightarrow> sid \<in> in_ID ` set infos"
proof -
  have f: "fault s op q = None" for op q using assms(2) by (simp add: fault_def)
  have own: "session_Get parse mtime BaseDir sid s = Inr info \<Longrightarrow> in_ID info = sid" for sid info
    by (auto simp: session_Get_def Let_def split: sum.splits if_splits)
  show "sorted_wrt (\<lambda>a b. in_ModifiedAt b \<le> in_ModifiedAt a) infos"
    using assms(1) sort_key_descending by (auto simp: session_List_def Let_def split: sum.splits if_splits)
  show "\<forall>info \<in> set infos. session_Get parse mtime BaseDir (in_ID info) s = Inr info"
    using assms(1) own
    by (auto simp: session_List_def Let_def List.map_filter_def split: sum.splits if_splits)
  show "\<forall>sid d. plain_id sid \<longrightarrow> is_dir s (sessionDir BaseDir) \<longrightarrow>
      lookup s (sessionPath BaseDir sid) = Some (FileNode d) \<longrightarrow> sid \<in> in_ID ` set infos"
  proof (intro allI impI)
    fix sid d
    assume sid: "plain_id sid" and dir: "is_dir s (sessionDir BaseDir)" and l: "lookup s (sessionPath BaseDir sid) = Some (FileNode d)"
    obtain entries where entries: "os_ReadDir s (sessionDir BaseDir) = Inr entries"
      using dir f by (simp add: os_ReadDir_def)
    have m: "(sid @ ''.jsonl'', FileNode d) \<in> set entries"
      using ReadDir_member [OF entries] l sid plain_files(1) sessionDir_clean by (simp add: sessionPath_def)
    obtain info where info: "session_Get parse mtime BaseDir sid s = Inr info"
      using l f by (simp add: session_Get_def os_Stat_def Let_def)
    have "sid \<in> set (map (\<lambda>(name, n). trim_suffix name ''.jsonl'')
        (filter (\<lambda>(name, n). n \<noteq> DirNode \<and> has_suffix name ''.jsonl'') entries))"
      using m by (auto intro!: image_eqI [of _ _ "(sid @ ''.jsonl'', FileNode d)"])
    from map_filter_member [OF this, of "\<lambda>sid. case session_Get parse mtime BaseDir sid s of Inl _ \<Rightarrow> None | Inr info \<Rightarrow> Some info"]
    have "info \<in> set infos" using assms(1) info entries by (auto simp: session_List_def Let_def)
    then show "sid \<in> in_ID ` set infos" using own [OF info] by auto
  qed
qed

end
