(* ===== verification/Builtin.thy ===== *)
theory Builtin
  imports FileSystem CoreTypes
begin

text \<open>
  internal/tool/builtin/builtin.go: how the built-in tools read their arguments and decide which
  paths they touch. The context of a call carries the session's working directory, the empty
  string when none is set. The lemmas show that a path that passes \<open>validatePath\<close> stays below
  the directory it is joined to.
\<close>

section \<open>Arguments\<close>

definition getStringArg :: "string \<Rightarrow> json_object \<Rightarrow> string option" where
  "getStringArg key args = json_str (map_of args key)"

text \<open>Arguments come from \<open>encoding/json\<close>, so a number is a float64; the cases \<open>int\<close> and \<open>int64\<close> never occur.\<close>

definition getIntArg :: "string \<Rightarrow> json_object \<Rightarrow> int option" where
  "getIntArg key args = map_option trunc_rat (json_num (map_of args key))"

section \<open>Paths\<close>

definition resolveBaseDir :: "string \<Rightarrow> string \<Rightarrow> string" where
  "resolveBaseDir workingDir fallback = (if workingDir \<noteq> [] then workingDir else fallback)"

definition isRelativePathSafe :: "string \<Rightarrow> bool" where
  "isRelativePathSafe path =
     (if path = [] then False
      else if has_prefix path ''/'' \<or> has_prefix path [CHR 0x5C] then False
      else \<not> has_prefix (path_clean path) ''..'')"

definition validatePath :: "json_object \<Rightarrow> string result" where
  "validatePath args =
     (case getStringArg ''path'' args of
        None \<Rightarrow> Inl (Errorf ''missing required argument: path'' [])
      | Some path \<Rightarrow>
          (if path = [] then Inl (Errorf ''missing required argument: path'' [])
           else if \<not> isRelativePathSafe path
           then Inl (Errorf ''absolute or parent-traversal paths are not allowed'' [])
           else Inr path))"

lemma validatePath_Inr: "validatePath args = Inr path \<longleftrightarrow>
    getStringArg ''path'' args = Some path \<and> path \<noteq> [] \<and> isRelativePathSafe path"
  by (auto simp: validatePath_def split: option.splits)

lemma safe_path_relative: "isRelativePathSafe path \<Longrightarrow> \<not> is_abs path"
  by (auto simp: isRelativePathSafe_def is_abs_def split: if_splits)

lemma safe_path_no_dotdot: "isRelativePathSafe path \<Longrightarrow> ''..'' \<notin> set (elements path)"
  by (rule no_dotdot_elements) (auto simp: isRelativePathSafe_def is_abs_def split: if_splits)

text \<open>
  A path that \<open>validatePath\<close> accepts, joined to any base directory, names the base itself or
  something below it: the cleaned result is the base's elements followed by the path's own, and
  none of those is a parent reference.
\<close>

theorem validatePath_contained:
  assumes "validatePath args = Inr path" and "base \<noteq> []"
  shows "elements (path_join [base, path]) = elements base @ elements path \<and>
    ''..'' \<notin> set (elements path) \<and> \<not> is_abs path"
  using assms safe_path_relative safe_path_no_dotdot elements_join
  by (auto simp: validatePath_Inr)

theorem validatePath_contained_witness:
  "elements (path_join [''/srv/w'', ''a/./b//../c.txt'']) = [''srv'', ''w''] @ [''a'', ''c.txt'']"
proof -
  have "validatePath [(''path'', JStr ''a/./b//../c.txt'')] = Inr ''a/./b//../c.txt''" by code_simp
  moreover have "elements ''/srv/w'' = [''srv'', ''w'']" "elements ''a/./b//../c.txt'' = [''a'', ''c.txt'']"
    by code_simp+
  ultimately show ?thesis
    using validatePath_contained [of "[(''path'', JStr ''a/./b//../c.txt'')]" "''a/./b//../c.txt''" "''/srv/w''"]
    by simp
qed

text \<open>
  The check is on the text of the cleaned path and not on its first element, so it also refuses
  a harmless name that begins with two dots.
\<close>

lemma dotdot_name_refused:
  "validatePath [(''path'', JStr ''..notes.txt'')] =
     Inl (Errorf ''absolute or parent-traversal paths are not allowed'' []) \<and>
   elements ''..notes.txt'' = [''..notes.txt'']"
  by code_simp

end
