(* ===== verification/ToolRegistry.thy ===== *)
theory ToolRegistry
  imports Builtin
begin

text \<open>
  internal/tool/tools.go: the interface of a tool, the context a call carries, and the registry
  that finds a tool by name. A tool is the record of its methods; its execution may change the
  state \<open>'w\<close> of the session. The lock makes each operation one step. The interface
  \<open>named_store\<close> states what every registry of the program promises (tools, skills, commands and
  the server's sessions): what was put last under a name is what a lookup returns.
\<close>

section \<open>Stores by name\<close>

locale named_store =
  fixes put :: "'v \<Rightarrow> 's \<Rightarrow> 's"
    and get :: "'s \<Rightarrow> string \<Rightarrow> 'v option"
    and name_of :: "'v \<Rightarrow> string"
  assumes get_put: "get (put v s) n = (if n = name_of v then Some v else get s n)"
begin

fun put_all :: "'v list \<Rightarrow> 's \<Rightarrow> 's" where
  "put_all [] s = s"
| "put_all (v # vs) s = put_all vs (put v s)"

lemma put_all_append: "put_all (vs @ ws) s = put_all ws (put_all vs s)"
  by (induction vs arbitrary: s) simp_all

lemma put_all_keeps: "(\<And>v s. I s \<Longrightarrow> I (put v s)) \<Longrightarrow> I s \<Longrightarrow> I (put_all vs s)"
  by (induction vs arbitrary: s) simp_all

lemma get_put_all:
  "get (put_all vs s) n = (case find (\<lambda>v. name_of v = n) (rev vs) of None \<Rightarrow> get s n | Some v \<Rightarrow> Some v)"
proof (induction vs rule: rev_induct)
  case (snoc v vs)
  then show ?case by (simp add: put_all_append get_put)
qed simp

text \<open>What holds of every value that was put, and of what was there, holds of every value found.\<close>

lemma get_put_all_property:
  assumes "get (put_all vs s) n = Some v" and "\<And>v. v \<in> set vs \<Longrightarrow> P v" and "\<And>n v. get s n = Some v \<Longrightarrow> P v"
  shows "P v"
  using assms by (auto simp: get_put_all find_Some_iff in_set_conv_nth rev_nth split: option.splits)
    (metis Suc_diff_Suc diff_less_Suc less_imp_diff_less not_less_eq nth_mem)

end

section \<open>The context of a call\<close>

record 'w SkillCallbacks =
  cb_ContextInjector :: "Message \<Rightarrow> 'w \<Rightarrow> unit result \<times> 'w"
  cb_SetActiveSkill :: "(SkillMetadata \<Rightarrow> 'w \<Rightarrow> 'w) option"

record 'w ctx =
  cx_workingDir :: "string option"
  cx_skill :: "'w SkillCallbacks option"

definition Background :: "'w ctx" where
  "Background = \<lparr>cx_workingDir = None, cx_skill = None\<rparr>"

definition WithWorkingDir :: "'w ctx \<Rightarrow> string \<Rightarrow> 'w ctx" where
  "WithWorkingDir ctx dir = ctx\<lparr>cx_workingDir := Some dir\<rparr>"

definition WorkingDir :: "'w ctx \<Rightarrow> string" where
  "WorkingDir ctx = str_or_empty (cx_workingDir ctx)"

definition WithSkillCallbacks :: "'w ctx \<Rightarrow> 'w SkillCallbacks \<Rightarrow> 'w ctx" where
  "WithSkillCallbacks ctx callbacks = ctx\<lparr>cx_skill := Some callbacks\<rparr>"

definition GetSkillCallbacks :: "'w ctx \<Rightarrow> 'w SkillCallbacks option" where
  "GetSkillCallbacks ctx = cx_skill ctx"

section \<open>Tools\<close>

record 'w Tool =
  tl_Name :: string
  tl_Description :: string
  tl_Parameters :: json
  tl_RequiresApproval :: bool
  tl_Execute :: "json_object \<Rightarrow> 'w ctx \<Rightarrow> 'w \<Rightarrow> string result \<times> 'w"
  tl_Preview :: "(json_object \<Rightarrow> 'w ctx \<Rightarrow> 'w \<Rightarrow> string result) option"

type_synonym 'w ToolMap = "(string \<times> 'w Tool) list"

definition NewToolRegistry :: "'w ToolMap" where
  "NewToolRegistry = []"

definition registry_Add :: "'w Tool \<Rightarrow> 'w ToolMap \<Rightarrow> 'w ToolMap" where
  "registry_Add tool tools = AList.update (tl_Name tool) tool tools"

definition registry_GetTool :: "'w ToolMap \<Rightarrow> string \<Rightarrow> 'w Tool option" where
  "registry_GetTool tools name = map_of tools name"

definition registry_Execute ::
  "'w ToolMap \<Rightarrow> string \<Rightarrow> json_object \<Rightarrow> 'w ctx \<Rightarrow> 'w \<Rightarrow> string result \<times> 'w" where
  "registry_Execute tools name args ctx w =
     (case registry_GetTool tools name of
        None \<Rightarrow> (Inl (Errorf ''tool not found'' []), w)
      | Some tool \<Rightarrow> tl_Execute tool args ctx w)"

definition registry_Preview ::
  "'w ToolMap \<Rightarrow> string \<Rightarrow> json_object \<Rightarrow> 'w ctx \<Rightarrow> 'w \<Rightarrow> string result" where
  "registry_Preview tools name args ctx w =
     (case registry_GetTool tools name of
        None \<Rightarrow> Inr []
      | Some tool \<Rightarrow> (case tl_Preview tool of None \<Rightarrow> Inr [] | Some previewer \<Rightarrow> previewer args ctx w))"

text \<open>\<open>order\<close> is the order in which \<open>range\<close> visits the entries of the map.\<close>

definition registry_ToolDefinitions ::
  "((string \<times> 'w Tool) list \<Rightarrow> (string \<times> 'w Tool) list) \<Rightarrow> 'w ToolMap \<Rightarrow> ToolDef list" where
  "registry_ToolDefinitions order tools =
     map (\<lambda>(_, tool). \<lparr>td_Name = tl_Name tool, td_Description = tl_Description tool,
                       td_Parameters = tl_Parameters tool\<rparr>) (order tools)"

interpretation tool_store: named_store registry_Add registry_GetTool tl_Name
  by unfold_locales (simp add: registry_Add_def registry_GetTool_def update_conv')

text \<open>Every tool is stored once, under its own name.\<close>

definition wf_tools :: "'w ToolMap \<Rightarrow> bool" where
  "wf_tools tools \<longleftrightarrow> distinct (map fst tools) \<and> (\<forall>(n, t) \<in> set tools. tl_Name t = n)"

lemma wf_tools_Add: "wf_tools tools \<Longrightarrow> wf_tools (registry_Add tool tools)"
  by (auto simp: wf_tools_def registry_Add_def distinct_update dest!: set_update)

lemma registry_wf: "wf_tools (tool_store.put_all ts NewToolRegistry)"
  by (rule tool_store.put_all_keeps, rule wf_tools_Add) (simp_all add: wf_tools_def NewToolRegistry_def)

text \<open>
  The tool a call reaches is the one registered last under its name, and a name that was never
  registered is an error that changes nothing; the definitions sent to the model have the same
  names, each once, in whatever order the map is visited.
\<close>

theorem registry_dispatch:
  assumes "tools = tool_store.put_all ts NewToolRegistry" and "\<And>xs. mset (order xs) = mset xs"
  shows "registry_Execute tools name args ctx w =
      (case find (\<lambda>t. tl_Name t = name) (rev ts) of
         None \<Rightarrow> (Inl (Errorf ''tool not found'' []), w)
       | Some t \<Rightarrow> tl_Execute t args ctx w)"
    and "distinct (map td_Name (registry_ToolDefinitions order tools))"
    and "set (map td_Name (registry_ToolDefinitions order tools)) = tl_Name ` set ts"
proof -
  have get: "registry_GetTool tools name = find (\<lambda>t. tl_Name t = name) (rev ts)" for name
    unfolding assms(1) tool_store.get_put_all
    by (simp add: registry_GetTool_def NewToolRegistry_def split: option.split)
  then show "registry_Execute tools name args ctx w =
      (case find (\<lambda>t. tl_Name t = name) (rev ts) of
         None \<Rightarrow> (Inl (Errorf ''tool not found'' []), w)
       | Some t \<Rightarrow> tl_Execute t args ctx w)"
    by (simp add: registry_Execute_def)
  have wf: "distinct (map fst tools)" "\<forall>(n, t) \<in> set tools. tl_Name t = n"
    using registry_wf [of ts] assms(1) by (simp_all add: wf_tools_def)
  have "map td_Name (registry_ToolDefinitions order tools) = map (tl_Name \<circ> snd) (order tools)"
    by (simp add: registry_ToolDefinitions_def case_prod_beta comp_def)
  also have "mset \<dots> = mset (map fst tools)"
    using wf(2) by (simp add: assms(2)) (intro image_mset_cong, auto)
  finally have m: "mset (map td_Name (registry_ToolDefinitions order tools)) = mset (map fst tools)" .
  then show "distinct (map td_Name (registry_ToolDefinitions order tools))"
    using wf(1) mset_eq_imp_distinct_iff by blast
  have "n \<in> fst ` set tools \<longleftrightarrow> n \<in> tl_Name ` set ts" for n
  proof -
    have "n \<in> fst ` set tools \<longleftrightarrow> registry_GetTool tools n \<noteq> None"
      by (simp add: registry_GetTool_def map_of_eq_None_iff)
    also have "\<dots> \<longleftrightarrow> n \<in> tl_Name ` set ts" by (auto simp: get find_None_iff)
    finally show ?thesis .
  qed
  then show "set (map td_Name (registry_ToolDefinitions order tools)) = tl_Name ` set ts"
    using mset_eq_setD [OF m] by auto
qed

end
