(* ===== verification/Skills.thy ===== *)
theory Skills
  imports ToolRegistry
begin

text \<open>
  Package \<open>skill\<close> (skill.go, render.go, loader.go, registry.go) and the tool that invokes skills
  (internal/tool/builtin/skill.go): prompt templates read from files with a TOML header, stored by
  name, rendered with arguments and injected into the conversation. The TOML parser is a library
  the source calls and is the parameter \<open>toml\<close>. The lemmas show which arguments a line of words
  gives, how a skill file falls into header and body, and what the tool does on every branch.
\<close>

section \<open>skill.go and render.go\<close>

record Skill =
  sk_Name :: string
  sk_Description :: string
  sk_Content :: string
  sk_Path :: string
  sk_DisableModelInvocation :: bool
  sk_UserInvocable :: bool

definition FormatContent :: "Skill \<Rightarrow> string \<Rightarrow> string" where
  "FormatContent s renderedContent =
     sprintf (''[Skill: %s]'' @ nl # ''Base path: %s'' @ nl # nl # ''%s'') [sk_Name s, sk_Path s, renderedContent]"

abbreviation dquote :: char where "dquote \<equiv> CHR 0x22"
abbreviation squote :: char where "squote \<equiv> CHR 0x27"

text \<open>
  The scan over the characters: the arguments so far, the current one, and the quote that is open.
  A text of runes and its bytes are scanned alike, since the characters compared are ASCII.
\<close>

fun scan_arguments :: "string list \<Rightarrow> string \<Rightarrow> char option \<Rightarrow> string \<Rightarrow> string list" where
  "scan_arguments result current inQuote [] = (if current \<noteq> [] then result @ [current] else result)"
| "scan_arguments result current inQuote (r # rs) =
     (if inQuote = None \<and> (r = dquote \<or> r = squote) then scan_arguments result current (Some r) rs
      else if inQuote = Some r then scan_arguments result current None rs
      else if inQuote = None \<and> r = CHR '' ''
      then (if current \<noteq> [] then scan_arguments (result @ [current]) [] None rs
            else scan_arguments result [] None rs)
      else scan_arguments result (current @ [r]) inQuote rs)"

definition parseArguments :: "string \<Rightarrow> string list" where
  "parseArguments arguments = (if arguments = [] then [] else scan_arguments [] [] None arguments)"

text \<open>\<open>string(rune(n))\<close> for the code points below U+10000 (surrogates aside), in UTF-8.\<close>

definition rune_string :: "nat \<Rightarrow> string" where
  "rune_string n =
     (if n < 128 then [char_of n]
      else if n < 2048 then [char_of (192 + n div 64), char_of (128 + n mod 64)]
      else [char_of (224 + n div 4096), char_of (128 + n div 64 mod 64), char_of (128 + n mod 64)])"

definition placeholder :: "nat \<Rightarrow> string" where
  "placeholder i = CHR ''$'' # rune_string (48 + i)"

fun fill_positions :: "nat \<Rightarrow> string list \<Rightarrow> string \<Rightarrow> string" where
  "fill_positions i [] content = content"
| "fill_positions i (arg # args) content = fill_positions (Suc i) args (replace_all content (placeholder i) arg)"

text \<open>The error result is always nil.\<close>

definition Render :: "Skill \<Rightarrow> string \<Rightarrow> string result" where
  "Render s arguments =
     (let content = replace_all (sk_Content s) ''$ARGUMENTS'' arguments
      in Inr (fill_positions 0 (parseArguments arguments) content))"

section \<open>loader.go\<close>

record skillFrontmatter =
  fm_Name :: string
  fm_Description :: string
  fm_DisableModelInvocation :: bool
  fm_UserInvocable :: "bool option"

definition no_frontmatter :: skillFrontmatter where
  "no_frontmatter = \<lparr>fm_Name = [], fm_Description = [], fm_DisableModelInvocation = False, fm_UserInvocable = None\<rparr>"

definition parseFrontmatter :: "string \<Rightarrow> string \<times> string" where
  "parseFrontmatter text =
     (let content = trim_space text
      in if \<not> has_prefix content ''+++'' then ([], content)
         else let rest = trim_prefix content ''+++''
              in case index_of rest (nl # ''+++'') of
                   None \<Rightarrow> ([], content)
                 | Some endIndex \<Rightarrow>
                     (trim_space (take endIndex rest), trim_prefix (drop endIndex rest) (nl # ''+++'')))"

definition deriveNameFromPath :: "string \<Rightarrow> string" where
  "deriveNameFromPath path =
     (let dir = path_dir path; base = path_base path
      in if base = ''SKILL.md'' then path_base dir else trim_suffix base (path_ext base))"

definition loadSkillFile :: "(string \<Rightarrow> skillFrontmatter result) \<Rightarrow> fs \<Rightarrow> string \<Rightarrow> Skill result" where
  "loadSkillFile toml s path =
     result_bind (map_error (\<lambda>err. Errorf ''read skill: %w'' [AErr err]) (os_ReadFile s path)) (\<lambda>data.
     let (frontmatter, body) = parseFrontmatter data in
     result_bind
       (if frontmatter \<noteq> []
        then map_error (\<lambda>err. Errorf ''parse skill frontmatter: %w'' [AErr err]) (toml frontmatter)
        else Inr no_frontmatter) (\<lambda>fm.
     let name = (if fm_Name fm = [] then deriveNameFromPath path else fm_Name fm);
         userInvocable = (case fm_UserInvocable fm of None \<Rightarrow> True | Some b \<Rightarrow> b)
     in Inr \<lparr>sk_Name = name, sk_Description = fm_Description fm, sk_Content = trim_space body,
             sk_Path = path_dir path, sk_DisableModelInvocation = fm_DisableModelInvocation fm,
             sk_UserInvocable = userInvocable\<rparr>))"

section \<open>registry.go\<close>

record SkillRegistry =
  sr_skillsDir :: string
  sr_skills :: "(string \<times> Skill) list"

definition NewSkillRegistry :: "string \<Rightarrow> SkillRegistry" where
  "NewSkillRegistry skillsDir = \<lparr>sr_skillsDir = skillsDir, sr_skills = []\<rparr>"

definition store_skill :: "Skill \<Rightarrow> SkillRegistry \<Rightarrow> SkillRegistry" where
  "store_skill skill r = r\<lparr>sr_skills := AList.update (sk_Name skill) skill (sr_skills r)\<rparr>"

definition skills_Get :: "SkillRegistry \<Rightarrow> string \<Rightarrow> Skill option" where
  "skills_Get r name = map_of (sr_skills r) name"

text \<open>The file an entry of the directory stands for, if any: a directory with a SKILL.md, or a file \<open>*.md\<close>.\<close>

definition skill_file :: "fs \<Rightarrow> string \<Rightarrow> string \<times> node \<Rightarrow> string option" where
  "skill_file s dir entry =
     (case entry of (name, n) \<Rightarrow>
        if n = DirNode
        then (let skillPath = path_join [dir, name, ''SKILL.md'']
              in case os_Stat s skillPath of Inl _ \<Rightarrow> None | Inr _ \<Rightarrow> Some skillPath)
        else if has_suffix name ''.md'' then Some (path_join [dir, name]) else None)"

fun load_entries ::
  "(string \<Rightarrow> skillFrontmatter result) \<Rightarrow> fs \<Rightarrow> (string \<times> node) list \<Rightarrow> SkillRegistry \<Rightarrow> SkillRegistry" where
  "load_entries toml s [] r = r"
| "load_entries toml s (entry # entries) r =
     load_entries toml s entries
       (case skill_file s (sr_skillsDir r) entry of
          None \<Rightarrow> r
        | Some skillPath \<Rightarrow> (case loadSkillFile toml s skillPath of Inl _ \<Rightarrow> r | Inr skill \<Rightarrow> store_skill skill r))"

definition skills_Load :: "(string \<Rightarrow> skillFrontmatter result) \<Rightarrow> fs \<Rightarrow> SkillRegistry \<Rightarrow> unit result \<times> SkillRegistry" where
  "skills_Load toml s r =
     (let r1 = r\<lparr>sr_skills := []\<rparr>
      in if missing_dir s (sr_skillsDir r) then (Inr (), r1)
         else case os_ReadDir s (sr_skillsDir r) of
                Inl err \<Rightarrow> (Inl err, r1)
              | Inr entries \<Rightarrow> (Inr (), load_entries toml s entries r1))"

text \<open>\<open>order\<close> is the order in which \<open>range\<close> visits the map.\<close>

definition ModelInvocableSkills :: "((string \<times> Skill) list \<Rightarrow> (string \<times> Skill) list) \<Rightarrow> SkillRegistry \<Rightarrow> Skill list" where
  "ModelInvocableSkills order r =
     filter (\<lambda>skill. \<not> sk_DisableModelInvocation skill) (map snd (order (sr_skills r)))"

definition skill_line :: "Skill \<Rightarrow> string" where
  "skill_line s = sprintf (''- %s: %s'' @ [nl]) [sk_Name s, sk_Description s]"

definition skills_Summaries :: "((string \<times> Skill) list \<Rightarrow> (string \<times> Skill) list) \<Rightarrow> SkillRegistry \<Rightarrow> string" where
  "skills_Summaries order r =
     (let skills = ModelInvocableSkills order r
      in if skills = [] then [] else concat (map skill_line skills))"

interpretation skill_store: named_store store_skill skills_Get sk_Name
  by unfold_locales (simp add: store_skill_def skills_Get_def update_conv')

section \<open>builtin/skill.go\<close>

definition skill_Description :: "((string \<times> Skill) list \<Rightarrow> (string \<times> Skill) list) \<Rightarrow> SkillRegistry \<Rightarrow> string" where
  "skill_Description order r =
     ''Invokes a skill by name. Skills provide specialized workflows and instructions.'' @ nl # nl #
     (let modelSkills = ModelInvocableSkills order r
      in if modelSkills \<noteq> []
         then ''<available_skills>'' @ nl # concat (map skill_line modelSkills) @
              ''</available_skills>'' @ nl # nl #
              ''When a task matches a skill's description, invoke it to get detailed instructions.''
         else ''No skills are currently available.'')"

definition skill_Parameters :: json where
  "skill_Parameters =
     JObj [(''type'', JStr ''object''),
           (''properties'', JObj
             [(''name'', JObj [(''type'', JStr ''string''), (''description'', JStr ''Skill name from available_skills list'')]),
              (''arguments'', JObj [(''type'', JStr ''string''),
                                    (''description'', JStr ''Arguments to pass to the skill (optional)'')])]),
           (''required'', JArr [JStr ''name''])]"

definition skill_Execute :: "SkillRegistry \<Rightarrow> json_object \<Rightarrow> 'w ctx \<Rightarrow> 'w \<Rightarrow> string result \<times> 'w" where
  "skill_Execute registry args ctx w =
     (let name = str_or_empty (json_str (map_of args ''name''));
          arguments = str_or_empty (json_str (map_of args ''arguments''))
      in if name = [] then (Inl (Errorf ''skill name is required'' []), w)
         else case skills_Get registry name of
           None \<Rightarrow> (Inl (Errorf ''skill not found: %s'' [AStr name]), w)
         | Some skill \<Rightarrow>
             if sk_DisableModelInvocation skill
             then (Inl (Errorf (''skill '' @ squote # ''%s'' @ squote # '' can only be invoked by user with /%s'') [AStr name, AStr name]), w)
             else case Render skill arguments of
               Inl err \<Rightarrow> (Inl (Errorf ''failed to render skill: %w'' [AErr err]), w)
             | Inr rendered \<Rightarrow>
                 (case GetSkillCallbacks ctx of
                    None \<Rightarrow> (Inl (Errorf ''skill execution not supported in this context'' []), w)
                  | Some callbacks \<Rightarrow>
                      let w1 = (case cb_SetActiveSkill callbacks of None \<Rightarrow> w
                                | Some setActive \<Rightarrow> setActive \<lparr>sm_Name = sk_Name skill, sm_Path = sk_Path skill\<rparr> w);
                          msg = text_message RoleUser (FormatContent skill rendered) 0
                      in case cb_ContextInjector callbacks msg w1 of
                           (Inl err, w2) \<Rightarrow> (Inl (Errorf ''failed to inject skill content: %w'' [AErr err]), w2)
                         | (Inr _, w2) \<Rightarrow>
                             (Inr (sprintf (''Skill '' @ squote # ''%s'' @ squote # '' loaded. Follow the instructions in the message above.'') [name]), w2)))"

definition SkillTool :: "((string \<times> Skill) list \<Rightarrow> (string \<times> Skill) list) \<Rightarrow> SkillRegistry \<Rightarrow> 'w Tool" where
  "SkillTool order registry =
     \<lparr>tl_Name = ''skill'', tl_Description = skill_Description order registry, tl_Parameters = skill_Parameters,
      tl_RequiresApproval = False, tl_Execute = skill_Execute registry, tl_Preview = None\<rparr>"

definition RegisterSkill ::
  "((string \<times> Skill) list \<Rightarrow> (string \<times> Skill) list) \<Rightarrow> SkillRegistry \<Rightarrow> 'w ToolMap \<Rightarrow> 'w ToolMap" where
  "RegisterSkill order skillsRegistry registry = registry_Add (SkillTool order skillsRegistry) registry"

section \<open>Arguments\<close>

definition plain_word :: "string \<Rightarrow> bool" where
  "plain_word w \<longleftrightarrow> list_all (\<lambda>c. c \<noteq> dquote \<and> c \<noteq> squote \<and> c \<noteq> CHR '' '') w"

definition quote_word :: "string \<Rightarrow> string" where
  "quote_word w = (if plain_word w then w else dquote # w @ [dquote])"

lemma scan_plain:
  "plain_word w \<Longrightarrow> scan_arguments result current None (w @ rest) = scan_arguments result (current @ w) None rest"
  by (induction w arbitrary: current) (auto simp: plain_word_def)

lemma scan_quoted:
  "q \<notin> set w \<Longrightarrow> scan_arguments result current (Some q) (w @ q # rest) = scan_arguments result (current @ w) None rest"
  by (induction w arbitrary: current) auto

lemma scan_word:
  "dquote \<notin> set w \<Longrightarrow> scan_arguments result current None (quote_word w @ rest) = scan_arguments result (current @ w) None rest"
  using scan_quoted [of dquote w] by (simp add: quote_word_def scan_plain)

lemma scan_words:
  "list_all (\<lambda>w. w \<noteq> [] \<and> dquote \<notin> set w) ws \<Longrightarrow>
     scan_arguments result [] None (join '' '' (map quote_word ws)) = result @ ws"
proof (induction ws arbitrary: result)
  case (Cons w ws)
  then show ?case
    using scan_word [of w result "[]"] scan_word [of w result "[]" "[]"] by (cases ws) auto
qed simp

lemma parse_words:
  "list_all (\<lambda>w. w \<noteq> [] \<and> dquote \<notin> set w) ws \<Longrightarrow> parseArguments (join '' '' (map quote_word ws)) = ws"
  using scan_words [of ws "[]"] by (cases "join '' '' (map quote_word ws) = []") (auto simp: parseArguments_def)

text \<open>
  What a caller writes is what the template receives: words put in double quotes where they need
  it and joined by spaces are read back as the same arguments, if none is empty or holds a double quote.
\<close>

theorem parseArguments_words:
  assumes "list_all (\<lambda>w. w \<noteq> [] \<and> dquote \<notin> set w) ws"
  shows "parseArguments (join '' '' (map quote_word ws)) = ws"
  using parse_words [OF assms] .

theorem parseArguments_words_witness:
  "parseArguments (''fix '' @ dquote # ''my file.go'' @ dquote # '' now'') = [''fix'', ''my file.go'', ''now'']"
proof -
  have "join '' '' (map quote_word [''fix'', ''my file.go'', ''now'']) = ''fix '' @ dquote # ''my file.go'' @ dquote # '' now''"
    by code_simp
  then show ?thesis using parseArguments_words [of "[''fix'', ''my file.go'', ''now'']"] by simp
qed

text \<open>
  An empty argument in quotes is dropped, which shifts the later ones to the wrong placeholder, and an
  argument that holds a placeholder is substituted again.
\<close>

lemma empty_argument_dropped:
  "parseArguments (dquote # dquote # '' b'') = [''b'']"
  by code_simp

lemma argument_substituted_again:
  "Render \<lparr>sk_Name = ''s'', sk_Description = [], sk_Content = ''$0'', sk_Path = [],
           sk_DisableModelInvocation = False, sk_UserInvocable = True\<rparr> ''$1 b'' = Inr ''b''"
  by code_simp

section \<open>Header and body\<close>

lemma index_of_first:
  "(\<And>i. i < length h \<Longrightarrow> \<not> has_prefix (drop i (h @ p @ r)) p) \<Longrightarrow> index_of (h @ p @ r) p = Some (length h)"
proof (induction h)
  case Nil
  have "has_prefix s p \<Longrightarrow> index_of s p = Some 0" for s by (cases s) (auto simp: has_prefix_def)
  then show ?case by simp
next
  case (Cons x h)
  have "\<not> has_prefix (x # h @ p @ r) p" using Cons.prems [of 0] by simp
  moreover have "index_of (h @ p @ r) p = Some (length h)"
    using Cons.prems [of "Suc _"] by (intro Cons.IH) simp
  ultimately show ?case by simp
qed

text \<open>The header ends at the first line that begins with the mark.\<close>

lemma header_end:
  assumes "\<not> sublist (nl # ''+++'') h"
  shows "index_of (h @ (nl # ''+++'') @ r) (nl # ''+++'') = Some (length h)"
proof (rule index_of_first)
  fix i assume i: "i < length h"
  show "\<not> has_prefix (drop i (h @ (nl # ''+++'') @ r)) (nl # ''+++'')"
  proof
    assume "has_prefix (drop i (h @ (nl # ''+++'') @ r)) (nl # ''+++'')"
    then obtain t where t: "drop i h @ nl # ''+++'' @ r = nl # ''+++'' @ t"
      using i by (auto simp: has_prefix_iff)
    obtain b where b: "drop i h = nl # b" using t i by (cases "drop i h") auto
    then have "b @ nl # ''+++'' @ r = ''+++'' @ t" using t by simp
    then have "\<exists>c. b = ''+++'' @ c"
      by (auto simp: Cons_eq_append_conv append_eq_Cons_conv)
    then obtain c where "drop i h = (nl # ''+++'') @ c" using b by auto
    then have "h = take i h @ (nl # ''+++'') @ c" by (metis append_take_drop_id)
    then show False using assms by (metis sublist_appendI)
  qed
qed

lemma trim_space_right: "trim_space (rev (dropWhile is_space (rev r))) = trim_space r"
proof (induction r rule: rev_induct)
  case (snoc x r)
  have "dropWhile is_space r = [] \<Longrightarrow> is_space x \<Longrightarrow> dropWhile is_space (r @ [x]) = []"
    by (auto simp: dropWhile_eq_Nil_conv dest: set_dropWhileD)
  then have "is_space x \<Longrightarrow> trim_space (r @ [x]) = trim_space r"
    by (cases "dropWhile is_space r = []") (auto simp: trim_space_def dropWhile_append dest: set_dropWhileD)
  then show ?case using snoc by auto
qed simp

lemma trim_space_append:
  "s \<noteq> [] \<Longrightarrow> \<not> is_space (hd s) \<Longrightarrow> \<exists>t. trim_space t = trim_space r \<and> trim_space (s @ nl # ''+++'' @ r) = s @ nl # ''+++'' @ t"
proof -
  assume s: "s \<noteq> []" "\<not> is_space (hd s)"
  let ?t = "rev (dropWhile is_space (rev r))"
  have "dropWhile is_space (s @ nl # ''+++'' @ r) = s @ nl # ''+++'' @ r" using s by (cases s) auto
  then have "trim_space (s @ nl # ''+++'' @ r) = s @ nl # ''+++'' @ ?t"
    by (simp add: trim_space_def dropWhile_append is_space_def)
  then show ?thesis using trim_space_right [of r] by blast
qed

lemma trim_space_Cons: "is_space x \<Longrightarrow> trim_space (x # s) = trim_space s"
  by (simp add: trim_space_def)

lemma parseFrontmatter_mark:
  assumes "trim_space text = ''+++'' @ h @ mark @ t" and "index_of (h @ mark @ t) mark = Some (length h)"
    and mark: "mark = nl # ''+++''"
  shows "parseFrontmatter text = (trim_space h, t)"
proof -
  have "trim_prefix (''+++'' @ h @ mark @ t) ''+++'' = h @ mark @ t" "trim_prefix (mark @ t) mark = t"
    by (simp_all add: trim_prefix_def has_prefix_def)
  then show ?thesis
    unfolding parseFrontmatter_def Let_def assms(1) mark [symmetric] by (simp add: assms(2) del: append_Cons)
qed

lemma parseFrontmatter_split:
  assumes "\<not> sublist (nl # ''+++'') (nl # header)"
  shows "\<exists>t. parseFrontmatter (''+++'' @ nl # header @ nl # ''+++'' @ body) = (trim_space header, t) \<and>
    trim_space t = trim_space body"
proof -
  have "\<not> is_space (hd (''+++'' @ nl # header))" by (simp add: is_space_def)
  then obtain t where t: "trim_space t = trim_space body"
    "trim_space ((''+++'' @ nl # header) @ nl # ''+++'' @ body) = (''+++'' @ nl # header) @ nl # ''+++'' @ t"
    using trim_space_append [of "''+++'' @ nl # header" body] by blast
  have "trim_space (''+++'' @ nl # header @ nl # ''+++'' @ body) = ''+++'' @ (nl # header) @ (nl # ''+++'') @ t"
    using t(2) by simp
  from parseFrontmatter_mark [OF this header_end [OF assms] refl] t(1) show ?thesis
    by (simp add: trim_space_Cons is_space_def)
qed

text \<open>
  A skill file is read as its header, parsed as TOML, and its body without the space around it,
  as long as no line of the header begins with the mark; a file of another shape is all body. The
  name falls back to the one the path gives, and a skill is invocable by the user unless it says not.
\<close>

theorem loadSkillFile_sections:
  assumes "os_ReadFile s path = Inr (''+++'' @ nl # header @ nl # ''+++'' @ body)"
    and "\<not> sublist (nl # ''+++'') (nl # header)" and "trim_space header \<noteq> []"
    and "toml (trim_space header) = Inr fm"
  shows "loadSkillFile toml s path =
    Inr \<lparr>sk_Name = (if fm_Name fm = [] then deriveNameFromPath path else fm_Name fm),
         sk_Description = fm_Description fm, sk_Content = trim_space body, sk_Path = path_dir path,
         sk_DisableModelInvocation = fm_DisableModelInvocation fm,
         sk_UserInvocable = (fm_UserInvocable fm \<noteq> Some False)\<rparr>"
proof -
  obtain t where t: "parseFrontmatter (''+++'' @ nl # header @ nl # ''+++'' @ body) = (trim_space header, t)"
    "trim_space t = trim_space body" using parseFrontmatter_split [OF assms(2)] by blast
  show ?thesis
    unfolding loadSkillFile_def assms(1) map_error_def sum.case result_bind_simps t(1) Let_def prod.case
    using assms(3,4) t(2) by (simp split: option.split)
qed

definition greet_header :: string where
  "greet_header = ''name = '' @ dquote # ''greet'' @ [dquote]"

definition greet_fs :: fs where
  "greet_fs = \<lparr>nodes = [(''/k'', DirNode), (''/k/g.md'', FileNode (''+++'' @ nl # greet_header @ nl # ''+++'' @ nl # ''Say $0''))],
               faults = []\<rparr>"

definition greet_toml :: "string \<Rightarrow> skillFrontmatter result" where
  "greet_toml text = (if text = greet_header then Inr (no_frontmatter\<lparr>fm_Name := ''greet''\<rparr>) else Inl (Errorf ''toml'' []))"

theorem loadSkillFile_sections_witness:
  "loadSkillFile greet_toml greet_fs ''/k/g.md'' =
     Inr \<lparr>sk_Name = ''greet'', sk_Description = [], sk_Content = ''Say $0'', sk_Path = ''/k'',
          sk_DisableModelInvocation = False, sk_UserInvocable = True\<rparr>"
proof -
  have sub: "\<not> sublist (nl # ''+++'') (nl # greet_header)" by code_simp
  have "os_ReadFile greet_fs ''/k/g.md'' = Inr (''+++'' @ nl # greet_header @ nl # ''+++'' @ nl # ''Say $0'')"
    by code_simp
  moreover have "trim_space greet_header \<noteq> []" "greet_toml (trim_space greet_header) = Inr (no_frontmatter\<lparr>fm_Name := ''greet''\<rparr>)"
    by code_simp+
  ultimately have "loadSkillFile greet_toml greet_fs ''/k/g.md'' =
      Inr \<lparr>sk_Name = (if ''greet'' = [] then deriveNameFromPath ''/k/g.md'' else ''greet''), sk_Description = [],
           sk_Content = trim_space (nl # ''Say $0''), sk_Path = path_dir ''/k/g.md'',
           sk_DisableModelInvocation = False, sk_UserInvocable = True\<rparr>"
    using loadSkillFile_sections [OF _ sub] by (simp add: no_frontmatter_def)
  moreover have "trim_space (nl # ''Say $0'') = ''Say $0''" "path_dir ''/k/g.md'' = ''/k''" by code_simp+
  ultimately show ?thesis by simp
qed

section \<open>The registry\<close>

definition loaded :: "(string \<Rightarrow> skillFrontmatter result) \<Rightarrow> fs \<Rightarrow> string \<Rightarrow> string \<times> node \<Rightarrow> Skill option" where
  "loaded toml s dir entry =
     (case skill_file s dir entry of None \<Rightarrow> None
      | Some path \<Rightarrow> (case loadSkillFile toml s path of Inl _ \<Rightarrow> None | Inr skill \<Rightarrow> Some skill))"

lemma store_skill_dir [simp]: "sr_skillsDir (store_skill skill r) = sr_skillsDir r"
  by (simp add: store_skill_def)

lemma skills_Get_empty [simp]: "skills_Get (r\<lparr>sr_skills := []\<rparr>) name = None"
  by (simp add: skills_Get_def)

lemma load_entries_put:
  "load_entries toml s entries r =
     skill_store.put_all (List.map_filter (loaded toml s (sr_skillsDir r)) entries) r"
  by (induction entries arbitrary: r)
    (auto simp: loaded_def List.map_filter_def split: option.splits sum.splits)

text \<open>
  C37: after a load, a lookup finds the skill of that name that comes last in the order of the
  directory, and nothing else: a file that cannot be read or parsed is skipped, and what an earlier
  load had stored is gone.
\<close>

theorem skills_Load_Get:
  assumes "skills_Load toml s r = (Inr (), r')"
  shows "skills_Get r' name =
    (if missing_dir s (sr_skillsDir r) then None
     else case os_ReadDir s (sr_skillsDir r) of Inl _ \<Rightarrow> None
       | Inr entries \<Rightarrow>
           find (\<lambda>skill. sk_Name skill = name) (rev (List.map_filter (loaded toml s (sr_skillsDir r)) entries)))"
  using assms
  by (auto simp: skills_Load_def Let_def load_entries_put skill_store.get_put_all
      split: if_splits sum.splits option.split)

theorem skills_Load_Get_witness:
  "map_option sk_Content (skills_Get (snd (skills_Load greet_toml greet_fs (NewSkillRegistry ''/k''))) ''greet'') = Some ''Say $0''"
proof -
  have load: "skills_Load greet_toml greet_fs (NewSkillRegistry ''/k'') =
      (Inr (), snd (skills_Load greet_toml greet_fs (NewSkillRegistry ''/k'')))" by code_simp
  have "\<not> missing_dir greet_fs (sr_skillsDir (NewSkillRegistry ''/k''))"
    "map_option sk_Content (case os_ReadDir greet_fs (sr_skillsDir (NewSkillRegistry ''/k'')) of Inl _ \<Rightarrow> None
       | Inr entries \<Rightarrow> find (\<lambda>skill. sk_Name skill = ''greet'')
           (rev (List.map_filter (loaded greet_toml greet_fs (sr_skillsDir (NewSkillRegistry ''/k''))) entries))) = Some ''Say $0''"
    by code_simp+
  then show ?thesis by (simp only: skills_Load_Get [OF load] if_False)
qed

end
