(* ===== verification/Runner.thy ===== *)
theory Runner
  imports AgentLoop Sessions Skills
begin

text \<open>
  internal/agent/runner.go: how a run is put together from the session store, the conversation
  window, the prompt, the active skill and the project instructions, and how its events are
  forwarded; and the tool executor that the agent builds from the tool registry (tools.go), whose
  skill callbacks reach back into the window. The lemmas show that a run starts on the file its
  session owns, that no event is lost or added on the way out, and what an invocation of a skill
  by the model does to the conversation.
\<close>

section \<open>The executor of a run\<close>

text \<open>\<open>tool.ToolExecutor\<close>: definitions, execution and preview, given the working directory of the run.\<close>

record executor =
  xi_tools :: "ToolDef list"
  xi_execute :: "string \<Rightarrow> string \<Rightarrow> json_object \<Rightarrow> world \<Rightarrow> string result \<times> world"
  xi_preview :: "string \<Rightarrow> string \<Rightarrow> json_object \<Rightarrow> world \<Rightarrow> string result"

text \<open>The callbacks of \<open>executeTools\<close>, and the context \<open>executeToolCall\<close> builds.\<close>

definition skill_callbacks :: "env \<Rightarrow> world SkillCallbacks" where
  "skill_callbacks en =
     \<lparr>cb_ContextInjector = add_message en,
      cb_SetActiveSkill = Some (\<lambda>skill w. w\<lparr>wd_window := SetActiveSkill (Some skill) (wd_window w)\<rparr>)\<rparr>"

definition base_context :: "string \<Rightarrow> 'w ctx" where
  "base_context workingDir = (if workingDir \<noteq> [] then WithWorkingDir Background workingDir else Background)"

definition call_context :: "env \<Rightarrow> string \<Rightarrow> world ctx" where
  "call_context en workingDir = WithSkillCallbacks (base_context workingDir) (skill_callbacks en)"

definition registry_executor ::
  "env \<Rightarrow> ((string \<times> world Tool) list \<Rightarrow> (string \<times> world Tool) list) \<Rightarrow> world ToolMap \<Rightarrow> executor" where
  "registry_executor en order tools =
     \<lparr>xi_tools = registry_ToolDefinitions order tools,
      xi_execute = (\<lambda>wd name args w. registry_Execute tools name args (call_context en wd) w),
      xi_preview = (\<lambda>wd name args w. registry_Preview tools name args (base_context wd) w)\<rparr>"

definition with_executor :: "executor \<Rightarrow> (ToolDef list \<Rightarrow> string) \<Rightarrow> env \<Rightarrow> env" where
  "with_executor x marshal_tools en =
     en\<lparr>en_tools := xi_tools x, en_tools_text := marshal_tools (xi_tools x),
        en_execute := xi_execute x, en_preview := xi_preview x\<rparr>"

section \<open>runner.go\<close>

text \<open>The fields of \<open>RunConfig\<close> that only the runner reads extend those the loop reads.\<close>

record StartConfig = RunConfig +
  sc_Prompt :: string
  sc_SessionID :: string
  sc_AgentSystemPrompt :: string
  sc_ProviderEndpoint :: string
  sc_ProviderHTTPTimeout :: int
  sc_Skill :: "Skill option"
  sc_SkillContent :: string
  sc_Tools :: "executor option"

definition with_skill :: "StartConfig \<Rightarrow> Window \<Rightarrow> string \<Rightarrow> Window \<times> string" where
  "with_skill cfg cw prompt =
     (case sc_Skill cfg of
        Some skill \<Rightarrow>
          if sc_SkillContent cfg \<noteq> []
          then (SetActiveSkill (Some \<lparr>sm_Name = sk_Name skill, sm_Path = sk_Path skill\<rparr>) cw,
                sprintf (''%s'' @ nl # nl # ''---'' @ nl # nl # ''%s'') [FormatContent skill (sc_SkillContent cfg), prompt])
          else (cw, prompt)
      | None \<Rightarrow> (cw, prompt))"

definition with_instructions :: "StartConfig \<Rightarrow> fs \<Rightarrow> string \<Rightarrow> string" where
  "with_instructions cfg s prompt =
     (if rc_WorkingDir cfg \<noteq> []
      then (case os_ReadFile s (path_join [rc_WorkingDir cfg, ''AGENTS.md'']) of
              Inr content \<Rightarrow>
                sprintf (''<project-instructions>'' @ nl # ''%s'' @ nl # ''</project-instructions>'' @ nl # nl # ''%s'')
                  [trim_space content, prompt]
            | Inl err \<Rightarrow> prompt)
      else prompt)"

definition open_session :: "string \<Rightarrow> string \<Rightarrow> StartConfig \<Rightarrow> fs \<Rightarrow> string result \<times> fs" where
  "open_session dataDir fresh cfg s =
     (if sc_SessionID cfg = []
      then (case session_Create dataDir fresh s of
              (Inl err, s1) \<Rightarrow> (Inl err, s1)
            | (Inr (newSessionID, _), s1) \<Rightarrow> (Inr newSessionID, s1))
      else (case session_Ensure dataDir (sc_SessionID cfg) s of
              (Inl err, s1) \<Rightarrow> (Inl err, s1)
            | (Inr _, s1) \<Rightarrow> (Inr (sc_SessionID cfg), s1)))"

text \<open>The part of \<open>StartRun\<close> before the loop is started: the session, the window and the prompt.\<close>

definition prepare_run :: "string \<Rightarrow> string \<Rightarrow> StartConfig \<Rightarrow> fs \<Rightarrow> (string \<times> Window \<times> string) result \<times> fs" where
  "prepare_run dataDir fresh cfg s =
     (case open_session dataDir fresh cfg s of
        (Inl err, s1) \<Rightarrow> (Inl err, s1)
      | (Inr sessionID, s1) \<Rightarrow>
          (case service_NewWindow dataDir sessionID s1 of
             (Inl err, s2) \<Rightarrow> (Inl err, s2)
           | (Inr cw, s2) \<Rightarrow>
               let cw1 = (if sc_AgentSystemPrompt cfg \<noteq> [] then SetAgentSystemPrompt (sc_AgentSystemPrompt cfg) cw else cw);
                   (cw2, prompt) = with_skill cfg cw1 (sc_Prompt cfg)
               in (Inr (sessionID, cw2, with_instructions cfg s2 prompt), s2)))"

text \<open>The goroutine between the event channel of the loop and the one handed out.\<close>

fun forward_events :: "string \<Rightarrow> string \<Rightarrow> Event list \<Rightarrow> Event list" where
  "forward_events sessionID agentName [] = []"
| "forward_events sessionID agentName (e # es) =
     (if ev_Type e = EvtRunStarted then e\<lparr>ev_SessionID := sessionID, ev_AgentName := agentName\<rparr> else e) #
     (if ev_Type e = EvtRunCompleted \<or> ev_Type e = EvtRunCancelled \<or> ev_Type e = EvtRunFailed then []
      else forward_events sessionID agentName es)"

text \<open>
  \<open>StartRun\<close> with the run it starts: \<open>fuel\<close> turns of the loop on the commands of \<open>ch\<close>. The result
  is the error, or the events that come out, the state at the end and how the run stands.
\<close>

definition runner_StartRun ::
  "nat \<Rightarrow> env \<Rightarrow> executor \<Rightarrow> (ToolDef list \<Rightarrow> string) \<Rightarrow> string \<Rightarrow> string \<Rightarrow> StartConfig \<Rightarrow> string \<Rightarrow> fs \<Rightarrow> channel \<Rightarrow>
     (Event list \<times> world \<times> run_status) result" where
  "runner_StartRun fuel en registered marshal_tools dataDir fresh cfg runID s ch =
     (case prepare_run dataDir fresh cfg s of
        (Inl err, _) \<Rightarrow> Inl err
      | (Inr (sessionID, cw, prompt), s1) \<Rightarrow>
          let toolExecutor = (case sc_Tools cfg of None \<Rightarrow> registered | Some x \<Rightarrow> x)
          in (case agent_run fuel (with_executor toolExecutor marshal_tools en) (RunConfig.truncate cfg) runID prompt
                     \<lparr>wd_window = cw, wd_fs = s1\<rparr> ch of
                (evs, w', st) \<Rightarrow> Inr (forward_events sessionID (rc_AgentName cfg) evs, w', st)))"

section \<open>Events on the way out\<close>

definition starts :: "Event \<Rightarrow> bool" where
  "starts e \<longleftrightarrow> ev_Type e = EvtRunStarted"

lemma execute_each_no_start:
  "execute_each en cfg runID calls w = (r, w', evs) \<Longrightarrow> e \<in> set evs \<Longrightarrow> \<not> starts e"
proof (induction calls arbitrary: w r w' evs)
  case (Cons call calls)
  then show ?case
    by (auto simp: executeToolCall_def Let_def starts_def split: prod.splits sum.splits if_splits)
qed simp

lemma executeTools_no_start:
  "executeTools en cfg runID calls w = (r, w', evs) \<Longrightarrow> list_all (\<lambda>e. \<not> starts e) evs"
  using execute_each_no_start
  by (fastforce simp: executeTools_def list_all_iff starts_def split: prod.splits sum.splits)

lemma turn_no_start:
  "agent_turn en cfg runID turn w ch = (evs, w', ch', st) \<Longrightarrow> list_all (\<lambda>e. \<not> starts e) evs"
  by (cases rule: agent_turn_cases) (auto simp: starts_def dest!: executeTools_no_start)

lemma turns_no_start:
  "agent_turns fuel en cfg runID turn w ch = (evs, w', st) \<Longrightarrow> list_all (\<lambda>e. \<not> starts e) evs"
  by (induction fuel arbitrary: turn w ch evs w' st)
    (auto dest!: turn_no_start split: prod.splits option.splits)

lemma forward_prefix:
  "list_all (\<lambda>e. \<not> terminal e \<and> \<not> starts e) es \<Longrightarrow> forward_events sid name (es @ ls) = es @ forward_events sid name ls"
  by (induction es) (auto simp: terminal_def starts_def)

lemma forward_run:
  assumes "agent_run fuel en cfg runID prompt w ch = (evs, w', st)"
  shows "forward_events sid name evs = (event EvtRunStarted runID)\<lparr>ev_SessionID := sid, ev_AgentName := name\<rparr> # tl evs"
proof -
  obtain evs1 w1 where t: "agent_turns fuel en cfg runID 0 (run_start en cfg prompt w) ch = (evs1, w1, st)"
    and evs: "evs = event EvtRunStarted runID # evs1"
    using assms by (auto simp: agent_run_def split: prod.splits)
  note ns = turns_no_start [OF t]
  have "forward_events sid name evs1 = evs1"
  proof (cases "st = Finished")
    case True
    then obtain mid l where m: "evs1 = mid @ [l]" "terminal l" "list_all (\<lambda>e. \<not> terminal e) mid"
      using turns_events [OF t] by auto
    then have "forward_events sid name (mid @ [l]) = mid @ forward_events sid name [l]"
      using ns by (intro forward_prefix) (auto simp: list_all_iff)
    then show ?thesis using m ns by (auto simp: starts_def)
  next
    case False
    then have "list_all (\<lambda>e. \<not> terminal e \<and> \<not> starts e) evs1"
      using turns_events [OF t] ns by (auto simp: list_all_iff)
    from forward_prefix [OF this, of sid name "[]"] show ?thesis by simp
  qed
  then show ?thesis by (simp add: evs)
qed

section \<open>The session a run works on\<close>

lemma MkdirAll_made:
  assumes "os_MkdirAll s p = (Inr (), s')" and "p = path_clean p"
  shows "is_dir s' p"
proof (cases "elements p = []")
  case True
  then have "p = [slash] \<or> p = ''.''" using assms(2) by (auto simp: path_clean_def split: if_splits)
  then show ?thesis by (auto simp: is_dir_def)
next
  case False
  then have "path_clean p = render_path (is_abs p) (take (length (elements p)) (elements p))"
    by (simp add: render_path_def path_clean_def)
  then have "p = render_path (is_abs p) (take (length (elements p)) (elements p))" using assms(2) by (simp only:)
  then have "p \<in> set (dir_chain p)"
    using False by (auto simp: dir_chain_def intro!: image_eqI [of _ _ "length (elements p)"] simp: Suc_le_eq)
  then show ?thesis using assms(1) mkdir_each_made by (auto simp: os_MkdirAll_def is_dir_def)
qed

lemma join_take_length: "length (join sep (take n es)) \<le> length (join sep es)"
proof -
  have "es = take n es @ drop n es" by simp
  then show ?thesis
    by (cases "take n es = []"; cases "drop n es = []")
      (metis join_append le_add1 length_append append_Nil2 join.simps(1) list.size(3) zero_le order_refl)+
qed

lemma dir_chain_length: "p \<in> set (dir_chain d) \<Longrightarrow> length p \<le> length (render_path (is_abs d) (elements d))"
  by (auto simp: dir_chain_def render_path_def join_take_length)

lemma MkdirAll_below:
  assumes "os_MkdirAll s d = (r, s')" and "d \<noteq> []" and "plain_name n"
  shows "lookup s' (path_join [d, n]) = lookup s (path_join [d, n])"
proof -
  have "length (render_path (is_abs d) (elements d)) < length (path_join [d, n])"
    using assms(3) path_join_name [OF assms(2,3)]
    by (cases "elements d = []") (auto simp: render_path_def join_append plain_name_def)
  then have "path_join [d, n] \<notin> set (dir_chain d)" using dir_chain_length [of "path_join [d, n]" d] by auto
  then show ?thesis using assms(1) mkdir_each_only by (simp add: os_MkdirAll_def)
qed

lemma instructions_suffix: "\<exists>pre. with_instructions cfg s prompt = pre @ prompt"
proof (cases "rc_WorkingDir cfg \<noteq> [] \<and> (\<exists>c. os_ReadFile s (path_join [rc_WorkingDir cfg, ''AGENTS.md'']) = Inr c)")
  case True
  then obtain c where c: "rc_WorkingDir cfg \<noteq> []" "os_ReadFile s (path_join [rc_WorkingDir cfg, ''AGENTS.md'']) = Inr c" by blast
  show ?thesis
    by (rule exI [of _ "''<project-instructions>'' @ nl # trim_space c @ nl # ''</project-instructions>'' @ [nl, nl]"])
      (simp add: with_instructions_def c)
next
  case False
  then have "with_instructions cfg s prompt = [] @ prompt"
    by (auto simp: with_instructions_def split: sum.split)
  then show ?thesis by blast
qed

lemma skill_suffix: "with_skill cfg cw prompt = (cw', prompt') \<Longrightarrow> \<exists>pre. prompt' = pre @ prompt"
proof (cases "sc_Skill cfg")
  case (Some skill)
  assume w: "with_skill cfg cw prompt = (cw', prompt')"
  show ?thesis
  proof (cases "sc_SkillContent cfg \<noteq> []")
    case True
    then have "prompt' = (FormatContent skill (sc_SkillContent cfg) @ nl # nl # ''---'' @ [nl, nl]) @ prompt"
      using w Some by (simp add: with_skill_def)
    then show ?thesis by blast
  next
    case False
    then show ?thesis using w Some by (simp add: with_skill_def)
  qed
qed (simp add: with_skill_def)

lemma has_suffix_iff: "has_suffix s p \<longleftrightarrow> (\<exists>t. s = t @ p)"
  by (auto simp: has_suffix_def) (metis append_take_drop_id)

text \<open>The files of a session that a run may work on.\<close>

definition session_ready :: "string \<Rightarrow> string \<Rightarrow> fs \<Rightarrow> bool" where
  "session_ready dataDir sid s \<longleftrightarrow> faults s = [] \<and> is_dir s (sessionDir dataDir) \<and>
     lookup s (sessionPath dataDir sid) \<noteq> Some DirNode"

lemma MkdirAll_ready:
  assumes "os_MkdirAll s (sessionDir dataDir) = (Inr (), s1)" and "faults s = []" and "plain_id sid"
  shows "faults s1 = []" and "is_dir s1 (sessionDir dataDir)"
    and "lookup s1 (sessionPath dataDir sid) = lookup s (sessionPath dataDir sid)"
  using os_MkdirAll_faults [OF assms(1)] MkdirAll_made [OF assms(1)] MkdirAll_below [OF assms(1) _ plain_files(1) [OF assms(3)]]
    assms(2) sessionDir_clean [of dataDir] by (simp_all add: sessionPath_def)

lemma put_ready:
  "faults s = [] \<Longrightarrow> is_dir s (sessionDir dataDir) \<Longrightarrow> lookup s (sessionPath dataDir sid) \<noteq> Some DirNode \<Longrightarrow>
     session_ready dataDir sid (put_node (sessionPath dataDir sid) (FileNode d) s)"
  by (auto simp: session_ready_def is_dir_put)

lemma open_session_ready:
  assumes "open_session dataDir fresh cfg s = (Inr sid, s1)" and "faults s = []" and "plain_id sid"
    and "lookup s (sessionPath dataDir sid) \<noteq> Some DirNode"
  shows "session_ready dataDir sid s1"
proof -
  obtain s0 where m: "os_MkdirAll s (sessionDir dataDir) = (Inr (), s0)"
    using assms(1)
    by (auto simp: open_session_def session_Create_def session_Ensure_def split: if_splits prod.splits sum.splits)
  note r = MkdirAll_ready [OF m assms(2,3)]
  have "s1 = put_node (sessionPath dataDir sid) (FileNode []) s0 \<or> s1 = s0"
    using assms(1) m
    by (auto simp: open_session_def session_Create_def session_Ensure_def Let_def split: if_splits sum.splits option.splits
        dest!: os_CreateExcl_ok os_CreateOpen_ok)
  then show ?thesis using r assms(4) put_ready [OF r(1,2)] by (auto simp: session_ready_def)
qed

text \<open>
  C26: a run starts in good order: the window it is given reads and writes the very file the session
  store made for the session, in a directory that exists, with nothing in memory yet; and the prompt
  the model gets ends with what the user wrote.
\<close>

theorem prepared_run_healthy:
  assumes "prepare_run dataDir fresh cfg s = (Inr (sid, cw, prompt), s')" and "faults s = []" and "plain_id sid"
    and "lookup s (sessionPath dataDir sid) \<noteq> Some DirNode"
  shows "healthy \<lparr>wd_window = cw, wd_fs = s'\<rparr> \<and> cw_sessionFile cw = sessionPath dataDir sid \<and> cw_memory cw = [] \<and>
    sid = (if sc_SessionID cfg = [] then fresh else sc_SessionID cfg) \<and> has_suffix prompt (sc_Prompt cfg)"
proof -
  obtain s1 cw0 where o: "open_session dataDir fresh cfg s = (Inr sid, s1)"
    and n: "service_NewWindow dataDir sid s1 = (Inr cw0, s')"
    and cw: "(cw, prompt) = (case with_skill cfg (if sc_AgentSystemPrompt cfg \<noteq> [] then SetAgentSystemPrompt (sc_AgentSystemPrompt cfg) cw0 else cw0) (sc_Prompt cfg)
        of (c, p) \<Rightarrow> (c, with_instructions cfg s' p))"
    using assms(1) by (auto simp: prepare_run_def Let_def split: prod.splits sum.splits if_splits)
  have r1: "session_ready dataDir sid s1" using open_session_ready [OF o assms(2-4)] .
  obtain m: "os_MkdirAll s1 (sessionDir dataDir) = (Inr (), s')" and cw0: "cw0 = NewWindow (sessionPath dataDir sid)"
    using n by (auto simp: service_NewWindow_def sessionDir_def sessionPath_def Let_def split: prod.splits sum.splits)
  have "session_ready dataDir sid s'"
    using MkdirAll_ready [OF m _ assms(3)] r1 by (simp add: session_ready_def)
  moreover have w: "cw_sessionFile cw = sessionPath dataDir sid" "cw_memory cw = []"
    using cw by (auto simp: with_skill_def cw0 NewWindow_def SetAgentSystemPrompt_def SetActiveSkill_def
        split: option.splits if_splits)
  moreover have "path_dir (sessionPath dataDir sid) = sessionDir dataDir"
    using path_dir_join [OF _ plain_files(1) [OF assms(3)]] sessionDir_clean by (simp add: sessionPath_def)
  moreover have "has_suffix prompt (sc_Prompt cfg)"
    using cw skill_suffix instructions_suffix [of cfg s'] unfolding has_suffix_iff
    by (auto split: prod.splits if_splits) (metis append_assoc)+
  moreover have "sid = (if sc_SessionID cfg = [] then fresh else sc_SessionID cfg)"
    using o session_created by (auto simp: open_session_def split: if_splits prod.splits sum.splits)
  ultimately show ?thesis by (simp add: healthy_def session_ready_def)
qed

text \<open>A run of a session that does not exist yet.\<close>

definition small_start :: StartConfig where
  "small_start =
     \<lparr>rc_AgentName = ''x'', rc_ContextSize = 0, rc_Sampling = None, rc_ProviderModel = [], rc_WorkingDir = [],
      rc_ToolRole = False, sc_Prompt = ''hi'', sc_SessionID = [], sc_AgentSystemPrompt = [],
      sc_ProviderEndpoint = [], sc_ProviderHTTPTimeout = 0, sc_Skill = None, sc_SkillContent = [], sc_Tools = None\<rparr>"

theorem prepared_run_healthy_witness:
  "\<exists>cw prompt s'. prepare_run ''/'' ''n'' small_start \<lparr>nodes = [], faults = []\<rparr> = (Inr (''n'', cw, prompt), s') \<and>
     healthy \<lparr>wd_window = cw, wd_fs = s'\<rparr> \<and> has_suffix prompt ''hi''"
proof -
  let ?p = "prepare_run ''/'' ''n'' small_start \<lparr>nodes = [], faults = []\<rparr>"
  have "case fst ?p of Inl _ \<Rightarrow> False | Inr r \<Rightarrow> fst r = ''n''" by code_simp
  then obtain cw prompt s' where p: "?p = (Inr (''n'', cw, prompt), s')"
    by (cases ?p; cases "fst ?p") auto
  have "faults \<lparr>nodes = [], faults = []\<rparr> = []" "plain_id ''n''"
    "lookup \<lparr>nodes = [], faults = []\<rparr> (sessionPath ''/'' ''n'') \<noteq> Some DirNode"
    by (simp_all add: plain_id_def lookup_def)
  from prepared_run_healthy [OF p this] show ?thesis using p by (simp add: small_start_def)
qed

text \<open>
  What comes out of a run is what the loop emitted, event for event, with the session and the
  agent written on the first; the stream is closed exactly when the run has finished.
\<close>

theorem run_events_forwarded:
  assumes "runner_StartRun fuel en registered marshal_tools dataDir fresh cfg runID s ch = Inr (evs, w', st)"
  shows "\<exists>sid cw prompt s1 x evs0.
    prepare_run dataDir fresh cfg s = (Inr (sid, cw, prompt), s1) \<and>
    agent_run fuel (with_executor x marshal_tools en) (RunConfig.truncate cfg) runID prompt \<lparr>wd_window = cw, wd_fs = s1\<rparr> ch = (evs0, w', st) \<and>
    evs = (event EvtRunStarted runID)\<lparr>ev_SessionID := sid, ev_AgentName := rc_AgentName cfg\<rparr> # tl evs0 \<and>
    (st = Finished \<longleftrightarrow> list_ex terminal evs)"
proof -
  obtain sid cw prompt s1 where p: "prepare_run dataDir fresh cfg s = (Inr (sid, cw, prompt), s1)"
    using assms by (auto simp: runner_StartRun_def split: prod.splits sum.splits)
  define x where "x = (case sc_Tools cfg of None \<Rightarrow> registered | Some x \<Rightarrow> x)"
  obtain evs0 where r: "agent_run fuel (with_executor x marshal_tools en) (RunConfig.truncate cfg) runID prompt
      \<lparr>wd_window = cw, wd_fs = s1\<rparr> ch = (evs0, w', st)" and evs: "evs = forward_events sid (rc_AgentName cfg) evs0"
    using assms p by (auto simp: runner_StartRun_def x_def Let_def split: prod.splits)
  have fwd: "evs = (event EvtRunStarted runID)\<lparr>ev_SessionID := sid, ev_AgentName := rc_AgentName cfg\<rparr> # tl evs0"
    unfolding evs by (rule forward_run [OF r])
  obtain evs1 where evs0: "evs0 = event EvtRunStarted runID # evs1"
    and t: "agent_turns fuel (with_executor x marshal_tools en) (RunConfig.truncate cfg) runID 0
      (run_start (with_executor x marshal_tools en) (RunConfig.truncate cfg) prompt \<lparr>wd_window = cw, wd_fs = s1\<rparr>) ch =
      (evs1, fst (snd (agent_turns fuel (with_executor x marshal_tools en) (RunConfig.truncate cfg) runID 0
      (run_start (with_executor x marshal_tools en) (RunConfig.truncate cfg) prompt \<lparr>wd_window = cw, wd_fs = s1\<rparr>) ch)), st)"
    using r by (auto simp: agent_run_def split: prod.splits)
  have "st = Finished \<longleftrightarrow> list_ex terminal evs"
    using turns_events [OF t] unfolding fwd evs0
    by (cases "st = Finished") (auto simp: terminal_def list_ex_iff list_all_iff)
  then show ?thesis using p r fwd by blast
qed

section \<open>A skill invoked by the model\<close>

lemma normalize_from_snoc:
  "normalize_from u p (ms @ [m]) =
     (let n = normalize_from u p ms
      in if shouldMerge m (last n) u then butlast n @ [mergeMessages (last n) m] else n @ [m])"
proof (induction ms arbitrary: p)
  case (Cons c ms)
  have "normalize_from u q ms \<noteq> []" for q using normalize_from_hd [of u q ms] by (cases "normalize_from u q ms") auto
  then show ?case using Cons.IH by (simp add: Let_def)
qed simp

lemma normalize_from_last_role: "effectiveRole (last (normalize_from u p ms)) u = effectiveRole (last (p # ms)) u"
proof (induction ms rule: rev_induct)
  case (snoc m ms)
  have "effectiveRole (mergeMessages a m) u = effectiveRole a u" for a by (simp add: effectiveRole_def mergeMessages_def)
  then show ?case using snoc by (auto simp: normalize_from_snoc Let_def shouldMerge_def split: if_splits)
qed simp

lemma well_ordered_stray_result:
  "\<not> is_calling m \<Longrightarrow> \<not> is_result m \<Longrightarrow> is_result t \<Longrightarrow> \<not> well_ordered u r e (xs @ [m, t])"
  by (induction xs arbitrary: r e) auto

lemma stray_result_rejected:
  assumes "last (sys # ms) = reply" and "msg_Role reply = RoleAssistant" and "msg_Role m = RoleUser" and "msg_ToolResult m = None"
    and "msg_Role t = RoleTool"
  shows "\<exists>err. validateRoleAlternation (normalizeMessages (sys # ms @ [m, t]) True) True = Inl err"
proof -
  let ?n = "normalize_from True sys ms"
  have "effectiveRole (last ?n) True = RoleAssistant"
    using normalize_from_last_role [of True sys ms] assms(1,2) by (simp add: effectiveRole_def)
  then have "normalize_from True sys (ms @ [m]) = ?n @ [m]"
    using assms(3) by (simp add: normalize_from_snoc shouldMerge_def effectiveRole_def Let_def)
  then have N: "normalizeMessages (sys # ms @ [m, t]) True = ?n @ [m, t]"
    using assms(3,5) normalize_from_snoc [of True sys "ms @ [m]" t]
    by (simp add: normalizeMessages_def shouldMerge_def effectiveRole_def Let_def)
  obtain q rest where n: "?n = q # rest" using normalize_from_hd [of True sys ms] by (cases ?n) auto
  have "\<not> well_ordered True [] False (rest @ [m, t])"
    using assms(3-5) by (intro well_ordered_stray_result) (simp_all add: is_calling_def is_result_def)
  then have "validate_roles_from True [] False 1 (rest @ [m, t]) \<noteq> Inr ()" by (simp add: validate_well_ordered)
  then show ?thesis
    by (cases "validate_roles_from True [] False 1 (rest @ [m, t])") (auto simp: N n validateRoleAlternation_def)
qed

lemma registry_skill_call:
  assumes "registry_GetTool tools ''skill'' = Some (SkillTool order reg)" and "skills_Get reg name = Some skill"
    and "\<not> sk_DisableModelInvocation skill" and "name \<noteq> []" and "map_of args ''name'' = Some (JStr name)" and "healthy w"
  shows "\<exists>out u w'. registry_Execute tools ''skill'' args (call_context en wd) w = (Inr out, w') \<and> healthy w' \<and>
    msg_Role u = RoleUser \<and> msg_ToolResult u = None \<and>
    BuildContext (wd_window w') = BuildContext (wd_window w) @ [u]"
proof -
  obtain rendered where r: "Render skill (str_or_empty (json_str (map_of args ''arguments''))) = Inr rendered"
    by (simp add: Render_def Let_def)
  define w1 where "w1 = w\<lparr>wd_window := SetActiveSkill (Some \<lparr>sm_Name = sk_Name skill, sm_Path = sk_Path skill\<rparr>) (wd_window w)\<rparr>"
  define u where "u = text_message RoleUser (FormatContent skill rendered) 0"
  have h1: "healthy w1" using assms(6) by (simp add: healthy_def w1_def SetActiveSkill_def)
  obtain w2 where w2: "add_message en u w1 = (Inr (), w2)" "healthy w2"
    "wd_window w2 = (wd_window w1)\<lparr>cw_memory := cw_memory (wd_window w1) @ [u]\<rparr>"
    using healthy_add [OF h1] by blast
  obtain out where e: "registry_Execute tools ''skill'' args (call_context en wd) w = (Inr out, w2)"
    using w2(1) r assms(3,4)
    by (simp add: registry_Execute_def assms(1,2,5) SkillTool_def skill_Execute_def call_context_def WithSkillCallbacks_def
        GetSkillCallbacks_def skill_callbacks_def str_or_empty_def w1_def [symmetric] u_def [symmetric] del: sprintf.simps)
  have "BuildContext (wd_window w2) = BuildContext (wd_window w) @ [u]"
    by (simp add: w2(3) BuildContext_def w1_def SetActiveSkill_def)
  then show ?thesis using e w2(2) by (intro exI [of _ out] exI [of _ u] exI [of _ w2]) (simp add: u_def)
qed

text \<open>
  When the model invokes a skill, the skill's text is put into the conversation as a user message
  between the model's tool calls and the result of the call. With the tool role, which wants each
  result to follow the calls, the provider's role check then refuses the next request of the run.
\<close>

theorem skill_call_rejected:
  assumes "en = with_executor (registry_executor en0 order tools) marshal_tools en0"
    and "registry_GetTool tools ''skill'' = Some (SkillTool order' reg)" and "skills_Get reg name = Some skill"
    and "\<not> sk_DisableModelInvocation skill" and "name \<noteq> []"
    and "pc_Name call = ''skill''" and "map_of (pc_Args call) ''name'' = Some (JStr name)" and "pc_Approval call = ApprovalGranted"
    and "healthy w" and "msg_Role (last (BuildContext (wd_window w))) = RoleAssistant"
    and "executeTools en cfg runID [call] w = (r, w', evs)"
  shows "\<exists>u t. r = Inr () \<and> BuildContext (wd_window w') = BuildContext (wd_window w) @ [u, t] \<and>
    msg_Role u = RoleUser \<and> answers call t \<and>
    (\<exists>err. validateRoleAlternation (normalizeMessages (BuildContext (wd_window w')) True) True = Inl err)"
proof -
  obtain out u w1 where x: "registry_Execute tools ''skill'' (pc_Args call) (call_context en0 (rc_WorkingDir cfg)) w = (Inr out, w1)"
    "healthy w1" "msg_Role u = RoleUser" "msg_ToolResult u = None"
    "BuildContext (wd_window w1) = BuildContext (wd_window w) @ [u]"
    using registry_skill_call [OF assms(2-5,7,9)] by blast
  have ex: "en_execute en = (\<lambda>wd name args w. registry_Execute tools name args (call_context en0 wd) w)"
    by (simp add: assms(1) with_executor_def registry_executor_def)
  obtain evs1 where c: "executeToolCall en cfg runID call w = (Inr out, w1, evs1)"
    by (simp add: executeToolCall_def assms(6,8) ex x(1) Let_def)
  define t where "t = tool_message en (tool_result call (Inr out))"
  have ans: "answers call t" unfolding t_def by (rule answers_result [OF c])
  obtain w2 where w2: "add_message en t w1 = (Inr (), w2)" "wd_window w2 = (wd_window w1)\<lparr>cw_memory := cw_memory (wd_window w1) @ [t]\<rparr>"
    using healthy_add [OF x(2)] by blast
  have r: "r = Inr ()" "w' = w2"
    using assms(11) by (auto simp: executeTools_def c w2(1) t_def [symmetric])
  have ctx: "BuildContext (wd_window w') = BuildContext (wd_window w) @ [u, t]"
    using x(5) by (simp add: r(2) w2(2) BuildContext_def)
  obtain sys ms where b: "BuildContext (wd_window w) = sys # ms" by (simp add: BuildContext_def)
  have "\<exists>err. validateRoleAlternation (normalizeMessages (sys # ms @ [u, t]) True) True = Inl err"
    by (rule stray_result_rejected [OF refl _ x(3,4)]) (use assms(10) ans b in \<open>simp_all add: answers_def\<close>)
  then show ?thesis using r(1) ctx ans x(3) b by (intro exI [of _ u] exI [of _ t]) simp
qed

text \<open>A conversation in which the model calls a skill.\<close>

definition tidy :: Skill where
  "tidy = \<lparr>sk_Name = ''tidy'', sk_Description = [], sk_Content = ''Tidy up'', sk_Path = ''/k'',
           sk_DisableModelInvocation = False, sk_UserInvocable = True\<rparr>"

definition tidy_registry :: SkillRegistry where
  "tidy_registry = store_skill tidy (NewSkillRegistry ''/k'')"

definition tidy_call :: pendingCall where
  "tidy_call = \<lparr>pc_ID = ''c'', pc_Name = ''skill'', pc_Args = [(''name'', JStr ''tidy'')], pc_Approval = ApprovalGranted, pc_Reason = []\<rparr>"

definition calling_world :: world where
  "calling_world = sample_world\<lparr>wd_window := (wd_window sample_world)\<lparr>cw_memory := [text_message RoleAssistant [] 0]\<rparr>\<rparr>"

theorem skill_call_rejected_witness:
  "\<exists>r w' evs err. executeTools (with_executor (registry_executor sample_env id (RegisterSkill id tidy_registry NewToolRegistry)) (\<lambda>_. []) sample_env)
       sample_cfg ''r'' [tidy_call] calling_world = (r, w', evs) \<and>
     validateRoleAlternation (normalizeMessages (BuildContext (wd_window w')) True) True = Inl err"
proof -
  let ?tools = "RegisterSkill id tidy_registry NewToolRegistry"
  let ?en = "with_executor (registry_executor sample_env id ?tools) (\<lambda>_. []) sample_env"
  obtain r w' evs where x: "executeTools ?en sample_cfg ''r'' [tidy_call] calling_world = (r, w', evs)"
    by (metis prod_cases3)
  have t: "registry_GetTool ?tools ''skill'' = Some (SkillTool id tidy_registry)"
    by (simp add: RegisterSkill_def tool_store.get_put) (simp add: SkillTool_def)
  have s: "skills_Get tidy_registry ''tidy'' = Some tidy" "\<not> sk_DisableModelInvocation tidy" "''tidy'' \<noteq> []"
    by (simp_all add: tidy_registry_def skill_store.get_put) (simp_all add: tidy_def)
  have c: "pc_Name tidy_call = ''skill''" "map_of (pc_Args tidy_call) ''name'' = Some (JStr ''tidy'')" "pc_Approval tidy_call = ApprovalGranted"
    by (simp_all add: tidy_call_def)
  have h: "healthy calling_world" using sample_env_ok(3) by (simp add: healthy_def calling_world_def)
  have l: "msg_Role (last (BuildContext (wd_window calling_world))) = RoleAssistant"
    by (simp add: BuildContext_def calling_world_def text_message_def)
  from skill_call_rejected [OF refl t s c h l x] x show ?thesis by blast
qed

end
