(* ===== verification/AgentRegistry.thy ===== *)
theory AgentRegistry
  imports FileSystem CoreTypes
begin

text \<open>
  internal/agent/registry.go and internal/config/agent/config.go: agents as directories with a
  \<open>config.toml\<close> and an \<open>agent.md\<close>, either of which may be missing. The TOML parser is a library
  the source calls and is the parameter \<open>toml\<close>. A duration is in nanoseconds, an \<open>int64\<close> that
  wraps around.
\<close>

section \<open>config.go\<close>

record ProviderTOML =
  pt_Endpoint :: string
  pt_Model :: string
  pt_HTTPTimeoutSeconds :: int

record ProviderConfig =
  pv_Endpoint :: string
  pv_Model :: string
  pv_HTTPTimeout :: int

record AgentConfig =
  ac_Name :: string
  ac_DisplayName :: string
  ac_SystemPrompt :: string
  ac_ContextSize :: int
  ac_Provider :: ProviderConfig
  ac_Sampling :: "SamplingConfig option"
  ac_ToolRole :: bool

record AgentTOML =
  at_Name :: string
  at_ContextSize :: int
  at_Provider :: ProviderTOML
  at_Sampling :: "SamplingConfig option"
  at_ToolRole :: bool

definition LoadTOML :: "(string \<Rightarrow> AgentTOML result) \<Rightarrow> fs \<Rightarrow> string \<Rightarrow> AgentTOML option result" where
  "LoadTOML toml s path =
     (case os_ReadFile s path of
        Inl err \<Rightarrow> (if is_not_exist err then Inr None else Inl err)
      | Inr data \<Rightarrow> result_bind (toml data) (\<lambda>cfg. Inr (Some cfg)))"

definition LoadPrompt :: "fs \<Rightarrow> string \<Rightarrow> string result" where
  "LoadPrompt s path =
     (case os_ReadFile s path of
        Inl err \<Rightarrow> (if is_not_exist err then Inr [] else Inl err)
      | Inr data \<Rightarrow> Inr data)"

section \<open>registry.go\<close>

definition NewAgentRegistry :: "string \<Rightarrow> string" where
  "NewAgentRegistry dataDir = path_join [dataDir, ''agents'']"

record Summary =
  sm_AgentName :: string
  sm_DisplayName :: string
  sm_HasPrompt :: bool
  sm_HasConfig :: bool

definition NotFoundError :: "string \<Rightarrow> string list \<Rightarrow> go_error" where
  "NotFoundError name available =
     (if available = [] then Errorf ''agent not found: %s'' [AStr name]
      else Errorf ''agent not found: %s; available: %s'' [AStr name, AStr (join '', '' available)])"

definition ConfigError :: "string \<Rightarrow> go_error \<Rightarrow> go_error" where
  "ConfigError name err = Errorf ''invalid config for agent %s: %s'' [AStr name, AErr err]"

definition fileExists :: "fs \<Rightarrow> string \<Rightarrow> bool" where
  "fileExists s path \<longleftrightarrow> (case os_Stat s path of Inl _ \<Rightarrow> False | Inr _ \<Rightarrow> True)"

definition configPath :: "string \<Rightarrow> string \<Rightarrow> string" where
  "configPath AgentsDir name = path_join [path_join [AgentsDir, name], ''config.toml'']"

definition promptPath :: "string \<Rightarrow> string \<Rightarrow> string" where
  "promptPath AgentsDir name = path_join [path_join [AgentsDir, name], ''agent.md'']"

definition agent_Exists :: "string \<Rightarrow> fs \<Rightarrow> string \<Rightarrow> bool" where
  "agent_Exists AgentsDir s name \<longleftrightarrow> fileExists s (configPath AgentsDir name) \<or> fileExists s (promptPath AgentsDir name)"

definition summary_of :: "(string \<Rightarrow> AgentTOML result) \<Rightarrow> string \<Rightarrow> fs \<Rightarrow> string \<times> node \<Rightarrow> Summary option" where
  "summary_of toml AgentsDir s entry =
     (case entry of (name, n) \<Rightarrow>
        if n \<noteq> DirNode then None
        else let hasConfig = fileExists s (configPath AgentsDir name);
                 hasPrompt = fileExists s (promptPath AgentsDir name)
             in if \<not> hasConfig \<and> \<not> hasPrompt then None
                else Some \<lparr>sm_AgentName = name,
                           sm_DisplayName = (if hasConfig
                             then (case LoadTOML toml s (configPath AgentsDir name) of
                                     Inr (Some cfg) \<Rightarrow> if at_Name cfg \<noteq> [] then at_Name cfg else name
                                   | _ \<Rightarrow> name)
                             else name),
                           sm_HasPrompt = hasPrompt, sm_HasConfig = hasConfig\<rparr>)"

definition agent_List :: "(string \<Rightarrow> AgentTOML result) \<Rightarrow> string \<Rightarrow> fs \<Rightarrow> Summary list result" where
  "agent_List toml AgentsDir s =
     (case os_ReadDir s AgentsDir of
        Inl err \<Rightarrow> (if is_not_exist err then Inr [] else Inl err)
      | Inr entries \<Rightarrow> Inr (List.map_filter (summary_of toml AgentsDir s) entries))"

text \<open>\<open>time.Duration(n) * time.Second\<close> in 64 bits.\<close>

definition wrap64 :: "int \<Rightarrow> int" where
  "wrap64 i = (i + 2 ^ 63) mod 2 ^ 64 - 2 ^ 63"

definition seconds :: "int \<Rightarrow> int" where
  "seconds n = wrap64 (n * 1000000000)"

definition no_provider :: ProviderConfig where
  "no_provider = \<lparr>pv_Endpoint = [], pv_Model = [], pv_HTTPTimeout = 0\<rparr>"

definition apply_toml :: "AgentTOML \<Rightarrow> AgentConfig \<Rightarrow> AgentConfig" where
  "apply_toml t cfg =
     cfg\<lparr>ac_DisplayName := (if at_Name t \<noteq> [] then at_Name t else ac_DisplayName cfg),
         ac_Provider := \<lparr>pv_Endpoint = pt_Endpoint (at_Provider t), pv_Model = pt_Model (at_Provider t),
                         pv_HTTPTimeout = (if pt_HTTPTimeoutSeconds (at_Provider t) > 0
                                           then seconds (pt_HTTPTimeoutSeconds (at_Provider t)) else seconds 300)\<rparr>,
         ac_ContextSize := at_ContextSize t, ac_Sampling := at_Sampling t, ac_ToolRole := at_ToolRole t\<rparr>"

definition bare_config :: "string \<Rightarrow> AgentConfig" where
  "bare_config name =
     \<lparr>ac_Name = name, ac_DisplayName = name, ac_SystemPrompt = [], ac_ContextSize = 0,
      ac_Provider = no_provider, ac_Sampling = None, ac_ToolRole = False\<rparr>"

definition agent_Load :: "(string \<Rightarrow> AgentTOML result) \<Rightarrow> string \<Rightarrow> fs \<Rightarrow> string \<Rightarrow> AgentConfig result" where
  "agent_Load toml AgentsDir s name =
     (let hasConfig = fileExists s (configPath AgentsDir name);
          hasPrompt = fileExists s (promptPath AgentsDir name)
      in if \<not> hasConfig \<and> \<not> hasPrompt
         then Inl (NotFoundError name
                (case agent_List toml AgentsDir s of Inl _ \<Rightarrow> [] | Inr available \<Rightarrow> map sm_AgentName available))
         else
           let cfg = bare_config name
           in result_bind
                (if hasConfig
                 then map_error (ConfigError name)
                        (result_bind (LoadTOML toml s (configPath AgentsDir name))
                           (\<lambda>t. Inr (case t of None \<Rightarrow> cfg | Some tomlCfg \<Rightarrow> apply_toml tomlCfg cfg)))
                 else Inr cfg) (\<lambda>cfg1.
              if hasPrompt
              then map_error (ConfigError name)
                     (result_bind (LoadPrompt s (promptPath AgentsDir name)) (\<lambda>prompt. Inr (cfg1\<lparr>ac_SystemPrompt := prompt\<rparr>)))
              else Inr cfg1))"

section \<open>What a load gives\<close>

lemma wrap64_id: "- (2 ^ 63) \<le> i \<Longrightarrow> i < 2 ^ 63 \<Longrightarrow> wrap64 i = i"
  by (simp add: wrap64_def)

text \<open>The largest number of seconds whose nanoseconds fit 64 bits.\<close>

lemma seconds_positive: "0 < n \<Longrightarrow> n \<le> 9223372036 \<Longrightarrow> seconds n = n * 1000000000"
  by (simp add: seconds_def wrap64_id)

lemma seconds_overflow: "seconds 9223372037 < 0"
  by (simp add: seconds_def wrap64_def)

lemma agent_Load_Inr:
  assumes "agent_Load toml AgentsDir s name = Inr cfg"
  shows "agent_Exists AgentsDir s name \<and> (\<exists>cfg1 prompt. cfg = cfg1\<lparr>ac_SystemPrompt := prompt\<rparr> \<and>
    (if fileExists s (configPath AgentsDir name)
     then \<exists>t. LoadTOML toml s (configPath AgentsDir name) = Inr t \<and>
            cfg1 = (case t of None \<Rightarrow> bare_config name | Some tomlCfg \<Rightarrow> apply_toml tomlCfg (bare_config name))
     else cfg1 = bare_config name))"
proof -
  define c p where "c = configPath AgentsDir name" and "p = promptPath AgentsDir name"
  have own: "cfg = cfg\<lparr>ac_SystemPrompt := ac_SystemPrompt cfg\<rparr>" by simp
  show ?thesis
    using assms unfolding agent_Load_def Let_def c_def [symmetric] p_def [symmetric] agent_Exists_def
    by (cases "fileExists s c"; cases "fileExists s p") (simp_all add: result_simps, (metis own)+)
qed

text \<open>
  An agent that is loaded keeps the name it was asked for, exists on disk, and, when it has a
  configuration, has a positive request timeout for every configured number of seconds below the
  64-bit limit; an agent with neither file is reported with the names of those there are.
\<close>

theorem agent_Load_config:
  assumes "agent_Load toml AgentsDir s name = Inr cfg"
  shows "ac_Name cfg = name \<and> agent_Exists AgentsDir s name \<and>
    (\<forall>t. LoadTOML toml s (configPath AgentsDir name) = Inr (Some t) \<longrightarrow> fileExists s (configPath AgentsDir name) \<longrightarrow>
       ac_ContextSize cfg = at_ContextSize t \<and> ac_ToolRole cfg = at_ToolRole t \<and>
       (pt_HTTPTimeoutSeconds (at_Provider t) \<le> 9223372036 \<longrightarrow> 0 < pv_HTTPTimeout (ac_Provider cfg)))"
proof -
  obtain cfg1 prompt where c: "agent_Exists AgentsDir s name" "cfg = cfg1\<lparr>ac_SystemPrompt := prompt\<rparr>"
    "if fileExists s (configPath AgentsDir name)
     then \<exists>t. LoadTOML toml s (configPath AgentsDir name) = Inr t \<and>
            cfg1 = (case t of None \<Rightarrow> bare_config name | Some tomlCfg \<Rightarrow> apply_toml tomlCfg (bare_config name))
     else cfg1 = bare_config name"
    using agent_Load_Inr [OF assms] by blast
  have "ac_Name cfg1 = name" using c(3) by (auto simp: apply_toml_def bare_config_def split: if_splits option.splits)
  moreover have "cfg1 = apply_toml t (bare_config name)"
    if "LoadTOML toml s (configPath AgentsDir name) = Inr (Some t)" "fileExists s (configPath AgentsDir name)" for t
    using c(3) that by simp
  ultimately show ?thesis using c(1,2) seconds_positive by (auto simp: apply_toml_def)
qed

theorem agent_Load_config_witness:
  "\<exists>cfg. agent_Load (\<lambda>_. Inr \<lparr>at_Name = [], at_ContextSize = 8, at_Provider = \<lparr>pt_Endpoint = [], pt_Model = [], pt_HTTPTimeoutSeconds = 5\<rparr>,
       at_Sampling = None, at_ToolRole = True\<rparr>) ''/a'' \<lparr>nodes = [(''/a/x/config.toml'', FileNode [])], faults = []\<rparr> ''x'' = Inr cfg \<and>
     ac_Name cfg = ''x'' \<and> ac_ContextSize cfg = 8 \<and> 0 < pv_HTTPTimeout (ac_Provider cfg)"
proof -
  define t where "t = \<lparr>at_Name = [], at_ContextSize = 8, at_Provider = \<lparr>pt_Endpoint = [], pt_Model = [], pt_HTTPTimeoutSeconds = 5\<rparr>,
       at_Sampling = None, at_ToolRole = True\<rparr>"
  define s where "s = \<lparr>nodes = [(''/a/x/config.toml'', FileNode [])], faults = []\<rparr>"
  have "\<not> isl (agent_Load (\<lambda>_. Inr t) ''/a'' s ''x'')" unfolding t_def s_def by code_simp
  then obtain cfg where l: "agent_Load (\<lambda>_. Inr t) ''/a'' s ''x'' = Inr cfg" by (metis isl_def sum.exhaust)
  have p: "configPath ''/a'' ''x'' = ''/a/x/config.toml''" by code_simp
  have "LoadTOML (\<lambda>_. Inr t) s (configPath ''/a'' ''x'') = Inr (Some t)" "fileExists s (configPath ''/a'' ''x'')"
    unfolding p by (simp_all add: s_def LoadTOML_def os_ReadFile_def fault_def lookup_def fileExists_def os_Stat_def)
  then have "ac_Name cfg = ''x''" "ac_ContextSize cfg = 8" "0 < pv_HTTPTimeout (ac_Provider cfg)"
    using agent_Load_config [OF l] by (simp_all add: t_def)
  then show ?thesis using l unfolding t_def s_def by blast
qed

text \<open>A configured timeout above the limit is turned into a negative one.\<close>

lemma agent_timeout_overflow:
  "pv_HTTPTimeout (ac_Provider (apply_toml \<lparr>at_Name = [], at_ContextSize = 0,
      at_Provider = \<lparr>pt_Endpoint = [], pt_Model = [], pt_HTTPTimeoutSeconds = 9223372037\<rparr>, at_Sampling = None, at_ToolRole = False\<rparr>
      cfg)) < 0"
  by (simp add: apply_toml_def seconds_overflow)

end
