(* ===== verification/Executor.thy ===== *)
theory Executor
  imports ProtocolTypes
begin

text \<open>
  internal/protocol/executor.go: the tool executor that delegates to the client. The client is a
  function from the requests made so far to its answer to the next one; \<open>Connection.Request\<close>
  returns the result of the response (\<open>None\<close> when it has none) or an error. Each operation
  returns its result and the requests made, in order.
\<close>

section \<open>Requests\<close>

type_synonym request = "string \<times> json"
type_synonym client = "request list \<Rightarrow> string \<Rightarrow> json \<Rightarrow> json option result"

definition ask :: "client \<Rightarrow> string \<Rightarrow> json \<Rightarrow> request list \<Rightarrow> json option result \<times> request list" where
  "ask cl method params made = (cl made method params, made @ [(method, params)])"

record ToolExecutor =
  te_sessionID :: string
  te_caps :: ClientCapabilities

definition NewToolExecutor :: "string \<Rightarrow> ClientCapabilities \<Rightarrow> ToolExecutor" where
  "NewToolExecutor sessionID caps = \<lparr>te_sessionID = sessionID, te_caps = caps\<rparr>"

section \<open>Definitions offered to the model\<close>

definition param :: "string \<Rightarrow> string \<Rightarrow> string \<Rightarrow> string \<times> json" where
  "param name type description = (name, JObj [(''type'', JStr type), (''description'', JStr description)])"

definition schema :: "json_object \<Rightarrow> string list \<Rightarrow> json" where
  "schema properties required =
     JObj [(''type'', JStr ''object''), (''properties'', JObj properties), (''required'', JArr (map JStr required))]"

definition acp_read_file :: ToolDef where
  "acp_read_file =
     \<lparr>td_Name = ''read_file'', td_Description = ''Read the contents of a text file. Returns the file content as a string.'',
      td_Parameters = schema
        [param ''path'' ''string'' ''Absolute path to the file to read'',
         param ''line'' ''integer'' ''Line number to start reading from (1-based)'',
         param ''limit'' ''integer'' ''Maximum number of lines to read''] [''path'']\<rparr>"

definition acp_write_file :: ToolDef where
  "acp_write_file =
     \<lparr>td_Name = ''write_file'',
      td_Description = ''Write text content to a file. Creates or overwrites the file at the given path.'',
      td_Parameters = schema
        [param ''path'' ''string'' ''Absolute path to the file to write'',
         param ''content'' ''string'' ''The text content to write to the file''] [''path'', ''content'']\<rparr>"

definition acp_run_command :: ToolDef where
  "acp_run_command =
     \<lparr>td_Name = ''run_command'', td_Description = ''Execute a shell command and return its output.'',
      td_Parameters = schema
        [param ''command'' ''string'' ''The command to execute'',
         (''args'', JObj [(''type'', JStr ''array''), (''items'', JObj [(''type'', JStr ''string'')]),
                          (''description'', JStr ''Command arguments'')]),
         param ''cwd'' ''string'' ''Working directory (absolute path)''] [''command'']\<rparr>"

definition exec_ToolDefinitions :: "ToolExecutor \<Rightarrow> ToolDef list" where
  "exec_ToolDefinitions e =
     (case cc_Fs (te_caps e) of Some fs \<Rightarrow> if fc_ReadTextFile fs then [acp_read_file] else [] | None \<Rightarrow> []) @
     (case cc_Fs (te_caps e) of Some fs \<Rightarrow> if fc_WriteTextFile fs then [acp_write_file] else [] | None \<Rightarrow> []) @
     (if cc_Terminal (te_caps e) then [acp_run_command] else [])"

section \<open>Arguments\<close>

text \<open>
  \<open>uint32(n)\<close> of a float64 keeps the low 32 bits of the truncated number on amd64 and arm64 as
  long as it fits 64 bits; Go leaves it to the implementation.
\<close>

definition toUint32 :: "json option \<Rightarrow> 32 word option" where
  "toUint32 v =
     (case json_num v of None \<Rightarrow> None
      | Some n \<Rightarrow> if n \<ge> 0 then Some (word_of_int (trunc_rat n)) else None)"

fun strings_of :: "json list \<Rightarrow> string list option" where
  "strings_of [] = Some []"
| "strings_of (item # items) =
     (case item of
        JStr s \<Rightarrow> (case strings_of items of None \<Rightarrow> None | Some out \<Rightarrow> Some (s # out))
      | _ \<Rightarrow> None)"

definition toStringSlice :: "json \<Rightarrow> string list option" where
  "toStringSlice v = (case json_arr (Some v) of None \<Rightarrow> None | Some raw \<Rightarrow> strings_of raw)"

definition str_arg :: "string \<Rightarrow> json_object \<Rightarrow> string" where
  "str_arg key args = str_or_empty (json_str (map_of args key))"

section \<open>Responses\<close>

definition dec_content :: "string \<Rightarrow> json \<Rightarrow> string result" where
  "dec_content = dec_struct ''types.ReadTextFileResponse'' [(''content'', dec_string)]"

definition dec_terminalId :: "string \<Rightarrow> json \<Rightarrow> string result" where
  "dec_terminalId = dec_struct ''types.CreateTerminalResponse'' [(''terminalId'', dec_string)]"

record WaitForExitResponse =
  we_ExitCode :: "32 word option"
  we_Signal :: "string option"

definition dec_WaitForExitResponse :: "WaitForExitResponse \<Rightarrow> json \<Rightarrow> WaitForExitResponse result" where
  "dec_WaitForExitResponse = dec_struct ''types.WaitForExitResponse''
     [(''exitCode'', set_field we_ExitCode_update we_ExitCode (dec_ptr dec_uint32 0)),
      (''signal'', set_field we_Signal_update we_Signal (dec_ptr dec_string []))]"

record TerminalOutputResponse =
  to_Output :: string
  to_Truncated :: bool
  to_ExitStatus :: "WaitForExitResponse option"

definition no_exit :: WaitForExitResponse where
  "no_exit = \<lparr>we_ExitCode = None, we_Signal = None\<rparr>"

definition dec_TerminalOutputResponse :: "TerminalOutputResponse \<Rightarrow> json \<Rightarrow> TerminalOutputResponse result" where
  "dec_TerminalOutputResponse = dec_struct ''types.TerminalOutputResponse''
     [(''output'', set_field to_Output_update to_Output dec_string),
      (''truncated'', set_field to_Truncated_update to_Truncated dec_bool),
      (''exitStatus'', set_field to_ExitStatus_update to_ExitStatus (dec_ptr dec_WaitForExitResponse no_exit))]"

definition no_output :: TerminalOutputResponse where
  "no_output = \<lparr>to_Output = [], to_Truncated = False, to_ExitStatus = None\<rparr>"

definition formatCommandOutput :: "TerminalOutputResponse \<Rightarrow> WaitForExitResponse \<Rightarrow> string" where
  "formatCommandOutput out exit =
     to_Output out @
     (case we_ExitCode exit of Some c \<Rightarrow> (if c \<noteq> 0 then nl # sprintf ''[exit code: %d]'' [itoa (uint c)] else []) | None \<Rightarrow> []) @
     (case we_Signal exit of Some sig \<Rightarrow> nl # sprintf ''[signal: %s]'' [sig] | None \<Rightarrow> []) @
     (if to_Truncated out then nl # ''[output truncated]'' else [])"

section \<open>The requests of rpc.go\<close>

record ReadTextFileRequest =
  rr_SessionID :: string
  rr_Path :: string
  rr_Line :: "32 word option"
  rr_Limit :: "32 word option"

definition enc_ReadTextFileRequest :: "ReadTextFileRequest \<Rightarrow> json" where
  "enc_ReadTextFileRequest req =
     JObj ([(''sessionId'', JStr (rr_SessionID req)), (''path'', JStr (rr_Path req))] @
           omit_none ''line'' JUint (rr_Line req) @ omit_none ''limit'' JUint (rr_Limit req))"

record WriteTextFileRequest =
  wr_SessionID :: string
  wr_Path :: string
  wr_Content :: string

definition enc_WriteTextFileRequest :: "WriteTextFileRequest \<Rightarrow> json" where
  "enc_WriteTextFileRequest req =
     JObj [(''sessionId'', JStr (wr_SessionID req)), (''path'', JStr (wr_Path req)), (''content'', JStr (wr_Content req))]"

record EnvVariable =
  ev_Name :: string
  ev_Value :: string

definition enc_EnvVariable :: "EnvVariable \<Rightarrow> json" where
  "enc_EnvVariable v = JObj [(''name'', JStr (ev_Name v)), (''value'', JStr (ev_Value v))]"

record CreateTerminalRequest =
  ct_SessionID :: string
  ct_Command :: string
  ct_Args :: "string list"
  ct_Cwd :: string
  ct_Env :: "EnvVariable list"
  ct_OutputByteLimit :: "64 word option"

definition enc_CreateTerminalRequest :: "CreateTerminalRequest \<Rightarrow> json" where
  "enc_CreateTerminalRequest req =
     JObj ([(''sessionId'', JStr (ct_SessionID req)), (''command'', JStr (ct_Command req))] @
           (if ct_Args req = [] then [] else [(''args'', JArr (map JStr (ct_Args req)))]) @
           omit_str ''cwd'' (ct_Cwd req) @
           (if ct_Env req = [] then [] else [(''env'', JArr (map enc_EnvVariable (ct_Env req)))]) @
           omit_none ''outputByteLimit'' (\<lambda>w. JInt (uint w)) (ct_OutputByteLimit req))"

section \<open>Execution\<close>

definition executeReadFile :: "client \<Rightarrow> ToolExecutor \<Rightarrow> json_object \<Rightarrow> request list \<Rightarrow> string result \<times> request list" where
  "executeReadFile cl e args made =
     (let path = str_arg ''path'' args
      in if path = [] then (Inl (Errorf ''acp executor: read_file requires path'' []), made)
         else
           let req = \<lparr>rr_SessionID = te_sessionID e, rr_Path = path, rr_Line = toUint32 (map_of args ''line''),
                      rr_Limit = toUint32 (map_of args ''limit'')\<rparr>
           in case ask cl ''fs/read_text_file'' (enc_ReadTextFileRequest req) made of
                (Inl err, made') \<Rightarrow> (Inl (Errorf ''acp executor: fs/read_text_file: %w'' [AErr err]), made')
              | (Inr r, made') \<Rightarrow>
                  (map_error (\<lambda>err. Errorf ''acp executor: unmarshal read response: %w'' [AErr err])
                     (unmarshal dec_content [] r), made'))"

definition executeWriteFile :: "client \<Rightarrow> ToolExecutor \<Rightarrow> json_object \<Rightarrow> request list \<Rightarrow> string result \<times> request list" where
  "executeWriteFile cl e args made =
     (let path = str_arg ''path'' args
      in if path = [] then (Inl (Errorf ''acp executor: write_file requires path'' []), made)
         else
           let content = str_arg ''content'' args;
               req = \<lparr>wr_SessionID = te_sessionID e, wr_Path = path, wr_Content = content\<rparr>
           in case ask cl ''fs/write_text_file'' (enc_WriteTextFileRequest req) made of
                (Inl err, made') \<Rightarrow> (Inl (Errorf ''acp executor: fs/write_text_file: %w'' [AErr err]), made')
              | (Inr _, made') \<Rightarrow> (Inr (sprintf ''wrote to %s'' [path]), made'))"

definition terminal_ref :: "ToolExecutor \<Rightarrow> string \<Rightarrow> json" where
  "terminal_ref e terminalID = JObj [(''sessionId'', JStr (te_sessionID e)), (''terminalId'', JStr terminalID)]"

definition create_request :: "ToolExecutor \<Rightarrow> json_object \<Rightarrow> json" where
  "create_request e args =
     enc_CreateTerminalRequest
       \<lparr>ct_SessionID = te_sessionID e, ct_Command = str_arg ''command'' args,
        ct_Args = (case map_of args ''args'' of None \<Rightarrow> []
          | Some rawArgs \<Rightarrow> (case toStringSlice rawArgs of None \<Rightarrow> [] | Some strArgs \<Rightarrow> strArgs)),
        ct_Cwd = str_arg ''cwd'' args, ct_Env = [], ct_OutputByteLimit = None\<rparr>"

definition executeRunCommand :: "client \<Rightarrow> ToolExecutor \<Rightarrow> json_object \<Rightarrow> request list \<Rightarrow> string result \<times> request list" where
  "executeRunCommand cl e args made =
     (if str_arg ''command'' args = [] then (Inl (Errorf ''acp executor: run_command requires command'' []), made)
      else case ask cl ''terminal/create'' (create_request e args) made of
        (Inl err, m1) \<Rightarrow> (Inl (Errorf ''acp executor: terminal/create: %w'' [AErr err]), m1)
      | (Inr r1, m1) \<Rightarrow>
      (case unmarshal dec_terminalId [] r1 of
        Inl err \<Rightarrow> (Inl (Errorf ''acp executor: unmarshal create response: %w'' [AErr err]), m1)
      | Inr terminalID \<Rightarrow>
      (case ask cl ''terminal/wait_for_exit'' (terminal_ref e terminalID) m1 of
        (Inl err, m2) \<Rightarrow> (Inl (Errorf ''acp executor: terminal/wait_for_exit: %w'' [AErr err]), m2)
      | (Inr r2, m2) \<Rightarrow>
      (case unmarshal dec_WaitForExitResponse no_exit r2 of
        Inl err \<Rightarrow> (Inl (Errorf ''acp executor: unmarshal exit response: %w'' [AErr err]), m2)
      | Inr exitResp \<Rightarrow>
      (case ask cl ''terminal/output'' (terminal_ref e terminalID) m2 of
        (Inl err, m3) \<Rightarrow> (Inl (Errorf ''acp executor: terminal/output: %w'' [AErr err]), m3)
      | (Inr r3, m3) \<Rightarrow>
      (case unmarshal dec_TerminalOutputResponse no_output r3 of
        Inl err \<Rightarrow> (Inl (Errorf ''acp executor: unmarshal output response: %w'' [AErr err]), m3)
      | Inr outResp \<Rightarrow>
          (Inr (formatCommandOutput outResp exitResp),
           snd (ask cl ''terminal/release'' (terminal_ref e terminalID) m3))))))))"

definition exec_Execute :: "client \<Rightarrow> ToolExecutor \<Rightarrow> string \<Rightarrow> json_object \<Rightarrow> request list \<Rightarrow> string result \<times> request list" where
  "exec_Execute cl e name args made =
     (if name = ''read_file'' then executeReadFile cl e args made
      else if name = ''write_file'' then executeWriteFile cl e args made
      else if name = ''run_command'' then executeRunCommand cl e args made
      else (Inl (Errorf ''acp executor: unknown tool %q'' [AQuote name]), made))"

definition exec_Preview :: "string \<Rightarrow> json_object \<Rightarrow> string result" where
  "exec_Preview name args = Inr []"

section \<open>What the client is asked\<close>

text \<open>The four requests of a command, for the terminal the client names.\<close>

definition command_requests :: "ToolExecutor \<Rightarrow> json_object \<Rightarrow> string \<Rightarrow> request list" where
  "command_requests e args t =
     [(''terminal/create'', create_request e args), (''terminal/wait_for_exit'', terminal_ref e t),
      (''terminal/output'', terminal_ref e t), (''terminal/release'', terminal_ref e t)]"

lemma run_command_requests:
  assumes "executeRunCommand cl e args made = (r, made')"
  shows "\<exists>t n. n \<le> 4 \<and> made' = made @ take n (command_requests e args t) \<and> (n = 4 \<longleftrightarrow> (\<exists>out. r = Inr out))"
proof -
  have "(\<exists>n \<le> 1. made' = made @ take n (command_requests e args []) \<and> (\<exists>err. r = Inl err)) \<or>
    (\<exists>t. \<exists>n \<in> {2, 3}. made' = made @ take n (command_requests e args t) \<and> (\<exists>err. r = Inl err)) \<or>
    (\<exists>t. made' = made @ take 4 (command_requests e args t) \<and> (\<exists>out. r = Inr out))"
    using assms
    by (auto simp: executeRunCommand_def ask_def command_requests_def numeral_eq_Suc Let_def
        split: if_splits sum.splits)
  then show ?thesis
  proof (elim disjE exE bexE conjE)
    fix n err assume "n \<le> 1" "made' = made @ take n (command_requests e args [])" "r = Inl err"
    then show ?thesis by (intro exI [of _ "[]"] exI [of _ n]) auto
  next
    fix t n err assume "n \<in> {2, 3::nat}" "made' = made @ take n (command_requests e args t)" "r = Inl err"
    then show ?thesis by (intro exI [of _ t] exI [of _ n]) auto
  next
    fix t out assume "made' = made @ take 4 (command_requests e args t)" "r = Inr out"
    then show ?thesis by (intro exI [of _ t] exI [of _ 4]) auto
  qed
qed

text \<open>What a client has declared that it serves.\<close>

definition declared_methods :: "ClientCapabilities \<Rightarrow> string set" where
  "declared_methods caps =
     {m. (\<exists>f. cc_Fs caps = Some f \<and> (fc_ReadTextFile f \<and> m = ''fs/read_text_file'' \<or>
                                 fc_WriteTextFile f \<and> m = ''fs/write_text_file'')) \<or>
         cc_Terminal caps \<and> m \<in> {''terminal/create'', ''terminal/wait_for_exit'', ''terminal/output'', ''terminal/release''}}"

lemma take_command_requests: "fst ` set (take n (command_requests e args t)) \<subseteq>
    {''terminal/create'', ''terminal/wait_for_exit'', ''terminal/output'', ''terminal/release''}"
  using set_take_subset [of n "command_requests e args t"] by (auto simp: command_requests_def)

lemma execute_requests:
  assumes "exec_Execute cl e name args made = (r, made')"
  shows "\<exists>new. made' = made @ new \<and>
    (name = ''read_file'' \<longrightarrow> fst ` set new \<subseteq> {''fs/read_text_file''}) \<and>
    (name = ''write_file'' \<longrightarrow> fst ` set new \<subseteq> {''fs/write_text_file''}) \<and>
    (name = ''run_command'' \<longrightarrow> (\<exists>t n. new = take n (command_requests e args t))) \<and>
    (name \<notin> {''read_file'', ''write_file'', ''run_command''} \<longrightarrow> new = [] \<and> (\<exists>err. r = Inl err))"
  using assms run_command_requests [of cl e args made r made']
  by (auto simp: exec_Execute_def executeReadFile_def executeWriteFile_def ask_def Let_def
      split: if_splits sum.splits)

lemma offered_cases:
  "name \<in> td_Name ` set (exec_ToolDefinitions e) \<Longrightarrow>
     (name = ''read_file'' \<and> (\<exists>f. cc_Fs (te_caps e) = Some f \<and> fc_ReadTextFile f)) \<or>
     (name = ''write_file'' \<and> (\<exists>f. cc_Fs (te_caps e) = Some f \<and> fc_WriteTextFile f)) \<or>
     (name = ''run_command'' \<and> cc_Terminal (te_caps e))"
  by (cases "cc_Fs (te_caps e)")
    (auto simp: exec_ToolDefinitions_def acp_read_file_def acp_write_file_def acp_run_command_def split: if_splits)


text \<open>
  A tool that is offered to the model only makes requests that the client declared it serves,
  and every offered tool has an implementation behind its name.
\<close>

theorem offered_tools_within_capabilities:
  assumes "name \<in> td_Name ` set (exec_ToolDefinitions e)" and "exec_Execute cl e name args made = (r, made')"
  shows "\<exists>new. made' = made @ new \<and> fst ` set new \<subseteq> declared_methods (te_caps e) \<and>
    name \<in> {''read_file'', ''write_file'', ''run_command''}"
proof -
  obtain new where new: "made' = made @ new"
    "name = ''read_file'' \<longrightarrow> fst ` set new \<subseteq> {''fs/read_text_file''}"
    "name = ''write_file'' \<longrightarrow> fst ` set new \<subseteq> {''fs/write_text_file''}"
    "name = ''run_command'' \<longrightarrow> (\<exists>t n. new = take n (command_requests e args t))"
    using execute_requests [OF assms(2)] by metis
  have within: ?thesis if "fst ` set new \<subseteq> ms" "ms \<subseteq> declared_methods (te_caps e)"
    "name \<in> {''read_file'', ''write_file'', ''run_command''}" for ms
    using new(1) that by (intro exI [of _ new] conjI) (assumption | rule subset_trans)+
  consider (reading) f where "name = ''read_file''" "cc_Fs (te_caps e) = Some f" "fc_ReadTextFile f"
    | (writing) f where "name = ''write_file''" "cc_Fs (te_caps e) = Some f" "fc_WriteTextFile f"
    | (running) "name = ''run_command''" "cc_Terminal (te_caps e)"
    using offered_cases [OF assms(1)] by (elim disjE conjE exE) simp_all
  then show ?thesis
  proof cases
    case reading
    show ?thesis by (rule within, rule new(2) [rule_format, OF reading(1)]) (simp_all add: declared_methods_def reading)
  next
    case writing
    show ?thesis by (rule within, rule new(3) [rule_format, OF writing(1)]) (simp_all add: declared_methods_def writing)
  next
    case running
    obtain t n where "new = take n (command_requests e args t)" using new(4) running(1) by (elim impE exE) simp_all
    then have "fst ` set new \<subseteq>
        {''terminal/create'', ''terminal/wait_for_exit'', ''terminal/output'', ''terminal/release''}"
      by (simp only: take_command_requests)
    then show ?thesis by (rule within) (auto simp: declared_methods_def running)
  qed
qed

text \<open>A tool that was not offered is not refused: the request goes out to a client that has no such method.\<close>

lemma undeclared_terminal_used:
  "snd (exec_Execute (\<lambda>made m p. Inl (Errorf ''method not found'' [])) (NewToolExecutor ''s'' no_caps) ''run_command''
          [(''command'', JStr ''ls'')] []) =
     [(''terminal/create'', JObj [(''sessionId'', JStr ''s''), (''command'', JStr ''ls'')])] \<and>
   declared_methods no_caps = {}"
  by (simp add: declared_methods_def no_caps_def) code_simp

section \<open>A client to check the statements on\<close>

definition sample_client :: client where
  "sample_client made method params =
     (if method = ''terminal/create'' then Inr (Some (JObj [(''terminalId'', JStr ''t1'')]))
      else if method = ''terminal/wait_for_exit'' then Inr (Some (JObj [(''exitCode'', JNum 2)]))
      else if method = ''terminal/output'' then Inr (Some (JObj [(''output'', JStr ''no''), (''truncated'', JBool False)]))
      else Inr None)"

definition full_executor :: ToolExecutor where
  "full_executor = NewToolExecutor ''s'' \<lparr>cc_Fs = None, cc_Terminal = True\<rparr>"

definition ls_args :: json_object where
  "ls_args = [(''command'', JStr ''ls'')]"


theorem offered_tools_within_capabilities_witness:
  "fst ` set (snd (exec_Execute sample_client full_executor ''run_command'' ls_args [])) \<subseteq>
     declared_methods (te_caps full_executor)"
proof -
  have "''run_command'' \<in> td_Name ` set (exec_ToolDefinitions full_executor)"
    by (simp add: exec_ToolDefinitions_def full_executor_def NewToolExecutor_def acp_run_command_def)
  from offered_tools_within_capabilities [OF this, of sample_client ls_args "[]"] show ?thesis
    by (metis append_Nil prod.collapse)
qed

end
