(* ===== verification/JsonRpc.thy ===== *)
theory JsonRpc
  imports ProtocolTypes JsonText
begin

text \<open>
  internal/protocol/jsonrpc.go: the connection of the agent client protocol, requests and
  notifications as JSON objects, one on a line. The functions take the text side of \<open>encoding/json\<close> as the
  arguments \<open>print\<close> and \<open>parse\<close>; what is written is shown to be what is read for the library's own. The connection is a step relation whose steps are the sections under its lock and
  the moments at which a call returns, so that its runs are all the interleavings of the calls with the
  read loop. The lemmas show that a message sent is the message read, that a response carries what the
  handler returned, and that every call gets at most one result, its own.
\<close>

section \<open>Errors with a code\<close>

abbreviation ErrMethodNotFound :: int where "ErrMethodNotFound \<equiv> - 32601"
abbreviation ErrInvalidParams :: int where "ErrInvalidParams \<equiv> - 32602"
abbreviation ErrInternalError :: int where "ErrInternalError \<equiv> - 32603"
abbreviation ErrNotFound :: int where "ErrNotFound \<equiv> - 32002"

text \<open>An \<open>RPCError\<close>, with the text its method \<open>Error\<close> gives.\<close>

definition rpc_format :: string where
  "rpc_format = ''RPC error %d: %s''"

definition NewRPCError :: "int \<Rightarrow> string \<Rightarrow> go_error" where
  "NewRPCError code message = Errorf rpc_format [AInt code, AStr message]"

text \<open>\<open>errors.As\<close>: the first \<open>RPCError\<close> in the tree of errors that are wrapped with the verb \<open>%w\<close>.\<close>

fun verbs :: "string \<Rightarrow> string" where
  "verbs [] = []"
| "verbs [c] = []"
| "verbs (c # d # cs) = (if c = CHR ''%'' then d # verbs cs else verbs (d # cs))"

fun as_rpc_error :: "go_error \<Rightarrow> (int \<times> string) option"
  and as_rpc_arg :: "string \<Rightarrow> fmt_arg list \<Rightarrow> (int \<times> string) option" where
  "as_rpc_error (Errorf f args) =
     (if f = rpc_format then (case args of [AInt code, AStr message] \<Rightarrow> Some (code, message) | _ \<Rightarrow> None)
      else as_rpc_arg (verbs f) args)"
| "as_rpc_arg (v # vs) (AErr e # args) =
     (if v = CHR ''w'' then (case as_rpc_error e of Some r \<Rightarrow> Some r | None \<Rightarrow> as_rpc_arg vs args) else as_rpc_arg vs args)"
| "as_rpc_arg (v # vs) (a # args) = as_rpc_arg vs args"
| "as_rpc_arg vs args = None"

section \<open>Messages\<close>

record jsonrpcMessage =
  jm_ID :: "int option"
  jm_Method :: string
  jm_Params :: "json option"
  jm_Result :: "json option"
  jm_Error :: "(int \<times> string) option"

definition no_message :: jsonrpcMessage where
  "no_message = \<lparr>jm_ID = None, jm_Method = [], jm_Params = None, jm_Result = None, jm_Error = None\<rparr>"

definition enc_rpc_error :: "int \<times> string \<Rightarrow> json" where
  "enc_rpc_error e = JObj [(''code'', JInt (fst e)), (''message'', JStr (snd e))]"

definition enc_message :: "jsonrpcMessage \<Rightarrow> json" where
  "enc_message m =
     JObj ([(''jsonrpc'', JStr ''2.0'')] @ omit_none ''id'' JInt (jm_ID m) @ omit_str ''method'' (jm_Method m) @
           omit_none ''params'' id (jm_Params m) @ omit_none ''result'' id (jm_Result m) @
           omit_none ''error'' enc_rpc_error (jm_Error m))"

definition dec_rpc_error :: "int \<times> string \<Rightarrow> json \<Rightarrow> (int \<times> string) result" where
  "dec_rpc_error = dec_struct ''protocol.jsonrpcError''
     [(''code'', set_field apfst fst dec_int), (''message'', set_field apsnd snd dec_string)]"

text \<open>A raw message is kept as it is, null included.\<close>

definition dec_raw :: "json option \<Rightarrow> json \<Rightarrow> json option result" where
  "dec_raw old v = Inr (Some v)"

definition ignore_string :: "jsonrpcMessage \<Rightarrow> json \<Rightarrow> jsonrpcMessage result" where
  "ignore_string m v = result_bind (dec_string [] v) (\<lambda>_. Inr m)"

definition message_fields :: "jsonrpcMessage field list" where
  "message_fields =
     [(''jsonrpc'', ignore_string),
      (''id'', set_field jm_ID_update jm_ID (dec_ptr dec_int 0)),
      (''method'', set_field jm_Method_update jm_Method dec_string),
      (''params'', set_field jm_Params_update jm_Params dec_raw),
      (''result'', set_field jm_Result_update jm_Result dec_raw),
      (''error'', set_field jm_Error_update jm_Error (dec_ptr dec_rpc_error (0, [])))]"

definition dec_message :: "jsonrpcMessage \<Rightarrow> json \<Rightarrow> jsonrpcMessage result" where
  "dec_message = dec_struct ''protocol.jsonrpcMessage'' message_fields"

section \<open>Lines\<close>

abbreviation maxMessageSize :: nat where "maxMessageSize \<equiv> 10 * 1024 * 1024"

text \<open>
  \<open>bufio.Scanner\<close> with its default split function: lines end at a newline, a carriage return before
  it is dropped, and the rest after the last newline is a line unless it is empty. The scan ends at a
  line that does not fit the buffer with its end.
\<close>

definition drop_return :: "string \<Rightarrow> string" where
  "drop_return line = (if line \<noteq> [] \<and> last line = CHR 0x0D then butlast line else line)"

fun take_fitting :: "string list \<Rightarrow> string list" where
  "take_fitting [] = []"
| "take_fitting (l # ls) = (if length l < maxMessageSize then drop_return l # take_fitting ls else [])"

definition scan_lines :: "string \<Rightarrow> string list" where
  "scan_lines input =
     (let ls = split_byte nl input in take_fitting (if last ls = [] then butlast ls else ls))"

text \<open>The messages the read loop handles, in order; empty and malformed lines are skipped.\<close>

definition read_messages :: "(string \<Rightarrow> json result) \<Rightarrow> string \<Rightarrow> jsonrpcMessage list" where
  "read_messages parse input =
     List.map_filter (\<lambda>line. case result_bind (parse line) (dec_message no_message) of Inl _ \<Rightarrow> None | Inr msg \<Rightarrow> Some msg)
       (filter (\<lambda>line. line \<noteq> []) (scan_lines input))"

definition writeMessage :: "(json \<Rightarrow> string) \<Rightarrow> jsonrpcMessage \<Rightarrow> string \<Rightarrow> string" where
  "writeMessage print msg written = written @ print (enc_message msg) @ [nl]"

section \<open>Handling\<close>

text \<open>How the read loop sorts the messages.\<close>

datatype incoming = Response | RequestCall | Notification | Ignored

definition classify :: "jsonrpcMessage \<Rightarrow> incoming" where
  "classify msg =
     (if jm_ID msg \<noteq> None \<and> jm_Method msg = [] then Response
      else if jm_ID msg \<noteq> None \<and> jm_Method msg \<noteq> [] then RequestCall
      else if jm_Method msg \<noteq> [] then Notification
      else Ignored)"

text \<open>The response to a request; \<open>handler\<close> is what the method handler returned, if there is a handler.\<close>

definition handleRequest :: "(string \<Rightarrow> json option \<Rightarrow> json result) option \<Rightarrow> jsonrpcMessage \<Rightarrow> jsonrpcMessage" where
  "handleRequest handler msg =
     (case handler of
        None \<Rightarrow> no_message\<lparr>jm_ID := jm_ID msg, jm_Error := Some (ErrMethodNotFound, ''no handler'')\<rparr>
      | Some h \<Rightarrow>
          (case h (jm_Method msg) (jm_Params msg) of
             Inl err \<Rightarrow> no_message\<lparr>jm_ID := jm_ID msg,
               jm_Error := Some (case as_rpc_error err of Some e \<Rightarrow> e | None \<Rightarrow> (ErrInternalError, error_text err))\<rparr>
           | Inr data \<Rightarrow> no_message\<lparr>jm_ID := jm_ID msg, jm_Result := Some data\<rparr>))"

text \<open>What a call returns for a response: its error or its result.\<close>

definition call_result :: "json option \<times> (int \<times> string) option \<Rightarrow> json option result" where
  "call_result resp = (case snd resp of Some (code, message) \<Rightarrow> Inl (NewRPCError code message) | None \<Rightarrow> Inr (fst resp))"

definition request_message :: "int \<Rightarrow> string \<Rightarrow> json option \<Rightarrow> jsonrpcMessage" where
  "request_message i method params = no_message\<lparr>jm_ID := Some i, jm_Method := method, jm_Params := params\<rparr>"

definition notification_message :: "string \<Rightarrow> json option \<Rightarrow> jsonrpcMessage" where
  "notification_message method params = no_message\<lparr>jm_Method := method, jm_Params := params\<rparr>"

section \<open>What is sent is what is read\<close>

definition wf_message :: "jsonrpcMessage \<Rightarrow> bool" where
  "wf_message m \<longleftrightarrow>
     (\<forall>i. jm_ID m = Some i \<longrightarrow> - (2 ^ 63) \<le> i \<and> i < 2 ^ 63) \<and>
     (\<forall>e. jm_Error m = Some e \<longrightarrow> - (2 ^ 63) \<le> fst e \<and> fst e < 2 ^ 63)"

lemma dec_int_JInt: "- (2 ^ 63) \<le> i \<Longrightarrow> i < 2 ^ 63 \<Longrightarrow> dec_int old (JInt i) = Inr i"
  by (simp add: JInt_def)

lemma JInt_not_null [simp]: "JInt i \<noteq> JNull"
  by (simp add: JInt_def)

lemma dec_enc_error: "- (2 ^ 63) \<le> fst e \<Longrightarrow> fst e < 2 ^ 63 \<Longrightarrow> dec_rpc_error (0, []) (enc_rpc_error e) = Inr e"
  by (simp add: dec_rpc_error_def enc_rpc_error_def dec_struct_def set_field_def dec_int_JInt to_upper_def upper_char_def)

lemma dec_members_append:
  "dec_members fds r (xs @ ys) = result_bind (dec_members fds r xs) (\<lambda>r'. dec_members fds r' ys)"
proof (induction xs arbitrary: r)
  case (Cons x xs)
  obtain k v where "x = (k, v)" by force
  then show ?case using Cons by (auto simp: result_bind_def split: option.split sum.split)
qed simp

lemma message_member:
  "find (\<lambda>(n, _). to_upper n = to_upper ''jsonrpc'') message_fields = Some (''jsonrpc'', ignore_string)"
  "find (\<lambda>(n, _). to_upper n = to_upper ''id'') message_fields = Some (''id'', set_field jm_ID_update jm_ID (dec_ptr dec_int 0))"
  "find (\<lambda>(n, _). to_upper n = to_upper ''method'') message_fields = Some (''method'', set_field jm_Method_update jm_Method dec_string)"
  "find (\<lambda>(n, _). to_upper n = to_upper ''params'') message_fields = Some (''params'', set_field jm_Params_update jm_Params dec_raw)"
  "find (\<lambda>(n, _). to_upper n = to_upper ''result'') message_fields = Some (''result'', set_field jm_Result_update jm_Result dec_raw)"
  "find (\<lambda>(n, _). to_upper n = to_upper ''error'') message_fields =
     Some (''error'', set_field jm_Error_update jm_Error (dec_ptr dec_rpc_error (0, [])))"
  by (simp_all add: message_fields_def to_upper_def upper_char_def)

lemma enc_rpc_error_not_null [simp]: "enc_rpc_error e \<noteq> JNull"
  by (simp add: enc_rpc_error_def)

lemma dec_enc_message: "wf_message m \<Longrightarrow> dec_message no_message (enc_message m) = Inr m"
proof -
  assume wf: "wf_message m"
  have i: "dec_members message_fields r (omit_none ''id'' JInt (jm_ID m)) = Inr (r\<lparr>jm_ID := jm_ID m\<rparr>)" if "jm_ID r = None" for r
    using wf that by (auto simp: omit_none_def message_member set_field_def dec_ptr_def dec_int_JInt wf_message_def split: option.split)
  have me: "dec_members message_fields r (omit_str ''method'' (jm_Method m)) = Inr (r\<lparr>jm_Method := jm_Method m\<rparr>)" if "jm_Method r = []" for r
    using that by (auto simp: omit_str_def message_member set_field_def)
  have pa: "dec_members message_fields r (omit_none ''params'' id (jm_Params m)) = Inr (r\<lparr>jm_Params := jm_Params m\<rparr>)" if "jm_Params r = None" for r
    using that by (auto simp: omit_none_def message_member set_field_def dec_raw_def split: option.split)
  have re: "dec_members message_fields r (omit_none ''result'' id (jm_Result m)) = Inr (r\<lparr>jm_Result := jm_Result m\<rparr>)" if "jm_Result r = None" for r
    using that by (auto simp: omit_none_def message_member set_field_def dec_raw_def split: option.split)
  have er: "dec_members message_fields r (omit_none ''error'' enc_rpc_error (jm_Error m)) = Inr (r\<lparr>jm_Error := jm_Error m\<rparr>)" if "jm_Error r = None" for r
    using wf that by (auto simp: omit_none_def message_member set_field_def dec_ptr_def dec_enc_error wf_message_def split: option.split)
  show ?thesis
    by (simp add: dec_message_def enc_message_def dec_struct_def dec_members_append message_member ignore_string_def no_message_def i me pa re er)
qed

text \<open>Lines without a newline are found again.\<close>

lemma scan_lines_written:
  assumes "list_all (\<lambda>l. nl \<notin> set l \<and> (l = [] \<or> last l \<noteq> CHR 0x0D) \<and> length l < maxMessageSize) ls"
  shows "scan_lines (concat (map (\<lambda>l. l @ [nl]) ls)) = ls"
proof -
  have "split_byte nl (concat (map (\<lambda>l. l @ [nl]) ls)) = ls @ [[]]"
    using assms
  proof (induction ls)
    case (Cons l ls)
    then show ?case using split_byte_append_sep [of nl l] split_byte_absent [of nl l] by simp
  qed simp
  moreover have "take_fitting ls = ls" using assms by (induction ls) (auto simp: drop_return_def)
  ultimately show ?thesis by (simp add: scan_lines_def Let_def)
qed

text \<open>What \<open>encoding/json\<close> promises of a value: its compact text is one line, not empty, and read back.\<close>

definition json_line :: "(json \<Rightarrow> string) \<Rightarrow> (string \<Rightarrow> json result) \<Rightarrow> json \<Rightarrow> bool" where
  "json_line print parse v \<longleftrightarrow>
     parse (print v) = Inr v \<and> nl \<notin> set (print v) \<and> print v \<noteq> [] \<and> last (print v) \<noteq> CHR 0x0D"

lemma written_messages:
  "fold (writeMessage print) ms written = written @ concat (map (\<lambda>m. print (enc_message m) @ [nl]) ms)"
  by (induction ms arbitrary: written) (simp_all add: writeMessage_def)

text \<open>The lines of the messages are found again, whatever the text of a message is, as long as it is one line.\<close>

lemma read_written:
  assumes "list_all (\<lambda>m. nl \<notin> set (print (enc_message m)) \<and> print (enc_message m) \<noteq> [] \<and>
      last (print (enc_message m)) \<noteq> CHR 0x0D \<and> length (print (enc_message m)) < maxMessageSize) ms"
    and "list_all (\<lambda>m. result_bind (parse (print (enc_message m))) (dec_message no_message) = Inr (f m)) ms"
  shows "read_messages parse (fold (writeMessage print) ms []) = map f ms"
proof -
  let ?ls = "map (\<lambda>m. print (enc_message m)) ms"
  have "list_all (\<lambda>l. nl \<notin> set l \<and> (l = [] \<or> last l \<noteq> CHR 0x0D) \<and> length l < maxMessageSize) ?ls"
    using assms(1) by (auto simp: list_all_iff)
  from scan_lines_written [OF this] have "scan_lines (fold (writeMessage print) ms []) = ?ls"
    by (simp add: written_messages comp_def)
  moreover have "filter (\<lambda>line. line \<noteq> []) ?ls = ?ls"
    using assms(1) by (auto simp: filter_id_conv list_all_iff)
  moreover have "List.map_filter (\<lambda>line. case result_bind (parse line) (dec_message no_message) of Inl _ \<Rightarrow> None | Inr msg \<Rightarrow> Some msg) ?ls = map f ms"
    using assms(2) by (induction ms) (auto simp: List.map_filter_def)
  ultimately show ?thesis by (simp add: read_messages_def)
qed

lemma messages_roundtrip:
  assumes "list_all (\<lambda>m. wf_message m \<and> json_line print parse (enc_message m) \<and>
      length (print (enc_message m)) < maxMessageSize) ms"
  shows "read_messages parse (fold (writeMessage print) ms []) = ms"
  using read_written [of print ms parse id] assms by (auto simp: json_line_def dec_enc_message list_all_iff)

section \<open>The text of the messages\<close>

definition valid_message :: "jsonrpcMessage \<Rightarrow> jsonrpcMessage" where
  "valid_message m =
     m\<lparr>jm_Method := to_valid (jm_Method m), jm_Params := map_option valid_json (jm_Params m),
       jm_Result := map_option valid_json (jm_Result m), jm_Error := map_option (apsnd to_valid) (jm_Error m)\<rparr>"

lemma valid_members_append: "valid_members (xs @ ys) = valid_members xs @ valid_members ys"
  by (induction xs) auto

lemma enc_valid_message: "valid_json (enc_message m) = enc_message (valid_message m)"
  by (cases "jm_Error m")
    (auto simp: enc_message_def valid_message_def valid_members_append omit_none_def omit_str_def enc_rpc_error_def JInt_def
      split: option.split)

lemma wf_valid_message: "wf_message m \<Longrightarrow> wf_message (valid_message m)"
  by (auto simp: wf_message_def valid_message_def)

lemma sent_line:
  "list_all plain_number (numbers (enc_message m)) \<Longrightarrow> nl \<notin> set (print_json num (enc_message m)) \<and> print_json num (enc_message m) \<noteq> [] \<and>
     last (print_json num (enc_message m)) \<noteq> CHR 0x0D"
  using printed_line by auto

lemma read_sent:
  assumes "wf_message m" and "list_all plain_number (numbers (enc_message m))" and "nesting (enc_message m) \<le> maxNestingDepth"
  shows "result_bind (json_parse err (print_json num (enc_message m))) (dec_message no_message) = Inr (valid_message m)"
  using assms by (simp add: json_parse_def parse_print enc_valid_message wf_valid_message dec_enc_message or_error_def)

text \<open>
  C32: the messages one side writes, in the text of \<open>encoding/json\<close>, are the messages the other side reads,
  all of them and in order, with the bytes of their strings that are no UTF-8 replaced: if the identifiers
  are 64-bit integers, the other numbers print as integers, the values are not nested deeper than the
  reader allows, and each text fits into the buffer of the scanner.
\<close>

theorem wire_roundtrip:
  assumes "list_all (\<lambda>m. wf_message m \<and> list_all plain_number (numbers (enc_message m)) \<and>
      nesting (enc_message m) \<le> maxNestingDepth \<and> length (print_json num (enc_message m)) < maxMessageSize) ms"
  shows "read_messages (json_parse err) (fold (writeMessage (print_json num)) ms []) = map valid_message ms"
proof (rule read_written)
  show "list_all (\<lambda>m. nl \<notin> set (print_json num (enc_message m)) \<and> print_json num (enc_message m) \<noteq> [] \<and>
      last (print_json num (enc_message m)) \<noteq> CHR 0x0D \<and> length (print_json num (enc_message m)) < maxMessageSize) ms"
    using assms sent_line by (auto simp: list_all_iff)
  show "list_all (\<lambda>m. result_bind (json_parse err (print_json num (enc_message m))) (dec_message no_message) =
      Inr (valid_message m)) ms"
    using assms by (auto simp: list_all_iff read_sent)
qed

theorem wire_roundtrip_witness:
  "let m = request_message 7 ''ping'' (Some (JObj [(''text'', JStr [CHR ''a'', nl, CHR 0xFF])]))
   in read_messages (json_parse (\<lambda>_. Errorf [] [])) (fold (writeMessage (print_json (\<lambda>_. []))) [m] []) =
        [m\<lparr>jm_Params := Some (JObj [(''text'', JStr [CHR ''a'', nl, CHR 0xEF, CHR 0xBF, CHR 0xBD])])\<rparr>]"
proof -
  define m where "m = request_message 7 ''ping'' (Some (JObj [(''text'', JStr [CHR ''a'', nl, CHR 0xFF])]))"
  have "length (print_json (\<lambda>_. []) (enc_message m)) < maxMessageSize"
    by (simp add: m_def enc_message_def request_message_def no_message_def omit_none_def omit_str_def JInt_def plain_number_def
        print_number_def itoa_def nat_digits.simps quote_json_def json_escape_def json_hex_def rune_rest_def utf8_lead_def)
  moreover have "wf_message m" by (simp add: m_def wf_message_def request_message_def no_message_def)
  moreover have "list_all plain_number (numbers (enc_message m))" "nesting (enc_message m) = 2"
    by (simp_all add: m_def enc_message_def request_message_def no_message_def omit_none_def omit_str_def JInt_def plain_number_def)
  ultimately have "read_messages (json_parse (\<lambda>_. Errorf [] [])) (fold (writeMessage (print_json (\<lambda>_. []))) [m] []) = map valid_message [m]"
    by (intro wire_roundtrip) simp
  moreover have "valid_message m = m\<lparr>jm_Params := Some (JObj [(''text'', JStr [CHR ''a'', nl, CHR 0xEF, CHR 0xBF, CHR 0xBD])])\<rparr>"
    by (simp add: m_def valid_message_def request_message_def no_message_def rune_rest_def utf8_lead_def)
  ultimately show ?thesis unfolding Let_def m_def [symmetric] by simp
qed

section \<open>Results and responses\<close>

definition response_of :: "jsonrpcMessage \<Rightarrow> json option \<times> (int \<times> string) option" where
  "response_of msg = (jm_Result msg, jm_Error msg)"

lemma as_rpc_NewRPCError [simp]: "as_rpc_error (NewRPCError code message) = Some (code, message)"
  by (simp add: NewRPCError_def)

lemma as_rpc_wrapped: "f \<noteq> rpc_format \<Longrightarrow> verbs f = ''w'' \<Longrightarrow> as_rpc_error (Errorf f [AErr e]) = as_rpc_error e"
  by (simp split: option.split)

text \<open>
  A call returns what the other side's handler returned: its result; an error that has a code,
  also one that was wrapped, with its code and message; any other error as an internal error with its
  text. A request always gets a response, and under its own identifier.
\<close>

theorem call_returns_handled:
  "jm_ID (handleRequest handler msg) = jm_ID msg \<and> classify (handleRequest handler msg) \<in> {Response, Ignored} \<and>
   call_result (response_of (handleRequest handler msg)) =
     (case handler of
        None \<Rightarrow> Inl (NewRPCError ErrMethodNotFound ''no handler'')
      | Some h \<Rightarrow>
          (case h (jm_Method msg) (jm_Params msg) of
             Inr data \<Rightarrow> Inr (Some data)
           | Inl err \<Rightarrow>
               (case as_rpc_error err of
                  Some (code, message) \<Rightarrow> Inl (NewRPCError code message)
                | None \<Rightarrow> Inl (NewRPCError ErrInternalError (error_text err)))))"
  by (auto simp: handleRequest_def call_result_def response_of_def no_message_def classify_def
      split: option.split sum.split)

end
