(* ===== verification/Server.thy ===== *)
theory Server
  imports Runner AgentRegistry Executor JsonRpc
begin

text \<open>
  internal/protocol/server.go: the handler of the agent client protocol. It keeps the sessions of a
  connection and the client's capabilities, starts a run for a prompt, turns the run's events into
  notifications and permission requests, and the client's answers into the commands of the run. The
  client is the function \<open>cl\<close> of the messages sent so far to its answer to a request; everything sent
  to it, requests and notifications, is listed in order. \<open>parse\<close> is the text side of \<open>encoding/json\<close>.
  What the three channels of \<open>forwardEvents\<close> deliver, and in which order, is the list of arrivals.
  The lemmas show that only the client's permission becomes an approval, that each prompt is
  answered once by the way its run ended, and how the sessions are kept.
\<close>

section \<open>Helpers\<close>

definition extractText :: "ContentBlock list \<Rightarrow> string" where
  "extractText blocks = join [nl] (map cb_Text (filter (\<lambda>b. cb_Type b = ''text'' \<and> cb_Text b \<noteq> []) blocks))"

definition parseRawInput :: "(string \<Rightarrow> json result) \<Rightarrow> string \<Rightarrow> json option" where
  "parseRawInput parse argumentsJSON =
     (if argumentsJSON = [] then None
      else case parse argumentsJSON of
             Inr (JObj kvs) \<Rightarrow> Some (JObj kvs)
           | Inr JNull \<Rightarrow> Some JNull
           | _ \<Rightarrow> None)"

definition parseSkillInvocation :: "string \<Rightarrow> string \<times> string" where
  "parseSkillInvocation given =
     (let text = trim_prefix given [slash]
      in case index_of text '' '' of
           None \<Rightarrow> (text, [])
         | Some idx \<Rightarrow> (take idx text, trim_space (drop (idx + 1) text)))"

definition hasACPTools :: "ClientCapabilities \<Rightarrow> bool" where
  "hasACPTools caps =
     (if cc_Terminal caps then True
      else case cc_Fs caps of None \<Rightarrow> False | Some fs \<Rightarrow> fc_ReadTextFile fs \<or> fc_WriteTextFile fs)"

definition outcomeIsAllowed :: "PermissionOutcome \<Rightarrow> PermissionOption list \<Rightarrow> bool" where
  "outcomeIsAllowed outcome options =
     (if pm_Outcome outcome \<noteq> ''selected'' then False
      else case find (\<lambda>opt. po_OptionID opt = pm_OptionID outcome) options of
             None \<Rightarrow> False | Some opt \<Rightarrow> IsAllow (po_Kind opt))"

section \<open>Sessions\<close>

text \<open>\<open>running\<close>: the command channel, the cancel function and the done channel are set.\<close>

record sessionState =
  ss_agentName :: string
  ss_sessionID :: string
  ss_cwd :: string
  ss_running :: bool

record Handler =
  hd_sessions :: "(string \<times> sessionState) list"
  hd_caps :: ClientCapabilities

definition NewHandler :: Handler where
  "NewHandler = \<lparr>hd_sessions = [], hd_caps = no_caps\<rparr>"

definition sessions_Store :: "sessionState \<Rightarrow> Handler \<Rightarrow> Handler" where
  "sessions_Store sess h = h\<lparr>hd_sessions := AList.update (ss_sessionID sess) sess (hd_sessions h)\<rparr>"

definition sessions_Load :: "Handler \<Rightarrow> string \<Rightarrow> sessionState option" where
  "sessions_Load h sid = map_of (hd_sessions h) sid"

interpretation session_store: named_store sessions_Store sessions_Load ss_sessionID
  by unfold_locales (simp add: sessions_Store_def sessions_Load_def update_conv')

abbreviation DefaultAgentName :: string where "DefaultAgentName \<equiv> ''default''"

definition notify :: "string \<Rightarrow> json \<Rightarrow> request list \<Rightarrow> request list" where
  "notify method params made = made @ [(method, params)]"

definition sendUpdate :: "string \<Rightarrow> json \<Rightarrow> request list \<Rightarrow> request list" where
  "sendUpdate sid update made = notify ''session/update'' (enc_SessionNotification sid update) made"

definition invalid_params :: "'a result \<Rightarrow> 'a result" where
  "invalid_params r = map_error (\<lambda>err. NewRPCError ErrInvalidParams (error_text err)) r"

definition initialize_response :: json where
  "initialize_response =
     JObj [(''protocolVersion'', JInt ProtocolVersion),
           (''agentCapabilities'', JObj [(''loadSession'', JBool True)]),
           (''agentInfo'', JObj [(''name'', JStr ''kontekst''), (''title'', JStr ''Kontekst''), (''version'', JStr ''0.1.0'')]),
           (''authMethods'', JArr [])]"

definition handleInitialize :: "json option \<Rightarrow> Handler \<Rightarrow> json result \<times> Handler" where
  "handleInitialize params h =
     (case (if params = None then Inr \<lparr>ir_ProtocolVersion = 0, ir_ClientCapabilities = no_caps\<rparr>
            else invalid_params (unmarshal dec_InitializeRequest \<lparr>ir_ProtocolVersion = 0, ir_ClientCapabilities = no_caps\<rparr> params)) of
        Inl err \<Rightarrow> (Inl err, h)
      | Inr req \<Rightarrow> (Inr initialize_response, h\<lparr>hd_caps := ir_ClientCapabilities req\<rparr>))"

definition requested_agent :: "NewSessionRequest \<Rightarrow> string" where
  "requested_agent req =
     (case ns_Meta req of None \<Rightarrow> DefaultAgentName
      | Some meta \<Rightarrow>
          (let name = str_or_empty (json_str (map_of meta ''agentName''))
           in if name \<noteq> [] then name else DefaultAgentName))"

definition handleNewSession ::
  "string \<Rightarrow> Skill list option \<Rightarrow> json option \<Rightarrow> Handler \<Rightarrow> request list \<Rightarrow> json result \<times> Handler \<times> request list" where
  "handleNewSession fresh skills params h made =
     (case invalid_params (unmarshal dec_NewSessionRequest \<lparr>ns_Cwd = [], ns_Meta = None\<rparr> params) of
        Inl err \<Rightarrow> (Inl err, h, made)
      | Inr req \<Rightarrow>
          let h1 = sessions_Store \<lparr>ss_agentName = requested_agent req, ss_sessionID = fresh, ss_cwd = ns_Cwd req, ss_running = False\<rparr> h;
              commands = (case skills of None \<Rightarrow> [] | Some ss \<Rightarrow> map (\<lambda>s. (sk_Name s, sk_Description s)) ss);
              made1 = (if commands \<noteq> [] then sendUpdate fresh (AvailableCommandsUpdate commands) made else made)
          in (Inr (JObj [(''sessionId'', JStr fresh)]), h1, made1))"

definition handleLoadSession :: "json option \<Rightarrow> Handler \<Rightarrow> json result \<times> Handler" where
  "handleLoadSession params h =
     (case invalid_params (unmarshal dec_LoadSessionRequest \<lparr>ls_SessionID = [], ls_Cwd = []\<rparr> params) of
        Inl err \<Rightarrow> (Inl err, h)
      | Inr req \<Rightarrow>
          (Inr (JObj [(''sessionId'', JStr (ls_SessionID req))]),
           sessions_Store \<lparr>ss_agentName = DefaultAgentName, ss_sessionID = ls_SessionID req, ss_cwd = ls_Cwd req, ss_running = False\<rparr> h))"

section \<open>Events of a run\<close>

text \<open>\<open>sendCommand\<close>: nothing is sent when no run is active.\<close>

definition sendCommand :: "bool \<Rightarrow> Command \<Rightarrow> Command list \<Rightarrow> Command list" where
  "sendCommand running cmd cmds = (if running then cmds @ [cmd] else cmds)"

definition permission_options :: "PermissionOption list" where
  "permission_options =
     [\<lparr>po_OptionID = ''allow'', po_Name = ''Allow'', po_Kind = ''allow_once''\<rparr>,
      \<lparr>po_OptionID = ''reject'', po_Name = ''Reject'', po_Kind = ''reject_once''\<rparr>]"

definition preview_data :: "(string \<Rightarrow> json result) \<Rightarrow> string \<Rightarrow> json option" where
  "preview_data parse preview =
     (if preview = [] then None
      else case parse preview of Inl _ \<Rightarrow> None | Inr JNull \<Rightarrow> None | Inr v \<Rightarrow> Some v)"

definition permission_request :: "(string \<Rightarrow> json result) \<Rightarrow> string \<Rightarrow> ProposedToolCall \<Rightarrow> string \<Rightarrow> RequestPermissionRequest" where
  "permission_request parse sid call kind =
     \<lparr>rp_SessionID = sid,
      rp_ToolCall = \<lparr>tcd_ToolCallID = pt_CallID call, tcd_Title = Some (pt_Name call), tcd_Kind = Some kind,
        tcd_Status = Some ToolCallStatusPending, tcd_RawInput = parseRawInput parse (pt_ArgumentsJSON call),
        tcd_Preview = preview_data parse (pt_Preview call)\<rparr>,
      rp_Options = permission_options\<rparr>"

definition requestPermission ::
  "client \<Rightarrow> (string \<Rightarrow> json result) \<Rightarrow> string \<Rightarrow> ProposedToolCall \<Rightarrow> string \<Rightarrow> request list \<Rightarrow> PermissionOutcome result \<times> request list" where
  "requestPermission cl parse sid call kind made =
     (case ask cl ''session/request_permission'' (enc_RequestPermissionRequest (permission_request parse sid call kind)) made of
        (Inl err, made') \<Rightarrow> (Inl (Errorf ''protocol: request permission: %w'' [AErr err]), made')
      | (Inr r, made') \<Rightarrow>
          (map_error (\<lambda>err. Errorf ''protocol: unmarshal permission response: %w'' [AErr err])
             (unmarshal dec_RequestPermissionResponse no_outcome r), made'))"

definition decision_on :: "ProposedToolCall \<Rightarrow> PermissionOutcome result \<Rightarrow> Command" where
  "decision_on call perm =
     (case perm of
        Inl err \<Rightarrow> \<lparr>cm_Type = CmdDenyTool, cm_CallID = pt_CallID call, cm_Reason = ''permission request failed''\<rparr>
      | Inr outcome \<Rightarrow>
          if outcomeIsAllowed outcome permission_options
          then \<lparr>cm_Type = CmdApproveTool, cm_CallID = pt_CallID call, cm_Reason = []\<rparr>
          else \<lparr>cm_Type = CmdDenyTool, cm_CallID = pt_CallID call,
                cm_Reason = (if pm_Outcome outcome = ''cancelled'' then ''cancelled'' else ''denied by user'')\<rparr>)"

fun propose_calls ::
  "client \<Rightarrow> (string \<Rightarrow> json result) \<Rightarrow> string \<Rightarrow> bool \<Rightarrow> ProposedToolCall list \<Rightarrow> request list \<times> Command list \<Rightarrow> request list \<times> Command list" where
  "propose_calls cl parse sid running [] st = st"
| "propose_calls cl parse sid running (call # calls) (made, cmds) =
     (let kind = ToolKindFromName (pt_Name call);
          made1 = sendUpdate sid (ToolCallStart (pt_CallID call) (pt_Name call) kind None
                    (parseRawInput parse (pt_ArgumentsJSON call))) made;
          (perm, made2) = requestPermission cl parse sid call kind made1
      in propose_calls cl parse sid running calls (made2, sendCommand running (decision_on call perm) cmds))"

text \<open>The answer to the prompt, once there is one: a stop reason or an error.\<close>

type_synonym answer = "string result option"

definition enc_MessageStats :: "MessageStats \<Rightarrow> json" where
  "enc_MessageStats m =
     JObj [(''role'', JStr (ms_Role m)), (''tokens'', JInt (ms_Tokens m)), (''source'', JStr (ms_Source m))]"

definition enc_Snapshot :: "Snapshot \<Rightarrow> json" where
  "enc_Snapshot s =
     JObj ([(''context_size'', JInt (sn_ContextSize s)), (''system_tokens'', JInt (sn_SystemTokens s)),
            (''tool_tokens'', JInt (sn_ToolTokens s)), (''history_tokens'', JInt (sn_HistoryTokens s)),
            (''memory_tokens'', JInt (sn_MemoryTokens s)), (''total_tokens'', JInt (sn_TotalTokens s)),
            (''remaining_tokens'', JInt (sn_RemainingTokens s)), (''history_messages'', JInt (sn_HistoryMessages s)),
            (''memory_messages'', JInt (sn_MemoryMessages s)), (''total_messages'', JInt (sn_TotalMessages s)),
            (''history_budget'', JInt (sn_HistoryBudget s))] @
           (if sn_Messages s = [] then [] else [(''messages'', JArr (map enc_MessageStats (sn_Messages s)))]))"

definition processEvent ::
  "client \<Rightarrow> (string \<Rightarrow> json result) \<Rightarrow> string \<Rightarrow> bool \<Rightarrow> Event \<Rightarrow> request list \<times> Command list \<Rightarrow>
     answer \<times> request list \<times> Command list" where
  "processEvent cl parse sid running e st =
     (case st of (made, cmds) \<Rightarrow>
      if ev_Type e = EvtRunStarted then (None, made, cmds)
      else if ev_Type e = EvtTokenDelta then (None, sendUpdate sid (AgentMessageChunk (ev_Token e)) made, cmds)
      else if ev_Type e = EvtReasoningDelta then (None, sendUpdate sid (AgentThoughtChunk (ev_Reasoning e)) made, cmds)
      else if ev_Type e = EvtTurnCompleted then
        (let made1 = (if rs_Reasoning (ev_Response e) \<noteq> []
                      then sendUpdate sid (AgentThoughtChunk (rs_Reasoning (ev_Response e))) made else made);
             made2 = (if rs_Content (ev_Response e) \<noteq> []
                      then sendUpdate sid (AgentMessageChunk (rs_Content (ev_Response e))) made1 else made1);
             made3 = (case ev_Snapshot e of None \<Rightarrow> made2 | Some s \<Rightarrow> notify ''_kontekst/context'' (enc_Snapshot s) made2)
         in (None, made3, cmds))
      else if ev_Type e = EvtToolsProposed then (None, propose_calls cl parse sid running (ev_Calls e) (made, cmds))
      else if ev_Type e = EvtToolStarted then
        (None, sendUpdate sid (ToolCallUpdate (ev_CallID e) ToolCallStatusInProgress None None) made, cmds)
      else if ev_Type e = EvtToolCompleted then
        (None, sendUpdate sid (ToolCallUpdate (ev_CallID e) ToolCallStatusCompleted (Some [TextToolContent (ev_Output e)])
                 (Some (JObj [(''content'', JStr (ev_Output e))]))) made, cmds)
      else if ev_Type e = EvtToolFailed then
        (None, sendUpdate sid (ToolCallUpdate (ev_CallID e) ToolCallStatusFailed (Some [TextToolContent (ev_Error e)])
                 (Some (JObj [(''error'', JStr (ev_Error e))]))) made, cmds)
      else if ev_Type e = EvtToolsCompleted then (None, made, cmds)
      else if ev_Type e = EvtRunCompleted then (Some (Inr StopReasonEndTurn), made, cmds)
      else if ev_Type e = EvtRunCancelled then (Some (Inr StopReasonCancelled), made, cmds)
      else if ev_Type e = EvtRunFailed then (Some (Inl (NewRPCError ErrInternalError (ev_Error e))), made, cmds)
      else (None, made, cmds))"

datatype arrival = Arrived Event | EventsClosed | ConnectionDone | ContextDone

text \<open>The loop of \<open>forwardEvents\<close>; no answer means that it still waits.\<close>

fun forwardEvents ::
  "client \<Rightarrow> (string \<Rightarrow> json result) \<Rightarrow> string \<Rightarrow> bool \<Rightarrow> arrival list \<Rightarrow> request list \<times> Command list \<Rightarrow>
     answer \<times> request list \<times> Command list" where
  "forwardEvents cl parse sid running [] st = (None, st)"
| "forwardEvents cl parse sid running (a # as) st =
     (case a of
        EventsClosed \<Rightarrow> (Some (Inr StopReasonEndTurn), st)
      | Arrived e \<Rightarrow>
          (case processEvent cl parse sid running e st of
             (Some r, st') \<Rightarrow> (Some r, st')
           | (None, st') \<Rightarrow> forwardEvents cl parse sid running as st')
      | _ \<Rightarrow> (Some (Inr StopReasonCancelled),
              (fst st, sendCommand running \<lparr>cm_Type = CmdCancel, cm_CallID = [], cm_Reason = []\<rparr> (snd st))))"

section \<open>Prompts\<close>

text \<open>A prompt that begins with a slash names a skill, if there is one of that name.\<close>

definition skill_prompt :: "SkillRegistry option \<Rightarrow> string \<Rightarrow> (Skill option \<times> string \<times> string) result" where
  "skill_prompt skills promptText =
     (if has_prefix promptText [slash]
      then (case parseSkillInvocation promptText of (skillName, args) \<Rightarrow>
              (case skills of None \<Rightarrow> Inr (None, [], promptText)
               | Some registry \<Rightarrow>
                   (case skills_Get registry skillName of None \<Rightarrow> Inr (None, [], promptText)
                    | Some skill \<Rightarrow>
                        (case Render skill args of
                           Inl err \<Rightarrow> Inl (NewRPCError ErrInvalidParams (error_text (Errorf ''failed to render skill: %v'' [AErr err])))
                         | Inr rendered \<Rightarrow> Inr (Some skill, rendered, args)))))
      else Inr (None, [], promptText))"

text \<open>What the handler reads: the skills, the agents on disk, and the executor that delegates to the client.\<close>

record services =
  sv_skills :: "SkillRegistry option"
  sv_toml :: "string \<Rightarrow> AgentTOML result"
  sv_agentsDir :: string
  sv_delegate :: "ToolExecutor \<Rightarrow> executor"

definition run_config ::
  "services \<Rightarrow> ClientCapabilities \<Rightarrow> sessionState \<Rightarrow> string \<Rightarrow> AgentConfig \<Rightarrow> Skill option \<times> string \<times> string \<Rightarrow> StartConfig" where
  "run_config sv caps sess sid agentCfg sp =
     (case sp of (skill, skillContent, promptText) \<Rightarrow>
      \<lparr>rc_AgentName = ss_agentName sess, rc_ContextSize = ac_ContextSize agentCfg, rc_Sampling = ac_Sampling agentCfg,
       rc_ProviderModel = pv_Model (ac_Provider agentCfg), rc_WorkingDir = ss_cwd sess, rc_ToolRole = ac_ToolRole agentCfg,
       sc_Prompt = promptText, sc_SessionID = ss_sessionID sess, sc_AgentSystemPrompt = ac_SystemPrompt agentCfg,
       sc_ProviderEndpoint = pv_Endpoint (ac_Provider agentCfg),
       sc_ProviderHTTPTimeout = pv_HTTPTimeout (ac_Provider agentCfg), sc_Skill = skill, sc_SkillContent = skillContent,
       sc_Tools = (if hasACPTools caps then Some (sv_delegate sv (NewToolExecutor sid caps)) else None)\<rparr>)"

definition prompt_config :: "services \<Rightarrow> fs \<Rightarrow> Handler \<Rightarrow> json option \<Rightarrow> (string \<times> StartConfig) result" where
  "prompt_config sv s h params =
     result_bind (invalid_params (unmarshal dec_PromptRequest \<lparr>pr_SessionID = [], pr_Prompt = []\<rparr> params)) (\<lambda>req.
     result_bind (or_error (sessions_Load h (pr_SessionID req)) (NewRPCError ErrNotFound ''session not found'')) (\<lambda>sess.
     result_bind (skill_prompt (sv_skills sv) (extractText (pr_Prompt req))) (\<lambda>sp.
     result_bind (invalid_params (agent_Load (sv_toml sv) (sv_agentsDir sv) s (ss_agentName sess))) (\<lambda>agentCfg.
     Inr (pr_SessionID req, run_config sv (hd_caps h) sess (pr_SessionID req) agentCfg sp)))))"

text \<open>The runner as the handler sees it: an error, or the events of the run on the commands of a channel.\<close>

type_synonym runner = "StartConfig \<Rightarrow> channel \<Rightarrow> Event list result"

text \<open>The session runs until its prompt is answered.\<close>

definition set_running :: "string \<Rightarrow> bool \<Rightarrow> Handler \<Rightarrow> Handler" where
  "set_running sid b h =
     (case sessions_Load h sid of None \<Rightarrow> h
      | Some sess \<Rightarrow> h\<lparr>hd_sessions := AList.update sid (sess\<lparr>ss_running := b\<rparr>) (hd_sessions h)\<rparr>)"

definition handlePrompt ::
  "client \<Rightarrow> (string \<Rightarrow> json result) \<Rightarrow> services \<Rightarrow> runner \<Rightarrow> fs \<Rightarrow> json option \<Rightarrow> channel \<Rightarrow> Handler \<Rightarrow> request list \<Rightarrow>
     answer \<times> Handler \<times> request list \<times> Command list" where
  "handlePrompt cl parse sv runner s params ch h made =
     (case prompt_config sv s h params of
        Inl err \<Rightarrow> (Some (Inl err), h, made, [])
      | Inr (sid, cfg) \<Rightarrow>
          (case runner cfg ch of
             Inl err \<Rightarrow> (Some (Inl (NewRPCError ErrInternalError (error_text err))), h, made, [])
           | Inr events \<Rightarrow>
               (case forwardEvents cl parse sid True (map Arrived events) (made, []) of
                  (answer, st) \<Rightarrow> (answer, set_running sid (answer = None) h, st))))"

text \<open>The runner of the program.\<close>

definition default_runner ::
  "nat \<Rightarrow> env \<Rightarrow> executor \<Rightarrow> (ToolDef list \<Rightarrow> string) \<Rightarrow> string \<Rightarrow> string \<Rightarrow> string \<Rightarrow> fs \<Rightarrow> runner" where
  "default_runner fuel en registered marshal_tools dataDir fresh runID s cfg ch =
     result_bind (runner_StartRun fuel en registered marshal_tools dataDir fresh cfg runID s ch) (\<lambda>(evs, w', st). Inr evs)"

definition handleCancel :: "json option \<Rightarrow> Handler \<Rightarrow> Command list \<Rightarrow> Command list" where
  "handleCancel params h cmds =
     (case unmarshal dec_CancelNotification [] params of Inl err \<Rightarrow> cmds
      | Inr sid \<Rightarrow>
          (case sessions_Load h sid of None \<Rightarrow> cmds
           | Some sess \<Rightarrow> sendCommand (ss_running sess) \<lparr>cm_Type = CmdCancel, cm_CallID = [], cm_Reason = []\<rparr> cmds))"

text \<open>
  \<open>Dispatch\<close>: the result of the method, the handler, what was sent, and the commands. The prompt is
  the function \<open>prompt\<close>, which answers when its run ends.
\<close>

definition Dispatch ::
  "(json option \<Rightarrow> Handler \<Rightarrow> request list \<Rightarrow> answer \<times> Handler \<times> request list \<times> Command list) \<Rightarrow> string \<Rightarrow> Skill list option \<Rightarrow>
     string \<Rightarrow> json option \<Rightarrow> Handler \<Rightarrow> request list \<Rightarrow> json result option \<times> Handler \<times> request list \<times> Command list" where
  "Dispatch prompt fresh skills method params h made =
     (if method = ''initialize'' then (case handleInitialize params h of (r, h') \<Rightarrow> (Some r, h', made, []))
      else if method = ''authenticate'' then (Some (Inr (JObj [])), h, made, [])
      else if method = ''session/new'' then
        (case handleNewSession fresh skills params h made of (r, h', made') \<Rightarrow> (Some r, h', made', []))
      else if method = ''session/load'' then (case handleLoadSession params h of (r, h') \<Rightarrow> (Some r, h', made, []))
      else if method = ''session/prompt'' then
        (case prompt params h made of (a, h', made', cmds) \<Rightarrow>
          (map_option (\<lambda>r. result_bind r (\<lambda>reason. Inr (JObj [(''stopReason'', JStr reason)]))) a, h', made', cmds))
      else if method = ''session/cancel'' then (Some (Inr JNull), h, made, handleCancel params h [])
      else if method = ''session/set_mode'' then (Some (Inr (JObj [])), h, made, [])
      else if method = ''session/set_config_option'' then (Some (Inr (JObj [(''configOptions'', JArr [])])), h, made, [])
      else (Some (Inl (NewRPCError ErrMethodNotFound
              (if has_prefix method ''_'' then sprintf ''unknown extension: %s'' [method] else sprintf ''unknown method: %s'' [method]))), h, made, []))"

section \<open>Approvals come from the client\<close>

text \<open>
  After \<open>base\<close> was sent, the client was asked about the call in the session, and selected an option
  that allows it.
\<close>

definition granted :: "client \<Rightarrow> string \<Rightarrow> request list \<Rightarrow> string \<Rightarrow> request list \<Rightarrow> bool" where
  "granted cl sid base callID made \<longleftrightarrow>
     (\<exists>mid after req r outcome.
        made = base @ mid @ (''session/request_permission'', enc_RequestPermissionRequest req) # after \<and>
        rp_SessionID req = sid \<and> tcd_ToolCallID (rp_ToolCall req) = callID \<and>
        cl (base @ mid) ''session/request_permission'' (enc_RequestPermissionRequest req) = Inr r \<and>
        unmarshal dec_RequestPermissionResponse no_outcome r = Inr outcome \<and> outcomeIsAllowed outcome (rp_Options req))"

lemma granted_more: "granted cl sid base callID made \<Longrightarrow> granted cl sid base callID (made @ extra)"
proof -
  assume "granted cl sid base callID made"
  then obtain mid after req r outcome where
    g: "made = base @ mid @ (''session/request_permission'', enc_RequestPermissionRequest req) # after"
    "rp_SessionID req = sid" "tcd_ToolCallID (rp_ToolCall req) = callID"
    "cl (base @ mid) ''session/request_permission'' (enc_RequestPermissionRequest req) = Inr r"
    "unmarshal dec_RequestPermissionResponse no_outcome r = Inr outcome" "outcomeIsAllowed outcome (rp_Options req)"
    unfolding granted_def by blast
  show ?thesis
    unfolding granted_def
    by (intro exI [of _ mid] exI [of _ "after @ extra"] exI [of _ req] exI [of _ r] exI [of _ outcome])
      (simp add: g)
qed

text \<open>What was sent extends \<open>base\<close>, and each approval among the commands was granted.\<close>

definition only_granted :: "client \<Rightarrow> string \<Rightarrow> request list \<Rightarrow> request list \<times> Command list \<Rightarrow> bool" where
  "only_granted cl sid base st \<longleftrightarrow> (\<exists>mid. fst st = base @ mid) \<and>
     (\<forall>c \<in> set (snd st). cm_Type c = CmdApproveTool \<longrightarrow> granted cl sid base (cm_CallID c) (fst st))"

lemma only_granted_more: "only_granted cl sid base (made, cmds) \<Longrightarrow> only_granted cl sid base (made @ extra, cmds)"
  by (auto simp: only_granted_def granted_more)

lemma only_granted_update:
  "only_granted cl sid base (made, cmds) \<Longrightarrow> only_granted cl sid base (sendUpdate s u made, cmds)"
  by (simp add: sendUpdate_def notify_def only_granted_more)

lemma only_granted_notify:
  "only_granted cl sid base (made, cmds) \<Longrightarrow> only_granted cl sid base (notify m p made, cmds)"
  by (simp add: notify_def only_granted_more)

lemma only_granted_send:
  "only_granted cl sid base (made, cmds) \<Longrightarrow> (cm_Type c = CmdApproveTool \<Longrightarrow> granted cl sid base (cm_CallID c) made) \<Longrightarrow>
     only_granted cl sid base (made, sendCommand running c cmds)"
  by (auto simp: only_granted_def sendCommand_def)

lemma decision_CallID [simp]: "cm_CallID (decision_on call perm) = pt_CallID call"
  by (auto simp: decision_on_def split: sum.split)

lemma requestPermission_granted:
  assumes "requestPermission cl parse sid call kind made = (perm, made')" and "made = base @ pre"
  shows "(\<exists>extra. made' = made @ extra) \<and>
    (cm_Type (decision_on call perm) = CmdApproveTool \<longrightarrow> granted cl sid base (pt_CallID call) made')"
proof -
  define req where "req = permission_request parse sid call kind"
  have m: "made' = made @ [(''session/request_permission'', enc_RequestPermissionRequest req)]"
    using assms(1) by (auto simp: requestPermission_def ask_def req_def split: sum.splits)
  have "granted cl sid base (pt_CallID call) made'" if approved: "cm_Type (decision_on call perm) = CmdApproveTool"
  proof -
    obtain outcome where o: "perm = Inr outcome" "outcomeIsAllowed outcome permission_options"
      using approved by (cases perm) (auto simp: decision_on_def split: if_split_asm)
    then obtain r where "cl made ''session/request_permission'' (enc_RequestPermissionRequest req) = Inr r"
      "unmarshal dec_RequestPermissionResponse no_outcome r = Inr outcome"
      using assms(1) by (auto simp: requestPermission_def ask_def req_def result_simps split: sum.splits)
    then show ?thesis
      unfolding granted_def m using o(2) assms(2)
      by (intro exI [of _ pre] exI [of _ "[]"] exI [of _ req] exI [of _ r] exI [of _ outcome])
        (simp add: req_def permission_request_def)
  qed
  then show ?thesis using m by blast
qed

lemma propose_calls_granted:
  "only_granted cl sid base (made, cmds) \<Longrightarrow> only_granted cl sid base (propose_calls cl parse sid running calls (made, cmds))"
proof (induction calls arbitrary: made cmds)
  case (Cons call calls)
  define kind where "kind = ToolKindFromName (pt_Name call)"
  define made1 where "made1 = sendUpdate sid (ToolCallStart (pt_CallID call) (pt_Name call) kind None
      (parseRawInput parse (pt_ArgumentsJSON call))) made"
  obtain perm made2 where p: "requestPermission cl parse sid call kind made1 = (perm, made2)" by force
  have g1: "only_granted cl sid base (made1, cmds)"
    unfolding made1_def by (rule only_granted_update [OF Cons.prems])
  then obtain pre where "made1 = base @ pre" by (auto simp: only_granted_def)
  note g = requestPermission_granted [OF p this]
  then have "only_granted cl sid base (made2, cmds)" using only_granted_more [OF g1] by auto
  then have "only_granted cl sid base (made2, sendCommand running (decision_on call perm) cmds)"
    using g by (intro only_granted_send) auto
  from Cons.IH [OF this] show ?case using p by (simp add: made1_def kind_def Let_def)
qed simp

lemma processEvent_granted:
  assumes "only_granted cl sid base (made, cmds)"
  shows "only_granted cl sid base (snd (processEvent cl parse sid running e (made, cmds)))"
proof -
  have "only_granted cl sid base (snd (processEvent cl parse sid running e (made, cmds)))"
    if "ev_Type e = EvtToolsProposed"
    using propose_calls_granted [OF assms] that by (simp add: processEvent_def)
  moreover have "only_granted cl sid base (snd (processEvent cl parse sid running e (made, cmds)))"
    if "ev_Type e \<noteq> EvtToolsProposed"
    using assms that
    by (auto simp: processEvent_def Let_def intro!: only_granted_update only_granted_notify split: option.split)
  ultimately show ?thesis by blast
qed

lemma forwardEvents_granted:
  "only_granted cl sid base st \<Longrightarrow> only_granted cl sid base (snd (forwardEvents cl parse sid running as st))"
proof (induction as arbitrary: st)
  case (Cons a as)
  obtain made cmds where st: "st = (made, cmds)" by force
  have cancel: "only_granted cl sid base (made, sendCommand running \<lparr>cm_Type = CmdCancel, cm_CallID = [], cm_Reason = []\<rparr> cmds)"
    using Cons.prems st by (intro only_granted_send) auto
  show ?case
  proof (cases a)
    case (Arrived e)
    obtain r st' where p: "processEvent cl parse sid running e st = (r, st')" by (metis prod.collapse)
    then have "only_granted cl sid base st'" using processEvent_granted [of cl sid base made cmds parse running e] Cons.prems st by simp
    then show ?thesis using Cons.IH Arrived p by (auto split: option.split)
  qed (use Cons.prems st cancel in auto)
qed simp

section \<open>Answers\<close>

text \<open>The answer the last event of a finished run stands for.\<close>

definition answer_of :: "Event \<Rightarrow> string result" where
  "answer_of e =
     (if ev_Type e = EvtRunCompleted then Inr StopReasonEndTurn
      else if ev_Type e = EvtRunCancelled then Inr StopReasonCancelled
      else Inl (NewRPCError ErrInternalError (ev_Error e)))"

lemma processEvent_answer:
  "fst (processEvent cl parse sid running e st) = (if terminal e then Some (answer_of e) else None)"
  by (cases st) (auto simp: processEvent_def terminal_def answer_of_def Let_def)

lemma forwardEvents_running:
  "list_all (\<lambda>e. \<not> terminal e) es \<Longrightarrow>
     \<exists>st'. forwardEvents cl parse sid running (map Arrived es @ as) st = forwardEvents cl parse sid running as st'"
proof (induction es arbitrary: st)
  case (Cons e es)
  obtain st' where "processEvent cl parse sid running e st = (None, st')"
    using processEvent_answer [of cl parse sid running e st] Cons.prems by (metis list.pred_inject(2) prod.collapse)
  then show ?case using Cons by simp
qed auto

lemma forwardEvents_answer:
  "list_all (\<lambda>e. \<not> terminal e) es \<Longrightarrow> fst (forwardEvents cl parse sid running (map Arrived es) st) = None"
  "list_all (\<lambda>e. \<not> terminal e) es \<Longrightarrow> terminal l \<Longrightarrow>
     fst (forwardEvents cl parse sid running (map Arrived (es @ [l])) st) = Some (answer_of l)"
proof -
  assume es: "list_all (\<lambda>e. \<not> terminal e) es"
  obtain st' where "forwardEvents cl parse sid running (map Arrived es @ []) st = forwardEvents cl parse sid running [] st'"
    using forwardEvents_running [OF es] by blast
  then show "fst (forwardEvents cl parse sid running (map Arrived es) st) = None" by simp
next
  assume es: "list_all (\<lambda>e. \<not> terminal e) es" and l: "terminal l"
  obtain st' where f: "forwardEvents cl parse sid running (map Arrived es @ [Arrived l]) st = forwardEvents cl parse sid running [Arrived l] st'"
    using forwardEvents_running [OF es] by blast
  obtain st'' where "processEvent cl parse sid running l st' = (Some (answer_of l), st'')"
    using processEvent_answer [of cl parse sid running l st'] l by (metis prod.collapse)
  then show "fst (forwardEvents cl parse sid running (map Arrived (es @ [l])) st) = Some (answer_of l)"
    using f by simp
qed

section \<open>The sessions of a connection\<close>

text \<open>The calls of a connection, one after the other: method, parameters, and the identifier made if one is needed.\<close>

type_synonym call = "string \<times> json option \<times> string"

fun serve ::
  "(json option \<Rightarrow> Handler \<Rightarrow> request list \<Rightarrow> answer \<times> Handler \<times> request list \<times> Command list) \<Rightarrow> Skill list option \<Rightarrow>
     call list \<Rightarrow> Handler \<times> request list \<Rightarrow> Handler \<times> request list" where
  "serve prompt skills [] st = st"
| "serve prompt skills ((method, params, fresh) # calls) (h, made) =
     (case Dispatch prompt fresh skills method params h made of
        (_, h', made', _) \<Rightarrow> serve prompt skills calls (h', made'))"

text \<open>The session a call opens.\<close>

definition opens :: "call \<Rightarrow> string \<Rightarrow> bool" where
  "opens call sid \<longleftrightarrow>
     (case call of (method, params, fresh) \<Rightarrow>
        if method = ''session/new''
        then (\<exists>req. unmarshal dec_NewSessionRequest \<lparr>ns_Cwd = [], ns_Meta = None\<rparr> params = Inr req) \<and> fresh = sid
        else if method = ''session/load''
        then (\<exists>req. unmarshal dec_LoadSessionRequest \<lparr>ls_SessionID = [], ls_Cwd = []\<rparr> params = Inr req \<and> ls_SessionID req = sid)
        else False)"

definition wf_handler :: "Handler \<Rightarrow> bool" where
  "wf_handler h \<longleftrightarrow> (\<forall>sid sess. sessions_Load h sid = Some sess \<longrightarrow> ss_sessionID sess = sid)"

lemma set_running_Load:
  "sessions_Load (set_running sid b h) sid' =
     (if sid' = sid then map_option (\<lambda>sess. sess\<lparr>ss_running := b\<rparr>) (sessions_Load h sid) else sessions_Load h sid')"
  by (auto simp: set_running_def sessions_Load_def update_conv' split: option.split)

text \<open>What a prompt may do to the handler.\<close>

definition keeps_sessions :: "(json option \<Rightarrow> Handler \<Rightarrow> request list \<Rightarrow> answer \<times> Handler \<times> request list \<times> Command list) \<Rightarrow> bool" where
  "keeps_sessions prompt \<longleftrightarrow>
     (\<forall>params h made a h' made' cmds sid. prompt params h made = (a, h', made', cmds) \<longrightarrow>
        rel_option (\<lambda>s s'. ss_sessionID s' = ss_sessionID s \<and> ss_agentName s' = ss_agentName s \<and> ss_cwd s' = ss_cwd s)
          (sessions_Load h sid) (sessions_Load h' sid))"

lemma handlePrompt_keeps: "keeps_sessions (\<lambda>params h made. handlePrompt cl parse sv runner s params ch h made)"
proof -
  have same: "rel_option (\<lambda>s s'. ss_sessionID s' = ss_sessionID s \<and> ss_agentName s' = ss_agentName s \<and> ss_cwd s' = ss_cwd s) x x" for x
    by (rule option.rel_refl) simp
  show ?thesis
    unfolding keeps_sessions_def
    by (auto simp: handlePrompt_def set_running_Load same option.rel_map split: sum.splits prod.splits
        intro!: option.rel_refl)
qed

lemma Dispatch_sessions:
  assumes "Dispatch prompt fresh skills method params h made = (r, h', made', cmds)" and "keeps_sessions prompt" and "wf_handler h"
  shows "wf_handler h' \<and> (sessions_Load h' sid \<noteq> None \<longleftrightarrow> sessions_Load h sid \<noteq> None \<or> opens (method, params, fresh) sid)"
proof -
  consider "method = ''session/prompt''" | "method = ''session/new''" | "method = ''session/load''" | "method = ''initialize''"
    | "method \<notin> {''session/prompt'', ''session/new'', ''session/load'', ''initialize''}" by blast
  then show ?thesis
  proof cases
    case 1
    obtain a m c where p: "prompt params h made = (a, h', m, c)"
      using assms(1) 1 by (auto simp: Dispatch_def split: prod.splits)
    have rel: "rel_option (\<lambda>s s'. ss_sessionID s' = ss_sessionID s \<and> ss_agentName s' = ss_agentName s \<and> ss_cwd s' = ss_cwd s)
        (sessions_Load h x) (sessions_Load h' x)" for x
      using assms(2) p unfolding keeps_sessions_def by blast
    have "ss_sessionID sess = x" if "sessions_Load h' x = Some sess" for x sess
      using rel [of x] that assms(3) by (auto simp: wf_handler_def option_rel_Some2)
    then show ?thesis using rel [of sid] 1 by (auto simp: wf_handler_def opens_def option_rel_Some1 option_rel_Some2)
  next
    case 2
    then show ?thesis using assms(1,3)
      by (auto simp: Dispatch_def handleNewSession_def invalid_params_def map_error_def opens_def wf_handler_def
          session_store.get_put Let_def split: sum.splits if_splits)
  next
    case 3
    then show ?thesis using assms(1,3)
      by (auto simp: Dispatch_def handleLoadSession_def invalid_params_def map_error_def opens_def wf_handler_def
          session_store.get_put Let_def split: sum.splits if_splits)
  next
    case 4
    then have "hd_sessions h' = hd_sessions h"
      using assms(1) by (auto simp: Dispatch_def handleInitialize_def split: sum.splits prod.splits)
    then show ?thesis using 4 assms(3) by (simp add: wf_handler_def sessions_Load_def opens_def)
  next
    case 5
    then have "h' = h" using assms(1) by (auto simp: Dispatch_def split: if_splits)
    then show ?thesis using 5 assms(3) by (simp add: opens_def)
  qed
qed

lemma serve_sessions:
  "serve prompt skills calls (h, made) = (h', made') \<Longrightarrow> keeps_sessions prompt \<Longrightarrow> wf_handler h \<Longrightarrow>
     wf_handler h' \<and> (sessions_Load h' sid \<noteq> None \<longleftrightarrow> sessions_Load h sid \<noteq> None \<or> (\<exists>c \<in> set calls. opens c sid))"
proof (induction calls arbitrary: h made)
  case (Cons c calls)
  obtain meth params fresh where c: "c = (meth, params, fresh)" by (metis prod_cases3)
  obtain r h1 made1 cmds where d: "Dispatch prompt fresh skills meth params h made = (r, h1, made1, cmds)" by (metis prod_cases4)
  note step = Dispatch_sessions [OF d Cons.prems(2,3)]
  have "serve prompt skills calls (h1, made1) = (h', made')" using Cons.prems(1) c d by simp
  from Cons.IH [OF this Cons.prems(2)] step show ?case using c by auto
qed simp

text \<open>
  C36: the server knows exactly the sessions that were opened on the connection, by \<open>session/new\<close> or
  \<open>session/load\<close> with valid parameters, each under its own identifier, whatever else was called in
  between. A prompt for any other session is refused as not found, a cancellation of one sends
  nothing, and both leave everything as it was.
\<close>

theorem server_knows_sessions:
  assumes "serve (\<lambda>params h made. handlePrompt cl parse sv runner s params ch h made) skills calls (NewHandler, []) = (h, made)"
  shows "wf_handler h \<and> (sessions_Load h sid \<noteq> None \<longleftrightarrow> (\<exists>c \<in> set calls. opens c sid)) \<and>
    (\<not> (\<exists>c \<in> set calls. opens c sid) \<longrightarrow>
      (\<forall>params req. unmarshal dec_PromptRequest \<lparr>pr_SessionID = [], pr_Prompt = []\<rparr> params = Inr req \<longrightarrow> pr_SessionID req = sid \<longrightarrow>
         handlePrompt cl parse sv runner s params ch h made =
           (Some (Inl (NewRPCError ErrNotFound ''session not found'')), h, made, [])) \<and>
      (\<forall>params cmds. unmarshal dec_CancelNotification [] params = Inr sid \<longrightarrow> handleCancel params h cmds = cmds))"
proof -
  have "wf_handler NewHandler" and "sessions_Load NewHandler sid = None"
    by (simp_all add: wf_handler_def NewHandler_def sessions_Load_def)
  with serve_sessions [OF assms handlePrompt_keeps, of sid] have wf: "wf_handler h"
    and known: "sessions_Load h sid \<noteq> None \<longleftrightarrow> (\<exists>c \<in> set calls. opens c sid)" by auto
  have "handlePrompt cl parse sv runner s params ch h made = (Some (Inl (NewRPCError ErrNotFound ''session not found'')), h, made, [])"
    if "sessions_Load h sid = None" "unmarshal dec_PromptRequest \<lparr>pr_SessionID = [], pr_Prompt = []\<rparr> params = Inr req"
      "pr_SessionID req = sid" for params req
    using that by (simp add: handlePrompt_def prompt_config_def invalid_params_def map_error_def or_error_def)
  moreover have "handleCancel params h cmds = cmds"
    if "sessions_Load h sid = None" "unmarshal dec_CancelNotification [] params = Inr sid" for params cmds
    using that by (simp add: handleCancel_def)
  ultimately show ?thesis using wf known by blast
qed

theorem server_knows_sessions_witness:
  "\<forall>sv s ch. let h = fst (serve (\<lambda>params h made. handlePrompt (\<lambda>_ _ _. Inr None) (\<lambda>_. Inr JNull) sv (\<lambda>_ _. Inr []) s params ch h made) None
       [(''session/new'', Some (JObj [(''cwd'', JStr ''/w'')]), ''s1'')] (NewHandler, []))
   in sessions_Load h ''s1'' \<noteq> None \<and> sessions_Load h ''s2'' = None"
proof (intro allI, goal_cases)
  case (1 sv s ch)
  define calls where "calls = [(''session/new'', Some (JObj [(''cwd'', JStr ''/w'')]), ''s1'')]"
  obtain h made where x: "serve (\<lambda>params h made. handlePrompt (\<lambda>_ _ _. Inr None) (\<lambda>_. Inr JNull) sv (\<lambda>_ _. Inr []) s params ch h made)
      None calls (NewHandler, []) = (h, made)" by force
  have "unmarshal dec_NewSessionRequest \<lparr>ns_Cwd = [], ns_Meta = None\<rparr> (Some (JObj [(''cwd'', JStr ''/w'')])) =
      Inr \<lparr>ns_Cwd = ''/w'', ns_Meta = None\<rparr>"
    by code_simp
  then have "(\<exists>c \<in> set calls. opens c ''s1'')" "\<not> (\<exists>c \<in> set calls. opens c ''s2'')"
    by (simp_all add: calls_def opens_def)
  then show ?case
    using server_knows_sessions [OF x, of "''s1''"] server_knows_sessions [OF x, of "''s2''"] x
    unfolding calls_def by (simp del: serve.simps add: Let_def)
qed

end
