(* ===== verification/ServerRun.thy ===== *)
theory ServerRun
  imports Server
begin

text \<open>
  The server, the runner and the agent loop together: what a prompt of the client leads to. The run
  is that of the program's own runner; the commands on its channel are those the server sent, and
  the cancellation that \<open>session/cancel\<close> or the end of the connection adds. The lemmas show that no
  tool runs unless the client allowed that very call, and that a prompt is answered.
\<close>

section \<open>A run seen by the server\<close>

lemma StartRun_agent:
  assumes "runner_StartRun fuel en registered marshal_tools dataDir fresh cfg runID s ch = Inr (evs, w', st)"
  obtains x sid cw prompt s1 evs1 w1 where
    "agent_turns fuel (with_executor x marshal_tools en) (RunConfig.truncate cfg) runID 0
       (run_start (with_executor x marshal_tools en) (RunConfig.truncate cfg) prompt \<lparr>wd_window = cw, wd_fs = s1\<rparr>) ch = (evs1, w1, st)"
    "evs = (event EvtRunStarted runID)\<lparr>ev_SessionID := sid, ev_AgentName := rc_AgentName cfg\<rparr> # evs1"
proof -
  obtain sid cw prompt s1 x evs0 where
    r: "agent_run fuel (with_executor x marshal_tools en) (RunConfig.truncate cfg) runID prompt \<lparr>wd_window = cw, wd_fs = s1\<rparr> ch = (evs0, w', st)"
    and evs: "evs = forward_events sid (rc_AgentName cfg) evs0"
    using assms by (auto simp: runner_StartRun_def Let_def split: prod.splits sum.splits)
  obtain evs1 w1 where
    "agent_turns fuel (with_executor x marshal_tools en) (RunConfig.truncate cfg) runID 0
       (run_start (with_executor x marshal_tools en) (RunConfig.truncate cfg) prompt \<lparr>wd_window = cw, wd_fs = s1\<rparr>) ch = (evs1, w1, st)"
    "evs0 = event EvtRunStarted runID # evs1"
    using r by (auto simp: agent_run_def split: prod.splits)
  then show thesis using that forward_run [OF r, of sid "rc_AgentName cfg"] evs by auto
qed

lemma handlePrompt_run:
  assumes "prompt_config sv s h params = Inr (sid, cfg)"
    and "runner_StartRun fuel en registered marshal_tools dataDir fresh cfg runID s ch = Inr (evs, w', st)"
    and "handlePrompt cl parse sv (default_runner fuel en registered marshal_tools dataDir fresh runID s) s params ch h made =
      (answer, h', made', cmds)"
  shows "forwardEvents cl parse sid True (map Arrived evs) (made, []) = (answer, made', cmds) \<and>
    h' = set_running sid (answer = None) h"
  using assms by (auto simp: handlePrompt_def default_runner_def result_simps split: prod.splits)

text \<open>A cancellation on the channel ends the wait for decisions.\<close>

definition cancels :: "channel \<Rightarrow> bool" where
  "cancels ch \<longleftrightarrow> (\<exists>c \<in> set (ch_queue ch). cm_Type c = CmdCancel)"

lemma collect_queue_cancels:
  "collect_queue no_more queue batch = (r, rest) \<Longrightarrow> c \<in> set queue \<Longrightarrow> cm_Type c = CmdCancel \<Longrightarrow>
     (\<exists>batch'. r = Decided batch' \<and> c \<in> set rest) \<or> (\<exists>err. r = Aborted err)"
proof (induction no_more queue batch rule: collect_queue.induct)
  case (1 no_more queue batch)
  show ?case
  proof (cases "areAllDecided batch")
    case True
    then show ?thesis using 1 by (auto simp: collect_queue.simps)
  next
    case False
    then obtain d ds where q: "queue = d # ds" using "1.prems"(2) by (cases queue) auto
    show ?thesis
    proof (cases "cm_Type d = CmdCancel")
      case True
      then show ?thesis using "1.prems"(1) False q by (auto simp: collect_queue.simps [of no_more "d # ds"])
    next
      case cont: False
      then show ?thesis using "1.prems" "1.IH" [OF False q cont] False q
        by (auto simp: collect_queue.simps [of no_more "d # ds"])
    qed
  qed
qed

lemma collect_cancels:
  "collectApprovals ch batch = (r, ch') \<Longrightarrow> cancels ch \<Longrightarrow> r \<noteq> AwaitingCommand \<and> (\<forall>batch'. r = Decided batch' \<longrightarrow> cancels ch')"
  using collect_queue_cancels by (fastforce simp: collectApprovals_def cancels_def split: prod.splits)

lemma turn_cancels:
  assumes "agent_turn en cfg runID turn w ch = (evs, w', ch', st)" and "cancels ch"
  shows "st \<noteq> Some Waiting \<and> (st = None \<longrightarrow> cancels ch')"
  using assms
  by (auto simp: agent_turn_def Let_def dest!: collect_cancels split: sum.splits if_splits prod.splits collected.splits)

lemma turns_cancels: "agent_turns fuel en cfg runID turn w ch = (evs, w', st) \<Longrightarrow> cancels ch \<Longrightarrow> st \<noteq> Waiting"
proof (induction fuel arbitrary: turn w ch evs w' st)
  case (Suc fuel)
  obtain evs1 w1 ch1 st1 where t: "agent_turn en cfg runID turn w ch = (evs1, w1, ch1, st1)" by (metis prod_cases4)
  show ?case using Suc.prems(1) Suc.IH turn_cancels [OF t Suc.prems(2)] t by (auto split: option.splits prod.splits)
qed auto

section \<open>Properties\<close>

text \<open>
  C1: no tool runs without the client's consent: every execution that starts in the run of a prompt
  is for a call about which the server asked the client, in that session and after the prompt
  arrived, and for which the client selected an option that allows it. Lost connections, failed or
  malformed answers and cancellations never count as consent.
\<close>

theorem server_runs_only_allowed:
  assumes "prompt_config sv s h params = Inr (sid, cfg)"
    and "runner_StartRun fuel en registered marshal_tools dataDir fresh cfg runID s ch = Inr (evs, w', st)"
    and "handlePrompt cl parse sv (default_runner fuel en registered marshal_tools dataDir fresh runID s) s params ch h made =
      (answer, h', made', cmds)"
    and "\<forall>c \<in> set (ch_queue ch). c \<in> set cmds \<or> cm_Type c = CmdCancel" and "range_ok en"
    and "e \<in> set evs" and "ev_Type e = EvtToolStarted"
  shows "granted cl sid made (ev_CallID e) made'"
proof -
  have f: "forwardEvents cl parse sid True (map Arrived evs) (made, []) = (answer, made', cmds)"
    using handlePrompt_run [OF assms(1-3)] by blast
  have "only_granted cl sid made (made, [])" by (simp add: only_granted_def)
  from forwardEvents_granted [OF this, of parse True "map Arrived evs"]
  have g: "only_granted cl sid made (made', cmds)" using f by simp
  obtain x sid' cw prompt s1 evs1 w1 where
    t: "agent_turns fuel (with_executor x marshal_tools en) (RunConfig.truncate cfg) runID 0
       (run_start (with_executor x marshal_tools en) (RunConfig.truncate cfg) prompt \<lparr>wd_window = cw, wd_fs = s1\<rparr>) ch = (evs1, w1, st)"
    and evs: "evs = (event EvtRunStarted runID)\<lparr>ev_SessionID := sid', ev_AgentName := rc_AgentName cfg\<rparr> # evs1"
    using StartRun_agent [OF assms(2)] by metis
  have "range_ok (with_executor x marshal_tools en)" using assms(5) by (simp add: range_ok_def with_executor_def)
  moreover have "e \<in> set evs1" using assms(6,7) evs by auto
  ultimately obtain c where "c \<in> set (ch_queue ch)" "cm_Type c = CmdApproveTool" "cm_CallID c = ev_CallID e"
    using turns_started_approved [OF t] assms(7) by blast
  moreover from this have "c \<in> set cmds" using assms(4) by auto
  ultimately show ?thesis using g unfolding only_granted_def by (metis snd_conv fst_conv)
qed

text \<open>
  C2: a prompt is answered, once, by the way its run ended: end of turn, cancelled, or the error of
  the run; while the run goes on there is no answer and the session can be cancelled. If the model
  stops asking for tools within the turns given, then the prompt is answered as soon as the client
  has cancelled or the run needs no further decision.
\<close>

theorem prompt_answered:
  assumes "prompt_config sv s h params = Inr (sid, cfg)"
    and "runner_StartRun (Suc n) en registered marshal_tools dataDir fresh cfg runID s ch = Inr (evs, w', st)"
    and "handlePrompt cl parse sv (default_runner (Suc n) en registered marshal_tools dataDir fresh runID s) s params ch h made =
      (answer, h', made', cmds)"
    and "\<And>ctx tools. case en_chat en n ctx tools (rc_Sampling cfg) (rc_ProviderModel cfg) (rc_ToolRole cfg) of
      Inl err \<Rightarrow> True | Inr r \<Rightarrow> rs_ToolCalls r = []"
    and "cancels ch \<or> st \<noteq> Waiting"
  shows "answer = Some (answer_of (last evs)) \<and> terminal (last evs) \<and>
    (\<forall>sess. sessions_Load h' sid = Some sess \<longrightarrow> \<not> ss_running sess)"
proof -
  have f: "forwardEvents cl parse sid True (map Arrived evs) (made, []) = (answer, made', cmds)"
    "h' = set_running sid (answer = None) h"
    using handlePrompt_run [OF assms(1-3)] by blast+
  obtain x sid' cw prompt s1 evs1 w1 where
    t: "agent_turns (Suc n) (with_executor x marshal_tools en) (RunConfig.truncate cfg) runID 0
       (run_start (with_executor x marshal_tools en) (RunConfig.truncate cfg) prompt \<lparr>wd_window = cw, wd_fs = s1\<rparr>) ch = (evs1, w1, st)"
    and evs: "evs = (event EvtRunStarted runID)\<lparr>ev_SessionID := sid', ev_AgentName := rc_AgentName cfg\<rparr> # evs1"
    using StartRun_agent [OF assms(2)] by metis
  have "st \<noteq> Waiting" using assms(5) turns_cancels [OF t] by blast
  moreover have "st \<noteq> OutOfTurns"
    using turns_return [of "with_executor x marshal_tools en" 0 n "RunConfig.truncate cfg" runID
      "run_start (with_executor x marshal_tools en) (RunConfig.truncate cfg) prompt \<lparr>wd_window = cw, wd_fs = s1\<rparr>" ch]
      t assms(4)
    by (simp del: agent_turns.simps add: with_executor_def RunConfig.truncate_def)
  ultimately have "st = Finished" by (cases st) auto
  then obtain mid l where m: "evs1 = mid @ [l]" "terminal l" "list_all (\<lambda>e. \<not> terminal e) mid"
    using turns_events [OF t] by auto
  define first where "first = (event EvtRunStarted runID)\<lparr>ev_SessionID := sid', ev_AgentName := rc_AgentName cfg\<rparr>"
  have "list_all (\<lambda>e. \<not> terminal e) (first # mid)" using m(3) by (simp add: first_def terminal_def)
  from forwardEvents_answer(2) [OF this m(2), of cl parse sid True "(made, [])"]
  have "answer = Some (answer_of l)" using f(1) evs m(1) by (simp add: first_def)
  moreover have "\<not> ss_running sess" if "sessions_Load h' sid = Some sess" for sess
    using that calculation f(2) by (auto simp: set_running_def sessions_Load_def update_conv' split: option.splits)
  ultimately show ?thesis using m evs by simp
qed

section \<open>A prompt to check the statements on\<close>

text \<open>The client allows the first tool call it is asked about and rejects the others.\<close>

definition sample_toml :: "string \<Rightarrow> AgentTOML result" where
  "sample_toml d = Inl (Errorf ''no toml'' [])"

definition sample_fs :: fs where
  "sample_fs = \<lparr>nodes = [(''/d'', DirNode), (''/d/agents'', DirNode), (''/d/agents/default'', DirNode),
     (''/d/agents/default/agent.md'', FileNode ''be brief'')], faults = []\<rparr>"

definition idle_executor :: executor where
  "idle_executor = \<lparr>xi_tools = [], xi_execute = (\<lambda>wd name args w. (Inr name, w)), xi_preview = (\<lambda>wd name args w. Inr [])\<rparr>"

definition sample_services :: services where
  "sample_services = \<lparr>sv_skills = None, sv_toml = sample_toml, sv_agentsDir = ''/d/agents'', sv_delegate = (\<lambda>te. idle_executor)\<rparr>"

definition sample_handler :: Handler where
  "sample_handler = sessions_Store \<lparr>ss_agentName = DefaultAgentName, ss_sessionID = ''s1'', ss_cwd = [], ss_running = False\<rparr> NewHandler"

definition sample_prompt :: "json option" where
  "sample_prompt = Some (JObj [(''sessionId'', JStr ''s1''),
     (''prompt'', JArr [JObj [(''type'', JStr ''text''), (''text'', JStr ''hi'')]])])"

definition allowing :: client where
  "allowing made method params =
     (if method = ''session/request_permission''
      then Inr (Some (JObj [(''outcome'', JObj [(''outcome'', JStr ''selected''), (''optionId'', JStr ''allow'')])]))
      else Inl (Errorf ''?'' []))"

definition sample_parse :: "string \<Rightarrow> json result" where
  "sample_parse d = Inl (Errorf ''?'' [])"

definition sample_start :: StartConfig where
  "sample_start =
     \<lparr>rc_AgentName = DefaultAgentName, rc_ContextSize = 0, rc_Sampling = None, rc_ProviderModel = [], rc_WorkingDir = [],
      rc_ToolRole = False, sc_Prompt = ''hi'', sc_SessionID = ''s1'', sc_AgentSystemPrompt = ''be brief'',
      sc_ProviderEndpoint = [], sc_ProviderHTTPTimeout = 0, sc_Skill = None, sc_SkillContent = [], sc_Tools = None\<rparr>"

definition sample_start_world :: world where
  "sample_start_world =
     \<lparr>wd_window = SetAgentSystemPrompt ''be brief'' (NewWindow ''/d/sessions/s1.jsonl''),
      wd_fs = put_node ''/d/sessions/s1.jsonl'' (FileNode []) (put_node ''/d/sessions'' DirNode sample_fs)\<rparr>"

definition sample_started :: "Event list \<times> world \<times> run_status" where
  "sample_started = agent_run (Suc 1) (with_executor idle_executor (\<lambda>_. []) sample_env) (RunConfig.truncate sample_start) ''r'' ''hi''
     sample_start_world approve_both"

abbreviation sample_runner :: runner where
  "sample_runner \<equiv> default_runner (Suc 1) sample_env idle_executor (\<lambda>_. []) ''/d'' ''new'' ''r'' sample_fs"

definition sample_handled :: "answer \<times> Handler \<times> request list \<times> Command list" where
  "sample_handled =
     handlePrompt allowing sample_parse sample_services sample_runner sample_fs sample_prompt approve_both sample_handler []"

lemma sample_prompt_config: "prompt_config sample_services sample_fs sample_handler sample_prompt = Inr (''s1'', sample_start)"
proof -
  have u: "unmarshal dec_PromptRequest \<lparr>pr_SessionID = [], pr_Prompt = []\<rparr> sample_prompt =
      Inr \<lparr>pr_SessionID = ''s1'', pr_Prompt = [\<lparr>cb_Type = ''text'', cb_Text = ''hi''\<rparr>]\<rparr>"
    by code_simp
  have l: "sessions_Load sample_handler ''s1'' =
      Some \<lparr>ss_agentName = DefaultAgentName, ss_sessionID = ''s1'', ss_cwd = [], ss_running = False\<rparr>"
    by code_simp
  have s: "skill_prompt None (extractText [\<lparr>cb_Type = ''text'', cb_Text = ''hi''\<rparr>]) = Inr (None, [], ''hi'')"
    by (simp add: extractText_def skill_prompt_def has_prefix_def)
  have a: "agent_Load sample_toml ''/d/agents'' sample_fs DefaultAgentName =
      Inr ((bare_config DefaultAgentName)\<lparr>ac_SystemPrompt := ''be brief''\<rparr>)"
    by code_simp
  have c: "hasACPTools (hd_caps sample_handler) = False" by code_simp
  show ?thesis
    by (simp add: prompt_config_def u l invalid_params_def map_error_def or_error_def sample_services_def s a run_config_def c bare_config_def no_provider_def sample_start_def)
qed


lemma sample_run_prepare:
  "prepare_run ''/d'' ''new'' sample_start sample_fs =
     (Inr (''s1'', wd_window sample_start_world, ''hi''), wd_fs sample_start_world)"
  by code_simp

lemma sample_StartRun:
  "runner_StartRun (Suc 1) sample_env idle_executor (\<lambda>_. []) ''/d'' ''new'' sample_start ''r'' sample_fs approve_both =
     Inr (case sample_started of (evs, w', st) \<Rightarrow> (forward_events ''s1'' DefaultAgentName evs, w', st))"
proof -
  have "sc_Tools sample_start = None" "rc_AgentName sample_start = DefaultAgentName" by (simp_all add: sample_start_def)
  moreover have "\<lparr>wd_window = wd_window sample_start_world, wd_fs = wd_fs sample_start_world\<rparr> = sample_start_world" by simp
  ultimately show ?thesis
    unfolding runner_StartRun_def sample_run_prepare sample_started_def Let_def by (simp only: prod.case sum.case option.case split_beta fst_conv snd_conv)
qed

lemma sample_started_events:
  "list_ex (\<lambda>e. ev_Type e = EvtToolStarted \<and> ev_CallID e = ''a'') (forward_events ''s1'' DefaultAgentName (fst sample_started))"
  "snd (snd sample_started) = Finished"
  "list_all (\<lambda>c. List.member (snd (snd (forwardEvents allowing sample_parse ''s1'' True
      (map Arrived (forward_events ''s1'' DefaultAgentName (fst sample_started))) ([], [])))) c) (ch_queue approve_both)"
  by code_simp+

lemma sample_prompt_parts:
  obtains evs w' answer h' made cmds where
    "runner_StartRun (Suc 1) sample_env idle_executor (\<lambda>_. []) ''/d'' ''new'' sample_start ''r'' sample_fs approve_both = Inr (evs, w', Finished)"
    "\<exists>e \<in> set evs. ev_Type e = EvtToolStarted \<and> ev_CallID e = ''a''"
    "sample_handled = (answer, h', made, cmds)"
    "\<forall>c \<in> set (ch_queue approve_both). c \<in> set cmds \<or> cm_Type c = CmdCancel"
proof -
  obtain evs0 w' where s: "sample_started = (evs0, w', Finished)"
    using sample_started_events(2) by (metis prod.collapse)
  define evs where "evs = forward_events ''s1'' DefaultAgentName evs0"
  have r: "runner_StartRun (Suc 1) sample_env idle_executor (\<lambda>_. []) ''/d'' ''new'' sample_start ''r'' sample_fs approve_both =
      Inr (evs, w', Finished)"
    unfolding sample_StartRun by (simp add: s evs_def)
  obtain answer h' made cmds where x: "sample_handled = (answer, h', made, cmds)" by (metis prod_cases4)
  have f: "forwardEvents allowing sample_parse ''s1'' True (map Arrived evs) ([], []) = (answer, made, cmds)"
    using handlePrompt_run [OF sample_prompt_config r x [unfolded sample_handled_def]] by blast
  have "\<forall>c \<in> set (ch_queue approve_both). c \<in> set cmds \<or> cm_Type c = CmdCancel"
    using sample_started_events(3) f by (simp add: s evs_def list_all_iff)
  moreover have "\<exists>e \<in> set evs. ev_Type e = EvtToolStarted \<and> ev_CallID e = ''a''"
    using sample_started_events(1) by (simp add: s evs_def list_ex_iff)
  ultimately show thesis using that [OF r _ x] by blast
qed

theorem server_runs_only_allowed_witness:
  "\<exists>a h' made cmds. sample_handled = (a, h', made, cmds) \<and> granted allowing ''s1'' [] ''a'' made"
proof -
  obtain evs w' a h' made cmds where
    r: "runner_StartRun (Suc 1) sample_env idle_executor (\<lambda>_. []) ''/d'' ''new'' sample_start ''r'' sample_fs approve_both = Inr (evs, w', Finished)"
    and e: "\<exists>e \<in> set evs. ev_Type e = EvtToolStarted \<and> ev_CallID e = ''a''"
    and x: "sample_handled = (a, h', made, cmds)"
    and c: "\<forall>c \<in> set (ch_queue approve_both). c \<in> set cmds \<or> cm_Type c = CmdCancel"
    by (rule sample_prompt_parts)
  obtain e where "e \<in> set evs" "ev_Type e = EvtToolStarted" "ev_CallID e = ''a''" using e by blast
  then show ?thesis
    using server_runs_only_allowed [OF sample_prompt_config r x [unfolded sample_handled_def] c sample_env_ok(1)] x by metis
qed

theorem prompt_answered_witness:
  "\<exists>h' made cmds r. sample_handled = (Some r, h', made, cmds)"
proof -
  obtain evs w' a h' made cmds where
    r: "runner_StartRun (Suc 1) sample_env idle_executor (\<lambda>_. []) ''/d'' ''new'' sample_start ''r'' sample_fs approve_both = Inr (evs, w', Finished)"
    and x: "sample_handled = (a, h', made, cmds)"
    by (rule sample_prompt_parts)
  have "case en_chat sample_env 1 ctx tools (rc_Sampling sample_start) (rc_ProviderModel sample_start) (rc_ToolRole sample_start) of
      Inl err \<Rightarrow> True | Inr r \<Rightarrow> rs_ToolCalls r = []" for ctx tools
    by (simp add: sample_env_def empty_response_def)
  from prompt_answered [OF sample_prompt_config r x [unfolded sample_handled_def] this] show ?thesis using x by blast
qed

end
