(* ===== verification/Connection.thy ===== *)
theory Connection
  imports JsonRpc
begin

text \<open>
  The connection of internal/protocol/jsonrpc.go as a state machine: the read loop, the calls of
  \<open>Request\<close> and the goroutines that answer requests run concurrently on one state, and a step is a
  section under the lock, a send on or a receive from a channel, or a write. \<open>cn_box\<close> holds what is in
  the channel of a call, which has room for one response. \<open>cn_received\<close> records the responses read
  and is read by no step. The invariant shows that no delivery blocks, that identifiers are never
  used twice, and that every call returns once, what a response of its own said or an error.
\<close>

type_synonym response = "json option \<times> (int \<times> string) option"

datatype call_state = Registered jsonrpcMessage | Blocked | Returned "json option result"

datatype reader = Reading | Delivering int response | Notifying jsonrpcMessage | Drained

record Connection =
  cn_nextID :: int
  cn_pending :: "int list"
  cn_box :: "int \<Rightarrow> response option"
  cn_calls :: "int \<Rightarrow> call_state option"
  cn_handling :: "jsonrpcMessage list"
  cn_written :: "jsonrpcMessage list"
  cn_reader :: reader
  cn_done :: bool
  cn_received :: "(int \<times> response) list"

definition newConnection :: Connection where
  "newConnection =
     \<lparr>cn_nextID = 0, cn_pending = [], cn_box = (\<lambda>_. None), cn_calls = (\<lambda>_. None), cn_handling = [], cn_written = [],
      cn_reader = Reading, cn_done = False, cn_received = []\<rparr>"

section \<open>Request\<close>

definition register :: "string \<Rightarrow> json option \<Rightarrow> Connection \<Rightarrow> Connection" where
  "register method params c =
     (let i = cn_nextID c + 1
      in c\<lparr>cn_nextID := i, cn_pending := i # cn_pending c,
           cn_calls := (cn_calls c)(i \<mapsto> Registered (request_message i method params))\<rparr>)"

definition send :: "int \<Rightarrow> jsonrpcMessage \<Rightarrow> Connection \<Rightarrow> Connection" where
  "send i msg c = c\<lparr>cn_written := cn_written c @ [msg], cn_calls := (cn_calls c)(i \<mapsto> Blocked)\<rparr>"

text \<open>A call that fails to marshal or write, or whose context ends, forgets its channel.\<close>

definition forget :: "int \<Rightarrow> go_error \<Rightarrow> Connection \<Rightarrow> Connection" where
  "forget i err c = c\<lparr>cn_pending := removeAll i (cn_pending c), cn_calls := (cn_calls c)(i \<mapsto> Returned (Inl err))\<rparr>"

definition receive :: "int \<Rightarrow> response \<Rightarrow> Connection \<Rightarrow> Connection" where
  "receive i resp c = c\<lparr>cn_box := (cn_box c)(i := None), cn_calls := (cn_calls c)(i \<mapsto> Returned (call_result resp))\<rparr>"

definition connection_closed :: go_error where
  "connection_closed = Errorf ''protocol: connection closed'' []"

definition notice_done :: "int \<Rightarrow> Connection \<Rightarrow> Connection" where
  "notice_done i c = c\<lparr>cn_calls := (cn_calls c)(i \<mapsto> Returned (Inl connection_closed))\<rparr>"

section \<open>readLoop\<close>

definition claim :: "int \<Rightarrow> response \<Rightarrow> Connection \<Rightarrow> Connection" where
  "claim i resp c =
     (let c1 = c\<lparr>cn_received := cn_received c @ [(i, resp)]\<rparr>
      in if i \<in> set (cn_pending c)
         then c1\<lparr>cn_pending := removeAll i (cn_pending c), cn_reader := Delivering i resp\<rparr> else c1)"

definition deliver :: "int \<Rightarrow> response \<Rightarrow> Connection \<Rightarrow> Connection" where
  "deliver i resp c = c\<lparr>cn_box := (cn_box c)(i \<mapsto> resp), cn_reader := Reading\<rparr>"

definition closed_response :: response where
  "closed_response = (None, Some (ErrInternalError, ''connection closed''))"

definition drain :: "Connection \<Rightarrow> Connection" where
  "drain c =
     c\<lparr>cn_box := (\<lambda>i. if i \<in> set (cn_pending c) then Some closed_response else cn_box c i),
       cn_pending := [], cn_reader := Drained\<rparr>"

text \<open>
  The steps. \<open>Delivering\<close> and \<open>drain\<close> send on a channel, which needs room in it. A notification is
  handled in the read loop itself, a request in a goroutine of its own.
\<close>

inductive step :: "(string \<Rightarrow> json option \<Rightarrow> json result) option \<Rightarrow> Connection \<Rightarrow> Connection \<Rightarrow> bool"
  for handler :: "(string \<Rightarrow> json option \<Rightarrow> json result) option" where
  call: "step handler c (register method params c)"
| send: "cn_calls c i = Some (Registered msg) \<Longrightarrow> step handler c (send i msg c)"
| fail: "cn_calls c i = Some (Registered msg) \<Longrightarrow> step handler c (forget i err c)"
| receive: "cn_calls c i = Some Blocked \<Longrightarrow> cn_box c i = Some resp \<Longrightarrow> step handler c (receive i resp c)"
| give_up: "cn_calls c i = Some Blocked \<Longrightarrow> step handler c (forget i err c)"
| notice: "cn_calls c i = Some Blocked \<Longrightarrow> cn_done c \<Longrightarrow> step handler c (notice_done i c)"
| claim: "cn_reader c = Reading \<Longrightarrow> classify msg = Response \<Longrightarrow> jm_ID msg = Some i \<Longrightarrow>
    step handler c (claim i (response_of msg) c)"
| deliver: "cn_reader c = Delivering i resp \<Longrightarrow> cn_box c i = None \<Longrightarrow> step handler c (deliver i resp c)"
| request: "cn_reader c = Reading \<Longrightarrow> classify msg = RequestCall \<Longrightarrow> step handler c (c\<lparr>cn_handling := cn_handling c @ [msg]\<rparr>)"
| respond: "msg \<in> set (cn_handling c) \<Longrightarrow>
    step handler c (c\<lparr>cn_handling := remove1 msg (cn_handling c), cn_written := cn_written c @ [handleRequest handler msg]\<rparr>)"
| notification: "cn_reader c = Reading \<Longrightarrow> classify msg = Notification \<Longrightarrow> step handler c (c\<lparr>cn_reader := Notifying msg\<rparr>)"
| notified: "cn_reader c = Notifying msg \<Longrightarrow> step handler c (c\<lparr>cn_reader := Reading\<rparr>)"
| ended: "cn_reader c = Reading \<Longrightarrow> \<forall>i \<in> set (cn_pending c). cn_box c i = None \<Longrightarrow> step handler c (drain c)"
| closes: "cn_reader c = Drained \<Longrightarrow> step handler c (c\<lparr>cn_done := True\<rparr>)"
| notify: "step handler c (c\<lparr>cn_written := cn_written c @ [notification_message method params]\<rparr>)"

definition reachable :: "(string \<Rightarrow> json option \<Rightarrow> json result) option \<Rightarrow> Connection \<Rightarrow> bool" where
  "reachable handler c \<longleftrightarrow> (step handler)\<^sup>*\<^sup>* newConnection c"

section \<open>The invariant\<close>

text \<open>The call can still be answered: its channel is registered, full, or about to be filled.\<close>

definition answerable :: "Connection \<Rightarrow> int \<Rightarrow> bool" where
  "answerable c i \<longleftrightarrow> i \<in> set (cn_pending c) \<or> cn_box c i \<noteq> None \<or> (\<exists>resp. cn_reader c = Delivering i resp)"

text \<open>The identifiers of the requests written.\<close>

definition request_ids :: "Connection \<Rightarrow> int list" where
  "request_ids c = List.map_filter (\<lambda>m. if classify m = RequestCall then jm_ID m else None) (cn_written c)"

definition legitimate :: "Connection \<Rightarrow> int \<Rightarrow> response \<Rightarrow> bool" where
  "legitimate c i resp \<longleftrightarrow> (i, resp) \<in> set (cn_received c) \<or> resp = closed_response"

definition conn_inv :: "Connection \<Rightarrow> bool" where
  "conn_inv c \<longleftrightarrow>
     0 \<le> cn_nextID c \<and>
     (\<forall>i. cn_calls c i \<noteq> None \<longleftrightarrow> 0 < i \<and> i \<le> cn_nextID c) \<and>
     (\<forall>i \<in> set (cn_pending c). i \<le> cn_nextID c \<and> cn_box c i = None) \<and>
     (\<forall>i resp. cn_box c i = Some resp \<longrightarrow> i \<le> cn_nextID c \<and> legitimate c i resp) \<and>
     (\<forall>i resp. cn_reader c = Delivering i resp \<longrightarrow>
        i \<le> cn_nextID c \<and> i \<notin> set (cn_pending c) \<and> cn_box c i = None \<and> legitimate c i resp) \<and>
     (\<forall>i. cn_calls c i = Some Blocked \<longrightarrow> answerable c i) \<and>
     (\<forall>i msg. cn_calls c i = Some (Registered msg) \<longrightarrow> jm_ID msg = Some i \<and> i \<notin> set (request_ids c) \<and> answerable c i) \<and>
     (\<forall>i v. cn_calls c i = Some (Returned (Inr v)) \<longrightarrow> (i, (v, None)) \<in> set (cn_received c)) \<and>
     distinct (request_ids c) \<and> (\<forall>i \<in> set (request_ids c). i \<le> cn_nextID c)"

lemma conn_inv_parts:
  assumes "conn_inv c"
  shows "0 \<le> cn_nextID c"
    and "cn_calls c i \<noteq> None \<longleftrightarrow> 0 < i \<and> i \<le> cn_nextID c"
    and "i \<in> set (cn_pending c) \<Longrightarrow> i \<le> cn_nextID c \<and> cn_box c i = None"
    and "cn_box c i = Some resp \<Longrightarrow> i \<le> cn_nextID c \<and> legitimate c i resp"
    and "cn_reader c = Delivering i resp \<Longrightarrow>
      i \<le> cn_nextID c \<and> i \<notin> set (cn_pending c) \<and> cn_box c i = None \<and> legitimate c i resp"
    and "cn_calls c i = Some Blocked \<Longrightarrow> answerable c i"
    and "cn_calls c i = Some (Registered msg) \<Longrightarrow> jm_ID msg = Some i \<and> i \<notin> set (request_ids c) \<and> answerable c i"
    and "cn_calls c i = Some (Returned (Inr v)) \<Longrightarrow> (i, (v, None)) \<in> set (cn_received c)"
    and "distinct (request_ids c)"
    and "i \<in> set (request_ids c) \<Longrightarrow> i \<le> cn_nextID c"
  using assms unfolding conn_inv_def by blast+

lemma request_ids_written:
  "request_ids (c\<lparr>cn_written := cn_written c @ [m]\<rparr>) =
     request_ids c @ (if classify m = RequestCall \<and> jm_ID m \<noteq> None then [the (jm_ID m)] else [])"
  by (auto simp: request_ids_def List.map_filter_def)

lemma request_ids_same:
  "cn_written c' = cn_written c \<Longrightarrow> request_ids c' = request_ids c"
  by (simp add: request_ids_def)

lemma call_result_Inr: "call_result resp = Inr v \<longleftrightarrow> resp = (v, None)"
  by (cases resp) (auto simp: call_result_def split: option.split)

lemma inv_call: "conn_inv c \<Longrightarrow> conn_inv (register method params c)"
proof -
  assume inv: "conn_inv c"
  note I = conn_inv_parts [OF inv]
  let ?n = "cn_nextID c + 1"
  have fresh: "?n \<notin> set (cn_pending c)" "cn_box c ?n = None" "\<And>resp. cn_reader c \<noteq> Delivering ?n resp"
    "?n \<notin> set (request_ids c)"
    using I(3) [of ?n] I(4) [of ?n] I(5) [of ?n] I(10) [of ?n] by (fastforce, (cases "cn_box c ?n", simp, fastforce), fastforce, fastforce)
  have rids: "request_ids (register method params c) = request_ids c"
    by (rule request_ids_same) (simp add: register_def Let_def)
  show ?thesis
    unfolding conn_inv_def rids
    using I fresh
    by (auto simp: register_def Let_def answerable_def legitimate_def request_message_def no_message_def
        dest: I(3,4,5,10) split: if_splits)
qed

lemma inv_send:
  assumes "conn_inv c" and "cn_calls c i = Some (Registered msg)"
  shows "conn_inv (send i msg c)"
proof -
  note I = conn_inv_parts [OF assms(1)]
  have rids: "request_ids (send i msg c) = request_ids c @ (if classify msg = RequestCall then [i] else [])"
    using I(7) [OF assms(2)] by (simp add: send_def request_ids_def List.map_filter_def)
  show ?thesis
    unfolding conn_inv_def rids
    using I assms(2)
    by (auto simp: send_def answerable_def legitimate_def dest: I(3,4,5,7,8,10) split: if_splits)
qed

lemma inv_forget:
  assumes "conn_inv c" and "cn_calls c i \<noteq> None"
  shows "conn_inv (forget i err c)"
proof -
  note I = conn_inv_parts [OF assms(1)]
  have rids: "request_ids (forget i err c) = request_ids c" by (rule request_ids_same) (simp add: forget_def)
  show ?thesis
    unfolding conn_inv_def rids
    using I assms(2)
    by (auto simp: forget_def answerable_def legitimate_def dest: I(3,4,5,6,7,8,10) split: if_splits)
qed

lemma inv_receive:
  assumes "conn_inv c" and "cn_calls c i = Some Blocked" and "cn_box c i = Some resp"
  shows "conn_inv (receive i resp c)"
proof -
  note I = conn_inv_parts [OF assms(1)]
  have rids: "request_ids (receive i resp c) = request_ids c" by (rule request_ids_same) (simp add: receive_def)
  have ok: "(i, (v, None)) \<in> set (cn_received c)" if "call_result resp = Inr v" for v
    using I(4) [OF assms(3)] that by (auto simp: legitimate_def call_result_Inr closed_response_def)
  show ?thesis
    unfolding conn_inv_def rids
    using I assms(2,3) ok
    by (auto simp: receive_def answerable_def legitimate_def dest: I(3,4,5,6,7,8,10) split: if_splits)
qed

lemma inv_notice:
  assumes "conn_inv c" and "cn_calls c i = Some Blocked"
  shows "conn_inv (notice_done i c)"
proof -
  note I = conn_inv_parts [OF assms(1)]
  have rids: "request_ids (notice_done i c) = request_ids c" by (rule request_ids_same) (simp add: notice_done_def)
  show ?thesis
    unfolding conn_inv_def rids
    using I assms(2)
    by (auto simp: notice_done_def answerable_def legitimate_def dest: I(3,4,5,6,7,8,10) split: if_splits)
qed

lemma inv_claim:
  assumes "conn_inv c" and "cn_reader c = Reading"
  shows "conn_inv (claim i resp c)"
proof -
  note I = conn_inv_parts [OF assms(1)]
  have rids: "request_ids (claim i resp c) = request_ids c" by (rule request_ids_same) (simp add: claim_def Let_def)
  show ?thesis
    unfolding conn_inv_def rids
    using I assms(2)
    by (auto simp: claim_def Let_def answerable_def legitimate_def dest: I(3,4,5,6,7,8,10) split: if_splits)
qed

lemma inv_deliver:
  assumes "conn_inv c" and "cn_reader c = Delivering i resp"
  shows "conn_inv (deliver i resp c)"
proof -
  note I = conn_inv_parts [OF assms(1)]
  have rids: "request_ids (deliver i resp c) = request_ids c" by (rule request_ids_same) (simp add: deliver_def)
  show ?thesis
    unfolding conn_inv_def rids
    using I assms(2)
    by (auto simp: deliver_def answerable_def legitimate_def dest: I(3,4,5,6,7,8,10) split: if_splits)
qed

lemma inv_drain:
  assumes "conn_inv c" and "cn_reader c = Reading"
  shows "conn_inv (drain c)"
proof -
  note I = conn_inv_parts [OF assms(1)]
  have rids: "request_ids (drain c) = request_ids c" by (rule request_ids_same) (simp add: drain_def)
  show ?thesis
    unfolding conn_inv_def rids
    using I assms(2)
    by (auto simp: drain_def answerable_def legitimate_def dest: I(3,4,5,6,7,8,10) split: if_splits)
qed

text \<open>A step that only writes a message that is no request, or only moves the reader along.\<close>

lemma inv_same:
  assumes "conn_inv c" and "cn_nextID c' = cn_nextID c" "cn_pending c' = cn_pending c" "cn_box c' = cn_box c"
    "cn_calls c' = cn_calls c" "cn_received c' = cn_received c" "request_ids c' = request_ids c"
    and "\<And>i resp. cn_reader c' = Delivering i resp \<longleftrightarrow> cn_reader c = Delivering i resp"
  shows "conn_inv c'"
  using assms unfolding conn_inv_def answerable_def legitimate_def by simp

lemma response_no_request: "classify (handleRequest handler msg) \<noteq> RequestCall"
  using call_returns_handled [of handler msg] by auto

lemma step_inv: "step handler c c' \<Longrightarrow> conn_inv c \<Longrightarrow> conn_inv c'"
proof (induction rule: step.induct)
  case (respond msg c)
  then show ?case
    using request_ids_written [of c "handleRequest handler msg"] response_no_request
    by (intro inv_same [OF respond.prems]) (simp_all add: request_ids_def)
next
  case (notify c meth params)
  have "classify (notification_message meth params) \<noteq> RequestCall"
    by (simp add: classify_def notification_message_def no_message_def)
  then show ?case
    using request_ids_written [of c "notification_message meth params"]
    by (intro inv_same [OF notify.prems]) simp_all
qed (auto intro: inv_call inv_send inv_forget inv_receive inv_notice inv_claim inv_deliver inv_drain inv_same simp: request_ids_def)

lemma inv_start: "conn_inv newConnection"
  by (simp add: conn_inv_def newConnection_def request_ids_def List.map_filter_def)

lemma reachable_inv: "reachable handler c \<Longrightarrow> conn_inv c"
  unfolding reachable_def by (induction rule: rtranclp_induct) (auto simp: inv_start intro: step_inv)

lemma fresh_call: "conn_inv c \<Longrightarrow> cn_calls c (cn_nextID c + 1) = None"
  using conn_inv_parts(2) [of c "cn_nextID c + 1"] by auto

lemma returned_stays: "step handler c c' \<Longrightarrow> conn_inv c \<Longrightarrow> cn_calls c i = Some (Returned r) \<Longrightarrow> cn_calls c' i = Some (Returned r)"
  by (induction rule: step.induct)
    (auto simp: register_def Let_def send_def forget_def receive_def notice_done_def claim_def deliver_def drain_def
      dest: fresh_call)

lemma returned_forever:
  "(step handler)\<^sup>*\<^sup>* c c' \<Longrightarrow> conn_inv c \<Longrightarrow> cn_calls c i = Some (Returned r) \<Longrightarrow> conn_inv c' \<and> cn_calls c' i = Some (Returned r)"
  by (induction rule: rtranclp_induct) (auto intro: step_inv returned_stays)


text \<open>A call, its response, and the result.\<close>

definition pinged :: Connection where
  "pinged = receive 1 (Some JNull, None) (deliver 1 (Some JNull, None) (claim 1 (Some JNull, None)
     (send 1 (request_message 1 ''ping'' None) (register ''ping'' None newConnection))))"

lemma pinged_reachable: "reachable handler pinged"
proof -
  define c1 where "c1 = register ''ping'' None newConnection"
  define c2 where "c2 = send 1 (request_message 1 ''ping'' None) c1"
  define msg where "msg = no_message\<lparr>jm_ID := Some 1, jm_Result := Some JNull\<rparr>"
  define c3 where "c3 = claim 1 (response_of msg) c2"
  define c4 where "c4 = deliver 1 (response_of msg) c3"
  have r: "response_of msg = (Some JNull, None)" by (simp add: response_of_def msg_def no_message_def)
  have "step handler newConnection c1" unfolding c1_def by (rule step.call)
  moreover have "step handler c1 c2" unfolding c2_def by (rule step.send) (simp add: c1_def register_def newConnection_def)
  moreover have "step handler c2 c3" unfolding c3_def
    by (rule step.claim) (simp_all add: c2_def c1_def send_def register_def newConnection_def Let_def msg_def classify_def no_message_def)
  moreover have "step handler c3 c4" unfolding c4_def
    by (rule step.deliver) (simp_all add: c3_def c2_def c1_def claim_def send_def register_def newConnection_def Let_def)
  moreover have "step handler c4 (receive 1 (response_of msg) c4)"
    by (rule step.receive) (simp_all add: c4_def c3_def c2_def c1_def deliver_def claim_def send_def register_def newConnection_def Let_def)
  moreover have "pinged = receive 1 (response_of msg) c4"
    by (simp only: pinged_def c4_def c3_def c2_def c1_def r)
  ultimately show ?thesis
    unfolding reachable_def by (metis rtranclp.rtrancl_refl rtranclp.rtrancl_into_rtrancl)
qed


section \<open>What a closed connection leaves behind\<close>

text \<open>
  A call made when the read loop has ended returns, because the connection is done, but nobody removes
  its channel: the table of pending calls keeps growing.
\<close>

lemma late_call_stays_pending:
  "\<exists>c. reachable handler c \<and> cn_done c \<and> cn_pending c = [1] \<and> cn_calls c 1 = Some (Returned (Inl connection_closed))"
proof -
  define c1 where "c1 = drain newConnection"
  define c2 where "c2 = c1\<lparr>cn_done := True\<rparr>"
  define c3 where "c3 = register ''ping'' None c2"
  define c4 where "c4 = send 1 (request_message 1 ''ping'' None) c3"
  have "step handler newConnection c1" unfolding c1_def by (rule step.ended) (simp_all add: newConnection_def)
  moreover have "step handler c1 c2" unfolding c2_def by (rule step.closes) (simp add: c1_def drain_def)
  moreover have "step handler c2 c3" unfolding c3_def by (rule step.call)
  moreover have "step handler c3 c4" unfolding c4_def
    by (rule step.send) (simp add: c3_def c2_def c1_def drain_def register_def newConnection_def)
  moreover have "step handler c4 (notice_done 1 c4)"
    by (rule step.notice) (simp_all add: c4_def c3_def c2_def c1_def send_def drain_def register_def newConnection_def Let_def)
  ultimately have "reachable handler (notice_done 1 c4)"
    unfolding reachable_def by (metis rtranclp.rtrancl_refl rtranclp.rtrancl_into_rtrancl)
  moreover have "cn_done (notice_done 1 c4)" "cn_pending (notice_done 1 c4) = [1]"
    "cn_calls (notice_done 1 c4) 1 = Some (Returned (Inl connection_closed))"
    by (simp_all add: c4_def c3_def c2_def c1_def notice_done_def send_def drain_def register_def newConnection_def Let_def)
  ultimately show ?thesis by blast
qed

end
