(* ===== verification/Client.thy ===== *)
theory Client
  imports Server Connection
begin

text \<open>
  internal/protocol/client.go: the other end of the connection, which answers the server's permission
  requests through the callbacks of the user interface and calls the server's methods. The callbacks
  act on the state \<open>'w\<close> of the interface. The lemmas join the two ends: what the server asks is what
  the callback is given, and what the callback decides is what the server does.
\<close>

section \<open>What the client decodes\<close>

definition dec_PermissionOption :: "PermissionOption \<Rightarrow> json \<Rightarrow> PermissionOption result" where
  "dec_PermissionOption = dec_struct ''types.PermissionOption''
     [(''optionId'', set_field po_OptionID_update po_OptionID dec_string),
      (''name'', set_field po_Name_update po_Name dec_string),
      (''kind'', set_field po_Kind_update po_Kind dec_string)]"

text \<open>A value of type \<open>any\<close>: null is nil.\<close>

definition dec_interface :: "json option \<Rightarrow> json \<Rightarrow> json option result" where
  "dec_interface old v = Inr (if v = JNull then None else Some v)"

definition no_detail :: ToolCallDetail where
  "no_detail = \<lparr>tcd_ToolCallID = [], tcd_Title = None, tcd_Kind = None, tcd_Status = None, tcd_RawInput = None, tcd_Preview = None\<rparr>"

definition dec_ToolCallDetail :: "ToolCallDetail \<Rightarrow> json \<Rightarrow> ToolCallDetail result" where
  "dec_ToolCallDetail = dec_struct ''types.ToolCallDetail''
     [(''toolCallId'', set_field tcd_ToolCallID_update tcd_ToolCallID dec_string),
      (''title'', set_field tcd_Title_update tcd_Title (dec_ptr dec_string [])),
      (''kind'', set_field tcd_Kind_update tcd_Kind (dec_ptr dec_string [])),
      (''status'', set_field tcd_Status_update tcd_Status (dec_ptr dec_string [])),
      (''rawInput'', set_field tcd_RawInput_update tcd_RawInput dec_interface),
      (''preview'', set_field tcd_Preview_update tcd_Preview dec_interface)]"

definition no_permission_request :: RequestPermissionRequest where
  "no_permission_request = \<lparr>rp_SessionID = [], rp_ToolCall = no_detail, rp_Options = []\<rparr>"

definition dec_RequestPermissionRequest :: "RequestPermissionRequest \<Rightarrow> json \<Rightarrow> RequestPermissionRequest result" where
  "dec_RequestPermissionRequest = dec_struct ''types.RequestPermissionRequest''
     [(''sessionId'', set_field rp_SessionID_update rp_SessionID dec_string),
      (''toolCall'', set_field rp_ToolCall_update rp_ToolCall dec_ToolCallDetail),
      (''options'', set_field rp_Options_update rp_Options
         (dec_slice dec_PermissionOption \<lparr>po_OptionID = [], po_Name = [], po_Kind = []\<rparr>))]"

record SessionUpdate =
  su_SessionID :: string
  su_Update :: "json option"

definition dec_SessionNotification :: "SessionUpdate \<Rightarrow> json \<Rightarrow> SessionUpdate result" where
  "dec_SessionNotification = dec_struct ''types.SessionNotification''
     [(''sessionId'', set_field su_SessionID_update su_SessionID dec_string),
      (''update'', set_field su_Update_update su_Update dec_interface)]"

text \<open>The responses of the server; what no caller reads is only checked.\<close>

definition ignored :: "(unit \<Rightarrow> json \<Rightarrow> unit result) \<Rightarrow> 'r \<Rightarrow> json \<Rightarrow> 'r result" where
  "ignored d r v = result_bind (d () v) (\<lambda>_. Inr r)"

definition check_bools :: "string \<Rightarrow> string list \<Rightarrow> unit \<Rightarrow> json \<Rightarrow> unit result" where
  "check_bools t names = dec_struct t (map (\<lambda>n. (n, ignored (\<lambda>_ v. result_bind (dec_bool False v) (\<lambda>_. Inr ())))) names)"

definition check_strings :: "string \<Rightarrow> string list \<Rightarrow> unit \<Rightarrow> json \<Rightarrow> unit result" where
  "check_strings t names = dec_struct t (map (\<lambda>n. (n, ignored (\<lambda>_ v. result_bind (dec_string [] v) (\<lambda>_. Inr ())))) names)"

record InitializeResponse =
  is_ProtocolVersion :: int
  is_LoadSession :: bool

definition dec_AgentCapabilities :: "bool \<Rightarrow> json \<Rightarrow> bool result" where
  "dec_AgentCapabilities = dec_struct ''types.AgentCapabilities''
     [(''loadSession'', dec_bool),
      (''promptCapabilities'', ignored (check_bools ''types.PromptCapabilities'' [''image'', ''audio'', ''embeddedContext''])),
      (''mcpCapabilities'', ignored (check_bools ''types.McpCapabilities'' [''http'', ''sse''])),
      (''sessionCapabilities'', ignored (check_bools ''types.SessionCapabilities'' []))]"

definition dec_InitializeResponse :: "InitializeResponse \<Rightarrow> json \<Rightarrow> InitializeResponse result" where
  "dec_InitializeResponse = dec_struct ''types.InitializeResponse''
     [(''protocolVersion'', set_field is_ProtocolVersion_update is_ProtocolVersion dec_int),
      (''agentCapabilities'', set_field is_LoadSession_update is_LoadSession dec_AgentCapabilities),
      (''agentInfo'', ignored (check_strings ''types.Implementation'' [''name'', ''title'', ''version''])),
      (''authMethods'', ignored (\<lambda>_ v. result_bind (dec_slice (check_strings ''types.AuthMethod'' [''id'', ''name'']) () [] v) (\<lambda>_. Inr ())))]"

text \<open>A session response has the identifier as its only field, a prompt response the stop reason.\<close>

definition dec_SessionResponse :: "string \<Rightarrow> json \<Rightarrow> string result" where
  "dec_SessionResponse = dec_struct ''types.NewSessionResponse'' [(''sessionId'', dec_string)]"

definition dec_PromptResponse :: "string \<Rightarrow> json \<Rightarrow> string result" where
  "dec_PromptResponse = dec_struct ''types.PromptResponse'' [(''stopReason'', dec_string)]"

record StatusResponse =
  st_Bind :: string
  st_Uptime :: string
  st_StartedAt :: string
  st_DataDir :: string

definition dec_StatusResponse :: "StatusResponse \<Rightarrow> json \<Rightarrow> StatusResponse result" where
  "dec_StatusResponse = dec_struct ''types.StatusResponse''
     [(''bind'', set_field st_Bind_update st_Bind dec_string),
      (''uptime'', set_field st_Uptime_update st_Uptime dec_string),
      (''startedAt'', set_field st_StartedAt_update st_StartedAt dec_string),
      (''dataDir'', set_field st_DataDir_update st_DataDir dec_string)]"

section \<open>dispatch\<close>

record 'w ClientCallbacks =
  on_Update :: "(SessionUpdate \<Rightarrow> 'w \<Rightarrow> 'w) option"
  on_Permission :: "(RequestPermissionRequest \<Rightarrow> 'w \<Rightarrow> PermissionOutcome \<times> 'w) option"
  on_ContextSnapshot :: "(json option \<Rightarrow> 'w \<Rightarrow> 'w) option"

definition client_dispatch :: "'w ClientCallbacks \<Rightarrow> string \<Rightarrow> json option \<Rightarrow> 'w \<Rightarrow> json result \<times> 'w" where
  "client_dispatch cb method params w =
     (if method = ''session/update''
      then (Inr JNull,
            case on_Update cb of None \<Rightarrow> w
            | Some f \<Rightarrow> (case unmarshal dec_SessionNotification \<lparr>su_SessionID = [], su_Update = None\<rparr> params of
                Inl _ \<Rightarrow> w | Inr notif \<Rightarrow> f notif w))
      else if method = ''session/request_permission''
      then (case on_Permission cb of
              None \<Rightarrow> (Inr (enc_RequestPermissionResponse PermissionCancelled), w)
            | Some f \<Rightarrow>
                (case unmarshal dec_RequestPermissionRequest no_permission_request params of
                   Inl err \<Rightarrow> (Inl (NewRPCError ErrInvalidParams (error_text err)), w)
                 | Inr req \<Rightarrow> (case f req w of (outcome, w') \<Rightarrow> (Inr (enc_RequestPermissionResponse outcome), w'))))
      else if method = ''_kontekst/context''
      then (Inr JNull, case on_ContextSnapshot cb of None \<Rightarrow> w | Some f \<Rightarrow> f params w)
      else (Inr JNull, w))"

section \<open>The methods\<close>

text \<open>A request and the decoding of its result; \<open>sv\<close> is the server as the client sees it.\<close>

type_synonym server = "string \<Rightarrow> json option \<Rightarrow> json option result"

definition call_method :: "server \<Rightarrow> string \<Rightarrow> json option \<Rightarrow> ('r \<Rightarrow> json \<Rightarrow> 'r result) \<Rightarrow> 'r \<Rightarrow> string \<Rightarrow> 'r result" where
  "call_method sv method params dec zero what =
     result_bind (sv method params)
       (\<lambda>r. map_error (\<lambda>err. Errorf (''protocol: unmarshal '' @ what @ '' response: %w'') [AErr err]) (unmarshal dec zero r))"

definition cl_Initialize :: "server \<Rightarrow> json \<Rightarrow> InitializeResponse result" where
  "cl_Initialize sv req =
     call_method sv ''initialize'' (Some req) dec_InitializeResponse \<lparr>is_ProtocolVersion = 0, is_LoadSession = False\<rparr> ''initialize''"

definition cl_NewSession :: "server \<Rightarrow> json \<Rightarrow> string result" where
  "cl_NewSession sv req = call_method sv ''session/new'' (Some req) dec_SessionResponse [] ''session''"

definition cl_LoadSession :: "server \<Rightarrow> json \<Rightarrow> string result" where
  "cl_LoadSession sv req = call_method sv ''session/load'' (Some req) dec_SessionResponse [] ''load session''"

definition cl_Prompt :: "server \<Rightarrow> json \<Rightarrow> string result" where
  "cl_Prompt sv req = call_method sv ''session/prompt'' (Some req) dec_PromptResponse [] ''prompt''"

definition cl_Cancel :: "string \<Rightarrow> jsonrpcMessage" where
  "cl_Cancel sessionID = notification_message ''session/cancel'' (Some (JObj [(''sessionId'', JStr sessionID)]))"

definition handshake :: json where
  "handshake = JObj [(''protocolVersion'', JInt ProtocolVersion), (''clientCapabilities'', JObj [])]"

definition cl_Status :: "server \<Rightarrow> StatusResponse result" where
  "cl_Status sv =
     result_bind (map_error (\<lambda>err. Errorf ''protocol: initialize: %w'' [AErr err]) (sv ''initialize'' (Some handshake))) (\<lambda>_.
     result_bind (map_error (\<lambda>err. Errorf ''protocol: status request: %w'' [AErr err]) (sv ''_kontekst/status'' None)) (\<lambda>r.
     map_error (\<lambda>err. Errorf ''protocol: unmarshal status response: %w'' [AErr err])
       (unmarshal dec_StatusResponse \<lparr>st_Bind = [], st_Uptime = [], st_StartedAt = [], st_DataDir = []\<rparr> r)))"

definition cl_Shutdown :: "server \<Rightarrow> unit result" where
  "cl_Shutdown sv =
     result_bind (map_error (\<lambda>err. Errorf ''protocol: initialize: %w'' [AErr err]) (sv ''initialize'' (Some handshake))) (\<lambda>_.
     result_bind (map_error (\<lambda>err. Errorf ''protocol: shutdown: %w'' [AErr err]) (sv ''_kontekst/shutdown'' None)) (\<lambda>_. Inr ()))"

section \<open>The two ends\<close>

text \<open>A request of the server, through the connection, to the client in the state \<open>w\<close>.\<close>

definition over_connection :: "(string \<Rightarrow> json option \<Rightarrow> json result) \<Rightarrow> client" where
  "over_connection h made method params =
     call_result (response_of (handleRequest (Some h) (request_message 1 method (Some params))))"

definition client_end :: "'w ClientCallbacks \<Rightarrow> 'w \<Rightarrow> client" where
  "client_end cb w = over_connection (\<lambda>method params. fst (client_dispatch cb method params w))"

lemma over_connection_Inr: "h method (Some params) = Inr v \<Longrightarrow> over_connection h made method params = Inr (Some v)"
  by (simp add: over_connection_def call_returns_handled request_message_def no_message_def)

lemma dec_enc_option: "dec_PermissionOption zero (enc_PermissionOption p) = Inr p"
  by (cases p; cases zero)
    (simp add: dec_PermissionOption_def enc_PermissionOption_def dec_struct_def set_field_def to_upper_def upper_char_def)

lemma dec_enc_options:
  "dec_elements dec_PermissionOption zero (map enc_PermissionOption ps) = Inr ps"
  by (induction ps) (simp_all add: dec_enc_option)

definition not_null :: "json option \<Rightarrow> json option" where
  "not_null v = (if v = Some JNull then None else v)"

lemma detail_member:
  "dec_ToolCallDetail d (JObj ((''toolCallId'', JStr i) # kvs)) = dec_ToolCallDetail (d\<lparr>tcd_ToolCallID := i\<rparr>) (JObj kvs)"
  "dec_ToolCallDetail d (JObj ((''title'', JStr s) # kvs)) = dec_ToolCallDetail (d\<lparr>tcd_Title := Some s\<rparr>) (JObj kvs)"
  "dec_ToolCallDetail d (JObj ((''kind'', JStr s) # kvs)) = dec_ToolCallDetail (d\<lparr>tcd_Kind := Some s\<rparr>) (JObj kvs)"
  "dec_ToolCallDetail d (JObj ((''status'', JStr s) # kvs)) = dec_ToolCallDetail (d\<lparr>tcd_Status := Some s\<rparr>) (JObj kvs)"
  "dec_ToolCallDetail d (JObj ((''rawInput'', v) # kvs)) = dec_ToolCallDetail (d\<lparr>tcd_RawInput := not_null (Some v)\<rparr>) (JObj kvs)"
  "dec_ToolCallDetail d (JObj ((''preview'', v) # kvs)) = dec_ToolCallDetail (d\<lparr>tcd_Preview := not_null (Some v)\<rparr>) (JObj kvs)"
  "dec_ToolCallDetail d (JObj []) = Inr d"
  by (simp_all add: dec_ToolCallDetail_def dec_struct_def set_field_def dec_ptr_def dec_interface_def not_null_def
      to_upper_def upper_char_def)

lemma dec_enc_detail:
  "dec_ToolCallDetail no_detail (enc_ToolCallDetail d) =
     Inr (d\<lparr>tcd_RawInput := not_null (tcd_RawInput d), tcd_Preview := not_null (tcd_Preview d)\<rparr>)"
  by (cases d; cases "tcd_Title d"; cases "tcd_Kind d"; cases "tcd_Status d"; cases "tcd_RawInput d"; cases "tcd_Preview d")
    (simp_all add: enc_ToolCallDetail_def omit_none_def detail_member no_detail_def, simp_all add: not_null_def)

text \<open>What the callback is given: the request as it was sent, except that null is nothing.\<close>

definition as_received :: "RequestPermissionRequest \<Rightarrow> RequestPermissionRequest" where
  "as_received req =
     req\<lparr>rp_ToolCall := (rp_ToolCall req)\<lparr>tcd_RawInput := not_null (tcd_RawInput (rp_ToolCall req)),
                                          tcd_Preview := not_null (tcd_Preview (rp_ToolCall req))\<rparr>\<rparr>"

lemma dec_enc_request:
  "unmarshal dec_RequestPermissionRequest no_permission_request (Some (enc_RequestPermissionRequest req)) = Inr (as_received req)"
proof (cases req)
  case (fields sid d opts)
  have "dec_struct t fds r (JObj kvs) = dec_members fds r kvs" for t kvs and fds :: "RequestPermissionRequest field list" and r
    by (simp add: dec_struct_def)
  then show ?thesis
    by (simp add: fields unmarshal_def dec_RequestPermissionRequest_def enc_RequestPermissionRequest_def set_field_def
        no_permission_request_def dec_enc_detail dec_slice_def dec_enc_options as_received_def to_upper_def upper_char_def)
qed

lemma permission_answer:
  "fst (requestPermission (client_end cb w) parse sid call kind made) =
     Inr (case on_Permission cb of
            None \<Rightarrow> PermissionCancelled
          | Some f \<Rightarrow> fst (f (as_received (permission_request parse sid call kind)) w))"
proof -
  define req where "req = permission_request parse sid call kind"
  define out where "out = (case on_Permission cb of None \<Rightarrow> PermissionCancelled | Some f \<Rightarrow> fst (f (as_received req) w))"
  have d: "fst (client_dispatch cb ''session/request_permission'' (Some (enc_RequestPermissionRequest req)) w) =
      Inr (enc_RequestPermissionResponse out)"
    by (auto simp: client_dispatch_def dec_enc_request out_def split: option.split prod.split)
  have "client_end cb w made ''session/request_permission'' (enc_RequestPermissionRequest req) =
      Inr (Some (enc_RequestPermissionResponse out))"
    unfolding client_end_def by (rule over_connection_Inr) (rule d)
  then have r: "fst (requestPermission (client_end cb w) parse sid call kind made) = Inr out"
    unfolding requestPermission_def ask_def req_def [symmetric] by (simp add: permission_roundtrip map_error_def)
  then show ?thesis unfolding out_def req_def by simp
qed

text \<open>
  C13: consent crosses the wire unchanged: the callback of the user interface is given the very call the
  server asks about, with its options, and the outcome it returns is the outcome the server decides
  on. A client without such a callback consents to nothing: each of its calls is denied as cancelled.
\<close>

theorem permission_end_to_end:
  "fst (requestPermission (client_end cb w) parse sid call kind made) =
     Inr (case on_Permission cb of
            None \<Rightarrow> PermissionCancelled
          | Some f \<Rightarrow> fst (f (as_received (permission_request parse sid call kind)) w)) \<and>
   decision_on call (fst (requestPermission (client_end (cb\<lparr>on_Permission := None\<rparr>) w) parse sid call kind made)) =
     \<lparr>cm_Type = CmdDenyTool, cm_CallID = pt_CallID call, cm_Reason = ''cancelled''\<rparr>"
  by (simp add: permission_answer decision_on_def outcomeIsAllowed_def PermissionCancelled_def)

text \<open>The handshake: the client learns what the server announces.\<close>

lemma initialize_end_to_end:
  "cl_Initialize (\<lambda>method params. over_connection (\<lambda>m p. fst (handleInitialize p h)) [] method (the params))
     (JObj [(''protocolVersion'', JInt 1)]) = Inr \<lparr>is_ProtocolVersion = 1, is_LoadSession = True\<rparr>"
proof -
  have i: "fst (handleInitialize (Some (JObj [(''protocolVersion'', JInt 1)])) h) = Inr initialize_response"
    by (simp add: handleInitialize_def invalid_params_def map_error_def unmarshal_def dec_InitializeRequest_def dec_struct_def
        set_field_def dec_int_JInt to_upper_def upper_char_def)
  have "unmarshal dec_InitializeResponse \<lparr>is_ProtocolVersion = 0, is_LoadSession = False\<rparr> (Some initialize_response) =
      Inr \<lparr>is_ProtocolVersion = 1, is_LoadSession = True\<rparr>"
    unfolding initialize_response_def ProtocolVersion_def JInt_def by code_simp
  then show ?thesis
    by (simp add: cl_Initialize_def call_method_def over_connection_Inr [of "\<lambda>m p. fst (handleInitialize p h)", OF i] map_error_def)
qed

end
