(* ===== verification/Terminal.thy ===== *)
theory Terminal
  imports Client Sessions AgentRegistry "HOL-Library.Signed_Division"
begin

text \<open>
  What the command line shows and asks (internal/cli/run.go, styles.go, session.go, agents.go): the
  updates of a run, the question before a tool call, the summary of the context, and the rows of
  the tables. Text is printed as it is; colours and the layout of tables are the terminal library's and
  left out. \<open>marshal\<close> is \<open>json.Marshal\<close> and \<open>render\<close> the markdown renderer, if there is one. The lemmas
  show when the user's answer is a consent, that a line of text is cut to its bound, and that the
  summary printed is the one the server made.
\<close>

record terminal =
  tm_input :: string
  tm_output :: string
  tm_snapshot :: "Snapshot option"

definition print :: "string \<Rightarrow> terminal \<Rightarrow> terminal" where
  "print text t = t\<lparr>tm_output := tm_output t @ text\<rparr>"

definition println :: "string \<Rightarrow> terminal \<Rightarrow> terminal" where
  "println text t = print (text @ [nl]) t"

text \<open>\<open>bufio.Reader.ReadString('\n')\<close>: up to and with the newline, or all there is.\<close>

definition ReadLine :: "terminal \<Rightarrow> string \<times> terminal" where
  "ReadLine t =
     (let line = takeWhile (\<lambda>c. c \<noteq> nl) (tm_input t); rest = drop (length line) (tm_input t)
      in (line @ take 1 rest, t\<lparr>tm_input := drop 1 rest\<rparr>))"

section \<open>styles.go\<close>

definition toolKindLabels :: "(string \<times> string) list" where
  "toolKindLabels =
     [(''read'', ''read''), (''edit'', ''edit''), (''delete'', ''del''), (''execute'', ''exec''), (''search'', ''search''), (''fetch'', ''fetch'')]"

definition toolKindLabel :: "string \<Rightarrow> string" where
  "toolKindLabel kind = (case map_of toolKindLabels kind of Some label \<Rightarrow> label | None \<Rightarrow> ''tool'')"

definition styledError :: "string \<Rightarrow> string list \<Rightarrow> string" where
  "styledError msg hints = msg @ concat (map (\<lambda>h. nl # ''  '' @ h) hints)"

section \<open>run.go: updates\<close>

definition extractToolResultText :: "json_object \<Rightarrow> string" where
  "extractToolResultText m =
     (case map_of m ''content'' of
        Some (JArr (c # cs)) \<Rightarrow>
          (case c of JObj kvs \<Rightarrow>
             (case json_obj (map_of kvs ''content'') of None \<Rightarrow> [] | Some inner \<Rightarrow> str_or_empty (json_str (map_of inner ''text'')))
           | _ \<Rightarrow> [])
      | _ \<Rightarrow> [])"

definition truncate_line :: "string \<Rightarrow> nat \<Rightarrow> string" where
  "truncate_line s n =
     (let s1 = takeWhile (\<lambda>c. c \<noteq> nl) s
      in if length s1 \<le> n then s1 else take (n - 3) s1 @ ''...'')"

text \<open>The text of a chunk, if the update has one.\<close>

definition chunk_text :: "json_object \<Rightarrow> string option" where
  "chunk_text m =
     (case json_obj (map_of m ''content'') of None \<Rightarrow> None | Some content \<Rightarrow> json_str (map_of content ''text''))"

definition raw_input :: "json_object \<Rightarrow> json" where
  "raw_input m = (case map_of m ''rawInput'' of None \<Rightarrow> JNull | Some v \<Rightarrow> v)"

definition call_line :: "(json \<Rightarrow> string) \<Rightarrow> string \<Rightarrow> string \<Rightarrow> json \<Rightarrow> string" where
  "call_line marshal kind title rawInput = toolKindLabel kind @ '' '' @ title @ ''('' @ marshal rawInput @ '')''"

definition handleSessionUpdate ::
  "(string \<Rightarrow> string result) option \<Rightarrow> (json \<Rightarrow> string) \<Rightarrow> SessionUpdate \<Rightarrow> terminal \<Rightarrow> terminal" where
  "handleSessionUpdate renderer marshal notif t =
     (case json_obj (su_Update notif) of None \<Rightarrow> t
      | Some m \<Rightarrow>
          let updateType = str_or_empty (json_str (map_of m ''sessionUpdate''))
          in if updateType = ''agent_message_chunk'' then
               (case chunk_text m of None \<Rightarrow> t
                | Some text \<Rightarrow>
                    (case renderer of None \<Rightarrow> print text t
                     | Some render \<Rightarrow> (case render text of Inr rendered \<Rightarrow> print rendered t | Inl _ \<Rightarrow> print text t)))
             else if updateType = ''agent_thought_chunk'' then
               (case chunk_text m of None \<Rightarrow> t | Some text \<Rightarrow> print (text @ [nl, nl]) t)
             else if updateType = ''tool_call'' then
               println (call_line marshal (str_or_empty (json_str (map_of m ''kind''))) (str_or_empty (json_str (map_of m ''title''))) (raw_input m)) t
             else if updateType = ''tool_call_update'' then
               (let status = str_or_empty (json_str (map_of m ''status'')); text = extractToolResultText m
                in if status = ''completed'' then println (''  done '' @ truncate_line text 120) t
                   else if status = ''failed'' then println (''  fail '' @ truncate_line text 120) t
                   else t)
             else t)"

section \<open>run.go: permissions\<close>

definition says_yes :: "string \<Rightarrow> bool" where
  "says_yes line = (case line of [] \<Rightarrow> False | c # _ \<Rightarrow> c = CHR ''y'' \<or> c = CHR ''Y'')"

definition handlePermission ::
  "(json \<Rightarrow> string) \<Rightarrow> bool \<Rightarrow> RequestPermissionRequest \<Rightarrow> terminal \<Rightarrow> PermissionOutcome \<times> terminal" where
  "handlePermission marshal autoApprove req t =
     (if autoApprove then (PermissionSelected ''allow'', t)
      else
        let title = str_or_empty (tcd_Title (rp_ToolCall req));
            kind = str_or_empty (tcd_Kind (rp_ToolCall req));
            input = (case tcd_RawInput (rp_ToolCall req) of None \<Rightarrow> JNull | Some v \<Rightarrow> v);
            t1 = println (call_line marshal kind title input) t;
            (line, t2) = ReadLine (print ''approve? [y/N]: '' t1)
        in (PermissionSelected (if says_yes line then ''allow'' else ''reject''), t2))"

section \<open>run.go: the context\<close>

definition zero_stats :: MessageStats where
  "zero_stats = \<lparr>ms_Role = [], ms_Tokens = 0, ms_Source = []\<rparr>"

definition zero_snapshot :: Snapshot where
  "zero_snapshot =
     \<lparr>sn_ContextSize = 0, sn_SystemTokens = 0, sn_ToolTokens = 0, sn_HistoryTokens = 0, sn_MemoryTokens = 0, sn_TotalTokens = 0,
      sn_RemainingTokens = 0, sn_HistoryMessages = 0, sn_MemoryMessages = 0, sn_TotalMessages = 0, sn_HistoryBudget = 0, sn_Messages = []\<rparr>"

definition dec_MessageStats :: "MessageStats \<Rightarrow> json \<Rightarrow> MessageStats result" where
  "dec_MessageStats = dec_struct ''conversation.MessageStats''
     [(''role'', set_field ms_Role_update ms_Role dec_string), (''tokens'', set_field ms_Tokens_update ms_Tokens dec_int),
      (''source'', set_field ms_Source_update ms_Source dec_string)]"

definition dec_Snapshot :: "Snapshot \<Rightarrow> json \<Rightarrow> Snapshot result" where
  "dec_Snapshot = dec_struct ''conversation.Snapshot''
     [(''context_size'', set_field sn_ContextSize_update sn_ContextSize dec_int),
      (''system_tokens'', set_field sn_SystemTokens_update sn_SystemTokens dec_int),
      (''tool_tokens'', set_field sn_ToolTokens_update sn_ToolTokens dec_int),
      (''history_tokens'', set_field sn_HistoryTokens_update sn_HistoryTokens dec_int),
      (''memory_tokens'', set_field sn_MemoryTokens_update sn_MemoryTokens dec_int),
      (''total_tokens'', set_field sn_TotalTokens_update sn_TotalTokens dec_int),
      (''remaining_tokens'', set_field sn_RemainingTokens_update sn_RemainingTokens dec_int),
      (''history_messages'', set_field sn_HistoryMessages_update sn_HistoryMessages dec_int),
      (''memory_messages'', set_field sn_MemoryMessages_update sn_MemoryMessages dec_int),
      (''total_messages'', set_field sn_TotalMessages_update sn_TotalMessages dec_int),
      (''history_budget'', set_field sn_HistoryBudget_update sn_HistoryBudget dec_int),
      (''messages'', set_field sn_Messages_update sn_Messages (dec_slice dec_MessageStats zero_stats))]"

definition keep_snapshot :: "json option \<Rightarrow> terminal \<Rightarrow> terminal" where
  "keep_snapshot raw t =
     (case unmarshal dec_Snapshot zero_snapshot raw of Inl _ \<Rightarrow> t | Inr snap \<Rightarrow> t\<lparr>tm_snapshot := Some snap\<rparr>)"

text \<open>Division in Go truncates.\<close>

definition context_percent :: "Snapshot \<Rightarrow> int" where
  "context_percent snap = (if sn_ContextSize snap > 0 then (sn_TotalTokens snap * 100) sdiv sn_ContextSize snap else 0)"

definition printContextSnapshot :: "Snapshot \<Rightarrow> terminal \<Rightarrow> terminal" where
  "printContextSnapshot snap t =
     println (''ctx '' @ sprintf ''%d/%d '' [itoa (sn_TotalTokens snap), itoa (sn_ContextSize snap)] @
       sprintf ''%d'' [itoa (context_percent snap)] @ ''%  '' @
       sprintf ''sys:%d tools:%d hist:%d mem:%d free:%d''
         [itoa (sn_SystemTokens snap), itoa (sn_ToolTokens snap), itoa (sn_HistoryTokens snap),
          itoa (sn_MemoryTokens snap), itoa (sn_RemainingTokens snap)]) t"

text \<open>The callbacks of a run.\<close>

definition run_callbacks :: "(string \<Rightarrow> string result) option \<Rightarrow> (json \<Rightarrow> string) \<Rightarrow> bool \<Rightarrow> terminal ClientCallbacks" where
  "run_callbacks renderer marshal autoApprove =
     \<lparr>on_Update = Some (handleSessionUpdate renderer marshal), on_Permission = Some (handlePermission marshal autoApprove),
      on_ContextSnapshot = Some keep_snapshot\<rparr>"

section \<open>session.go\<close>

text \<open>\<open>%.1f\<close> of \<open>bytes / unit\<close>: tenths, the nearest, and of two equally near ones the even one; exact below 2^53 bytes.\<close>

definition tenths :: "int \<Rightarrow> int \<Rightarrow> int" where
  "tenths bytes unit =
     (let q = bytes * 10 div unit; r = bytes * 10 mod unit
      in if 2 * r > unit \<or> (2 * r = unit \<and> odd q) then q + 1 else q)"

definition one_decimal :: "int \<Rightarrow> string" where
  "one_decimal n = itoa (n div 10) @ ''.'' @ itoa (n mod 10)"

definition formatSize :: "int \<Rightarrow> string" where
  "formatSize bytes =
     (if bytes \<ge> 1024 * 1024 then one_decimal (tenths bytes (1024 * 1024)) @ ''M''
      else if bytes \<ge> 1024 then one_decimal (tenths bytes 1024) @ ''K''
      else sprintf ''%dB'' [itoa bytes])"

text \<open>\<open>d\<close> is the time since, in nanoseconds.\<close>

abbreviation minute :: int where "minute \<equiv> 60 * 1000000000"
abbreviation hour :: int where "hour \<equiv> 60 * minute"

definition formatTime :: "int \<Rightarrow> string" where
  "formatTime d =
     (if d < minute then ''just now''
      else if d < hour then
        (let m = d div minute in if m = 1 then ''1 minute ago'' else sprintf ''%d minutes ago'' [itoa m])
      else if d < 24 * hour then
        (let h = d div hour in if h = 1 then ''1 hour ago'' else sprintf ''%d hours ago'' [itoa h])
      else if d < 48 * hour then ''yesterday''
      else sprintf ''%d days ago'' [itoa (d div (24 * hour))])"

definition session_row :: "int \<Rightarrow> string \<Rightarrow> Info \<Rightarrow> string list" where
  "session_row now activeID info =
     [if in_ID info = activeID then ''*'' else '' '', in_ID info,
      (if in_DefaultAgent info = [] then ''default'' else in_DefaultAgent info),
      sprintf ''%d'' [itoa (in_MessageCount info)], formatSize (in_FileSize info), formatTime (now - in_ModifiedAt info)]"

definition printSessionsTable :: "int \<Rightarrow> Info list \<Rightarrow> string \<Rightarrow> string list list" where
  "printSessionsTable now list activeID =
     ['''', ''SESSION ID'', ''AGENT'', ''MESSAGES'', ''SIZE'', ''MODIFIED''] # map (session_row now activeID) list"

section \<open>agents.go\<close>

definition check_mark :: string where
  "check_mark = [CHR 0xE2, CHR 0x9C, CHR 0x93]"

definition agent_row :: "Summary \<Rightarrow> string list" where
  "agent_row a =
     [sm_AgentName a, sm_DisplayName a, (if sm_HasPrompt a then check_mark else ''-''), (if sm_HasConfig a then check_mark else ''-'')]"

definition printAgentsTable :: "Summary list \<Rightarrow> string list list" where
  "printAgentsTable agentList = [''NAME'', ''DISPLAY NAME'', ''PROMPT'', ''CONFIG''] # map agent_row agentList"

section \<open>What the user agrees to\<close>

lemma first_of_line: "says_yes (fst (ReadLine t)) \<longleftrightarrow> (\<exists>rest. tm_input t = CHR ''y'' # rest \<or> tm_input t = CHR ''Y'' # rest)"
  by (cases "tm_input t") (auto simp: ReadLine_def says_yes_def Let_def)

lemma selected_allowed:
  "outcomeIsAllowed (PermissionSelected ''allow'') permission_options" "\<not> outcomeIsAllowed (PermissionSelected ''reject'') permission_options"
  by code_simp+

lemma permission_allowed:
  "outcomeIsAllowed (fst (handlePermission marshal autoApprove req t)) permission_options \<longleftrightarrow>
     autoApprove \<or> (\<exists>rest. tm_input t = CHR ''y'' # rest \<or> tm_input t = CHR ''Y'' # rest)"
proof (cases autoApprove)
  case False
  have "tm_input (print x u) = tm_input u" "tm_input (println x u) = tm_input u" for x u
    by (simp_all add: print_def println_def)
  then show ?thesis using False selected_allowed by (simp add: handlePermission_def Let_def split_beta first_of_line)
qed (simp add: handlePermission_def selected_allowed)


section \<open>What is shown\<close>

text \<open>A result is shown as one line, the beginning of the first line of its text.\<close>

lemma truncate_line_bound:
  assumes "3 \<le> n"
  shows "length (truncate_line s n) \<le> n" and "nl \<notin> set (truncate_line s n)"
    and "take (n - 3) (truncate_line s n) = take (n - 3) (takeWhile (\<lambda>c. c \<noteq> nl) s)"
  using assms set_takeWhileD [of nl "\<lambda>c. c \<noteq> nl" s] in_set_takeD [of nl "n - 3" "takeWhile (\<lambda>c. c \<noteq> nl) s"]
  by (auto simp: truncate_line_def Let_def)

definition int64 :: "int \<Rightarrow> bool" where
  "int64 i \<longleftrightarrow> - (2 ^ 63) \<le> i \<and> i < 2 ^ 63"

definition snapshot_fits :: "Snapshot \<Rightarrow> bool" where
  "snapshot_fits s \<longleftrightarrow>
     list_all int64 [sn_ContextSize s, sn_SystemTokens s, sn_ToolTokens s, sn_HistoryTokens s, sn_MemoryTokens s, sn_TotalTokens s,
       sn_RemainingTokens s, sn_HistoryMessages s, sn_MemoryMessages s, sn_TotalMessages s, sn_HistoryBudget s] \<and>
     list_all (\<lambda>m. int64 (ms_Tokens m)) (sn_Messages s)"

lemma dec_enc_stats: "int64 (ms_Tokens m) \<Longrightarrow> dec_MessageStats zero_stats (enc_MessageStats m) = Inr m"
  by (cases m) (simp add: dec_MessageStats_def enc_MessageStats_def dec_struct_def set_field_def dec_int_JInt int64_def zero_stats_def to_upper_def upper_char_def)

lemma dec_enc_all_stats:
  "list_all (\<lambda>m. int64 (ms_Tokens m)) ms \<Longrightarrow> dec_elements dec_MessageStats zero_stats (map enc_MessageStats ms) = Inr ms"
  by (induction ms) (simp_all add: dec_enc_stats)

text \<open>
  The summary of the context that the command line keeps is the one the server took: every count
  and every message survives the encoding, the wire format and the decoding.
\<close>

theorem snapshot_shown:
  assumes "snapshot_fits snap"
  shows "snd (client_dispatch (run_callbacks renderer marshal autoApprove) ''_kontekst/context'' (Some (enc_Snapshot snap)) t) =
    t\<lparr>tm_snapshot := Some snap\<rparr>"
proof -
  have "dec_Snapshot zero_snapshot (enc_Snapshot snap) = Inr snap"
  proof (cases snap)
    case (fields a b c d e f g h i j k ms)
    then show ?thesis using assms
      by (simp add: snapshot_fits_def int64_def dec_Snapshot_def enc_Snapshot_def dec_struct_def set_field_def dec_int_JInt zero_snapshot_def
          dec_slice_def dec_enc_all_stats to_upper_def upper_char_def)
  qed
  then show ?thesis by (simp add: client_dispatch_def run_callbacks_def keep_snapshot_def unmarshal_def)
qed

theorem snapshot_shown_witness:
  "\<forall>renderer marshal t. snd (client_dispatch (run_callbacks renderer marshal True) ''_kontekst/context''
     (Some (enc_Snapshot (zero_snapshot\<lparr>sn_ContextSize := 8192, sn_TotalTokens := 1200\<rparr>))) t) =
       t\<lparr>tm_snapshot := Some (zero_snapshot\<lparr>sn_ContextSize := 8192, sn_TotalTokens := 1200\<rparr>)\<rparr>"
  by (intro allI snapshot_shown) (simp add: snapshot_fits_def int64_def zero_snapshot_def)

end
