(* ===== verification/Diff.thy ===== *)
theory Diff
  imports GoStrings
begin

text \<open>
  The comparison half of internal/tool/diff/diff.go: \<open>SplitLines\<close>, the longest common
  subsequence of two files' lines by dynamic programming (\<open>computeLCS\<close>), and the list of
  changed ranges read off it (\<open>findChanges\<close>). Line and table indices are never negative, so
  they are \<open>nat\<close>. The lemmas show that the matches are increasing and pair equal lines, that
  no common subsequence is longer, and that replacing the changed ranges turns the old file
  into the new one.
\<close>

section \<open>The code\<close>

definition SplitLines :: "string \<Rightarrow> string list" where
  "SplitLines s =
     (if s = [] then []
      else let lines = split_byte nl s
           in if last lines = [] then butlast lines else lines)"

record lcsMatch =
  oldIndex :: nat
  newIndex :: nat

record change =
  oldStart :: nat
  oldEnd :: nat
  newStart :: nat
  newEnd :: nat

text \<open>Row \<open>i\<close> of the table from row \<open>i - 1\<close>: the inner loop over \<open>j\<close>, with \<open>dp[i][j-1]\<close> as \<open>left\<close>.\<close>

fun dp_cells :: "string \<Rightarrow> string list \<Rightarrow> nat list \<Rightarrow> nat \<Rightarrow> nat list" where
  "dp_cells x [] prev left = []"
| "dp_cells x (y # ys) prev left =
     (let v = (if x = y then prev ! 0 + 1 else max (prev ! 1) left)
      in v # dp_cells x ys (tl prev) v)"

fun dp_rows :: "string list \<Rightarrow> string list \<Rightarrow> nat list \<Rightarrow> nat list list" where
  "dp_rows [] ys prev = []"
| "dp_rows (x # xs) ys prev =
     (let row = 0 # dp_cells x ys prev 0 in row # dp_rows xs ys row)"

definition dp_table :: "string list \<Rightarrow> string list \<Rightarrow> nat list list" where
  "dp_table oldLines newLines =
     (let row0 = replicate (length newLines + 1) 0 in row0 # dp_rows oldLines newLines row0)"

text \<open>The walk back through the table; matches come out last first.\<close>

fun lcs_back :: "nat list list \<Rightarrow> string list \<Rightarrow> string list \<Rightarrow> nat \<Rightarrow> nat \<Rightarrow> lcsMatch list" where
  "lcs_back dp oldLines newLines 0 j = []"
| "lcs_back dp oldLines newLines (Suc i) 0 = []"
| "lcs_back dp oldLines newLines (Suc i) (Suc j) =
     (if oldLines ! i = newLines ! j
      then \<lparr>oldIndex = i, newIndex = j\<rparr> # lcs_back dp oldLines newLines i j
      else if dp ! i ! Suc j > dp ! Suc i ! j then lcs_back dp oldLines newLines i (Suc j)
      else lcs_back dp oldLines newLines (Suc i) j)"

definition computeLCS :: "string list \<Rightarrow> string list \<Rightarrow> lcsMatch list" where
  "computeLCS oldLines newLines =
     (let m = length oldLines; n = length newLines
      in if m = 0 \<or> n = 0 then []
         else rev (lcs_back (dp_table oldLines newLines) oldLines newLines m n))"

fun changes_from :: "nat \<Rightarrow> nat \<Rightarrow> nat \<Rightarrow> nat \<Rightarrow> lcsMatch list \<Rightarrow> change list" where
  "changes_from m n oi ni [] =
     (if oi < m \<or> ni < n
      then [\<lparr>oldStart = oi, oldEnd = m, newStart = ni, newEnd = n\<rparr>] else [])"
| "changes_from m n oi ni (p # lcs) =
     (if oi < oldIndex p \<or> ni < newIndex p
      then [\<lparr>oldStart = oi, oldEnd = oldIndex p, newStart = ni, newEnd = newIndex p\<rparr>] else [])
     @ changes_from m n (oldIndex p + 1) (newIndex p + 1) lcs"

definition findChanges :: "string list \<Rightarrow> string list \<Rightarrow> change list" where
  "findChanges oldLines newLines =
     changes_from (length oldLines) (length newLines) 0 0 (computeLCS oldLines newLines)"

section \<open>SplitLines\<close>

lemma SplitLines_join:
  assumes "ls \<noteq> []" and "\<forall>l \<in> set ls. nl \<notin> set l" and "last ls \<noteq> []"
  shows "SplitLines (join [nl] ls) = ls"
proof -
  have split: "split_byte nl (join [nl] ls) = ls" using assms(1,2) by (rule split_byte_join)
  then have "join [nl] ls \<noteq> []" using assms(3) by (metis last.simps split_byte.simps(1))
  then show ?thesis using split assms(3) by (simp add: SplitLines_def)
qed

lemma SplitLines_join_nl:
  assumes "ls \<noteq> []" and "\<forall>l \<in> set ls. nl \<notin> set l"
  shows "SplitLines (join [nl] ls @ [nl]) = ls"
proof -
  have "split_byte nl (join [nl] ls @ nl # []) = ls @ [[]]"
    using assms by (simp only: split_byte_append_sep) (simp add: split_byte_join)
  then show ?thesis by (simp add: SplitLines_def)
qed

lemma SplitLines_no_nl: "l \<in> set (SplitLines s) \<Longrightarrow> nl \<notin> set l"
  by (auto simp: SplitLines_def Let_def split: if_splits dest!: in_set_butlastD split_byte_pieces)

text \<open>The text of a file is given back by its lines and its final newline, if it has one.\<close>

lemma join_SplitLines:
  "join [nl] (SplitLines s) @ (if s \<noteq> [] \<and> last s = nl \<and> SplitLines s \<noteq> [] then [nl] else [])
     = (if SplitLines s = [] then [] else s)"
proof (cases "s = []")
  case False
  let ?ls = "split_byte nl s"
  have s: "join [nl] ?ls = s" by simp
  show ?thesis
  proof (cases "last ?ls = []")
    case True
    have split: "?ls = butlast ?ls @ [[]]"
      using append_butlast_last_id [of ?ls] True by simp
    show ?thesis
    proof (cases "butlast ?ls = []")
      case nb: True
      with split s False show ?thesis by (simp add: SplitLines_def)
    next
      case nb: False
      have "s = join [nl] (butlast ?ls) @ [nl]"
        using join_append [of "butlast ?ls" "[[]]" "[nl]"] nb split s by simp
      then have "s = join [nl] (butlast ?ls) @ [nl]" "last s = nl" by (metis last_snoc)+
      then show ?thesis using False True nb by (simp add: SplitLines_def)
    qed
  next
    case last: False
    have "last s \<noteq> nl"
    proof
      assume "last s = nl"
      then obtain t where "s = t @ nl # []" using False by (metis append_butlast_last_id)
      then have "last ?ls = []" by (simp only: split_byte_append_sep) simp
      then show False using last by simp
    qed
    then show ?thesis using False last by (simp add: SplitLines_def)
  qed
qed (simp add: SplitLines_def)

section \<open>The table holds the lengths of the longest common subsequences of the prefixes\<close>

fun lcs_len :: "string list \<Rightarrow> string list \<Rightarrow> nat \<Rightarrow> nat \<Rightarrow> nat" where
  "lcs_len xs ys 0 j = 0"
| "lcs_len xs ys (Suc i) 0 = 0"
| "lcs_len xs ys (Suc i) (Suc j) =
     (if xs ! i = ys ! j then Suc (lcs_len xs ys i j)
      else max (lcs_len xs ys i (Suc j)) (lcs_len xs ys (Suc i) j))"

lemma length_dp_cells [simp]: "length (dp_cells x ys prev left) = length ys"
  by (induction x ys prev left rule: dp_cells.induct) (auto simp: Let_def)

lemma dp_cells_nth:
  "j < length ys \<Longrightarrow> length prev = Suc (length ys) \<Longrightarrow>
     dp_cells x ys prev left ! j =
       (if x = ys ! j then Suc (prev ! j)
        else max (prev ! Suc j) ((left # dp_cells x ys prev left) ! j))"
proof (induction ys arbitrary: prev left j)
  case (Cons y ys)
  then obtain p q ps where prev: "prev = p # q # ps" by (cases prev; cases "tl prev") auto
  define v where "v = (if x = y then Suc p else max q left)"
  have cells: "dp_cells x (y # ys) prev left = v # dp_cells x ys (q # ps) v"
    by (simp add: prev v_def Let_def)
  show ?case
  proof (cases j)
    case 0
    then show ?thesis unfolding cells by (simp add: v_def prev)
  next
    case (Suc k)
    then show ?thesis using Cons.IH [of k "q # ps" v] Cons.prems unfolding cells by (simp add: prev)
  qed
qed simp

lemma dp_rows_nth:
  "i < length xs \<Longrightarrow> length prev = Suc (length ys) \<Longrightarrow>
     dp_rows xs ys prev ! i = 0 # dp_cells (xs ! i) ys ((prev # dp_rows xs ys prev) ! i) 0"
proof (induction xs ys prev arbitrary: i rule: dp_rows.induct)
  case (2 x xs ys prev)
  then show ?case by (cases i) (auto simp: Let_def)
qed simp

lemma length_dp_row:
  "i \<le> length xs \<Longrightarrow> length prev = Suc (length ys) \<Longrightarrow>
     length ((prev # dp_rows xs ys prev) ! i) = Suc (length ys)"
  by (cases i) (auto simp: dp_rows_nth)

lemma dp_table_lcs_len:
  "i \<le> length xs \<Longrightarrow> j \<le> length ys \<Longrightarrow> dp_table xs ys ! i ! j = lcs_len xs ys i j"
proof (induction xs ys i j rule: lcs_len.induct)
  case (1 xs ys j)
  then show ?case by (cases j) (simp_all add: dp_table_def Let_def)
next
  case (2 xs ys i)
  then show ?case by (simp add: dp_table_def Let_def dp_rows_nth)
next
  case (3 xs ys i j)
  let ?r = "replicate (Suc (length ys)) (0::nat)"
  let ?prev = "(?r # dp_rows xs ys ?r) ! i"
  have row: "dp_rows xs ys ?r ! i = 0 # dp_cells (xs ! i) ys ?prev 0"
    using "3.prems" by (intro dp_rows_nth) auto
  have len: "length ?prev = Suc (length ys)" using "3.prems" by (intro length_dp_row) auto
  have prev: "k \<le> length ys \<Longrightarrow> ?prev ! k = dp_table xs ys ! i ! k" for k
    by (simp add: dp_table_def Let_def)
  have cur: "(0 # dp_cells (xs ! i) ys ?prev 0) ! j = dp_table xs ys ! Suc i ! j"
    using row by (simp add: dp_table_def Let_def)
  have "dp_table xs ys ! Suc i ! Suc j = dp_cells (xs ! i) ys ?prev 0 ! j"
    using row by (simp add: dp_table_def Let_def)
  also have "\<dots> = (if xs ! i = ys ! j then Suc (?prev ! j)
      else max (?prev ! Suc j) (dp_table xs ys ! Suc i ! j))"
    using dp_cells_nth [of j ys ?prev "xs ! i" 0] "3.prems" len cur by simp
  finally show ?case using "3.IH" "3.prems" prev by simp
qed

lemma length_lcs_back:
  "i \<le> length xs \<Longrightarrow> j \<le> length ys \<Longrightarrow>
     length (lcs_back (dp_table xs ys) xs ys i j) = lcs_len xs ys i j"
proof (induction xs ys i j rule: lcs_len.induct)
  case (3 xs ys i j)
  then show ?case by (auto simp: dp_table_lcs_len)
qed auto

lemma length_computeLCS: "length (computeLCS xs ys) = lcs_len xs ys (length xs) (length ys)"
  using length_lcs_back [of "length xs" xs "length ys" ys]
  by (cases xs; cases ys) (auto simp: computeLCS_def Let_def)

lemma subseq_snoc_cases:
  "subseq zs (xs @ [x]) \<Longrightarrow> subseq zs xs \<or> (\<exists>us. zs = us @ [x] \<and> subseq us xs)"
proof (induction xs arbitrary: zs)
  case Nil
  then show ?case by (cases zs) (auto dest: list_emb_length split: if_splits)
next
  case (Cons y ys)
  show ?case
  proof (cases zs)
    case (Cons w ws)
    with Cons.prems have "(w = y \<and> subseq ws (ys @ [x])) \<or> subseq zs (ys @ [x])"
      by (auto split: if_splits)
    then show ?thesis
    proof
      assume w: "w = y \<and> subseq ws (ys @ [x])"
      with Cons.IH [of ws] consider "subseq ws ys" | us where "ws = us @ [x]" "subseq us ys" by blast
      then show ?thesis
      proof cases
        case 1
        then show ?thesis using w Cons by simp
      next
        case 2
        then have "zs = (y # us) @ [x] \<and> subseq (y # us) (y # ys)" using w Cons by simp
        then show ?thesis by blast
      qed
    next
      assume "subseq zs (ys @ [x])"
      with Cons.IH [of zs] show ?thesis by (blast intro: list_emb_Cons)
    qed
  qed simp
qed

lemma lcs_len_optimal:
  "i \<le> length xs \<Longrightarrow> j \<le> length ys \<Longrightarrow> subseq zs (take i xs) \<Longrightarrow> subseq zs (take j ys)
     \<Longrightarrow> length zs \<le> lcs_len xs ys i j"
proof (induction xs ys i j arbitrary: zs rule: lcs_len.induct)
  case (3 xs ys i j)
  have ti: "take (Suc i) xs = take i xs @ [xs ! i]" and tj: "take (Suc j) ys = take j ys @ [ys ! j]"
    using "3.prems" by (simp_all add: take_Suc_conv_app_nth)
  have cx: "subseq zs (take i xs) \<or> (\<exists>us. zs = us @ [xs ! i] \<and> subseq us (take i xs))"
    using "3.prems"(3) unfolding ti by (rule subseq_snoc_cases)
  have cy: "subseq zs (take j ys) \<or> (\<exists>us. zs = us @ [ys ! j] \<and> subseq us (take j ys))"
    using "3.prems"(4) unfolding tj by (rule subseq_snoc_cases)
  show ?case
  proof (cases "xs ! i = ys ! j")
    case True
    let ?us = "butlast zs"
    have bl: "subseq ?us zs" by (intro prefix_imp_subseq prefixeq_butlast)
    have "subseq ?us (take i xs)" using cx subseq_order.order_trans [OF bl] by (metis butlast_snoc)
    moreover have "subseq ?us (take j ys)" using cy subseq_order.order_trans [OF bl] by (metis butlast_snoc)
    ultimately have "length ?us \<le> lcs_len xs ys i j" using "3.IH"(1) [OF True, of ?us] "3.prems"(1,2) by linarith
    then show ?thesis using True by simp
  next
    case False
    from cx cy False consider "subseq zs (take i xs)" | "subseq zs (take j ys)"
      by auto
    then show ?thesis
    proof cases
      case 1
      then have "length zs \<le> lcs_len xs ys i (Suc j)"
        using "3.IH"(2) [OF False] "3.prems" by simp
      then show ?thesis using False by simp
    next
      case 2
      then have "length zs \<le> lcs_len xs ys (Suc i) j"
        using "3.IH"(3) [OF False] "3.prems" by simp
      then show ?thesis using False by simp
    qed
  qed
qed auto

section \<open>The matches are increasing and pair equal lines\<close>

fun matching :: "string list \<Rightarrow> string list \<Rightarrow> nat \<Rightarrow> nat \<Rightarrow> lcsMatch list \<Rightarrow> bool" where
  "matching xs ys oi ni [] \<longleftrightarrow> oi \<le> length xs \<and> ni \<le> length ys"
| "matching xs ys oi ni (p # ps) \<longleftrightarrow>
     oi \<le> oldIndex p \<and> ni \<le> newIndex p \<and> oldIndex p < length xs \<and> newIndex p < length ys \<and>
     xs ! oldIndex p = ys ! newIndex p \<and> matching xs ys (Suc (oldIndex p)) (Suc (newIndex p)) ps"

text \<open>The indices of every match of the walk from \<open>(i, j)\<close> lie below \<open>(i, j)\<close>, so that it extends on the right.\<close>

lemma matching_lcs_back:
  "i \<le> length xs \<Longrightarrow> j \<le> length ys \<Longrightarrow> matching xs ys i j qs \<Longrightarrow>
     matching xs ys 0 0 (rev (lcs_back dp xs ys i j) @ qs)"
proof (induction dp xs ys i j arbitrary: qs rule: lcs_back.induct)
  case (1 dp xs ys j)
  then show ?case by (cases qs) auto
next
  case (2 dp xs ys i)
  then show ?case by (cases qs) auto
next
  case (3 dp xs ys i j)
  show ?case
  proof (cases "xs ! i = ys ! j")
    case True
    have "matching xs ys i j (\<lparr>oldIndex = i, newIndex = j\<rparr> # qs)" using "3.prems" True by simp
    then show ?thesis using "3.IH"(1) [OF True] "3.prems" True by simp
  next
    case False
    have "matching xs ys i (Suc j) qs" and "matching xs ys (Suc i) j qs"
      using "3.prems"(3) by (cases qs; simp)+
    then show ?thesis using "3.IH"(2,3) [OF False] "3.prems"(1,2) False by simp
  qed
qed

lemma matching_computeLCS: "matching xs ys 0 0 (computeLCS xs ys)"
  using matching_lcs_back [of "length xs" xs "length ys" ys "[]"]
  by (simp add: computeLCS_def Let_def)

lemma matching_subseq:
  "matching xs ys oi ni ps \<Longrightarrow>
     subseq (map (\<lambda>p. xs ! oldIndex p) ps) (drop oi xs) \<and>
     subseq (map (\<lambda>p. xs ! oldIndex p) ps) (drop ni ys)"
proof (induction ps arbitrary: oi ni)
  case (Cons p ps)
  have shift: "subseq (z # zs) (drop k ws)"
    if "k \<le> m" "m < length ws" "z = ws ! m" "subseq zs (drop (Suc m) ws)" for k m z zs and ws :: "string list"
  proof -
    have "drop k ws = span_of ws k m @ drop m ws" using that(1) by (simp add: span_of_def) (metis append_take_drop_id drop_drop le_add_diff_inverse2)
    also have "drop m ws = z # drop (Suc m) ws" using that(2,3) by (simp add: Cons_nth_drop_Suc)
    finally show ?thesis using that(4) by (simp add: list_emb_append2)
  qed
  from Cons show ?case by (auto intro!: shift)
qed simp

section \<open>The changed ranges are a patch\<close>

text \<open>
  A list of changes from line \<open>oi\<close> of the old and \<open>ni\<close> of the new file is well formed when the
  ranges are in order, apart by at least one line, not empty, and the lines between them agree.
\<close>

fun wf_changes :: "string list \<Rightarrow> string list \<Rightarrow> nat \<Rightarrow> nat \<Rightarrow> change list \<Rightarrow> bool" where
  "wf_changes xs ys oi ni [] \<longleftrightarrow> oi \<le> length xs \<and> ni \<le> length ys \<and> drop oi xs = drop ni ys"
| "wf_changes xs ys oi ni (c # cs) \<longleftrightarrow>
     oi \<le> oldStart c \<and> ni \<le> newStart c \<and>
     span_of xs oi (oldStart c) = span_of ys ni (newStart c) \<and>
     oldStart c \<le> oldEnd c \<and> oldEnd c \<le> length xs \<and>
     newStart c \<le> newEnd c \<and> newEnd c \<le> length ys \<and>
     (oldStart c < oldEnd c \<or> newStart c < newEnd c) \<and>
     (cs \<noteq> [] \<longrightarrow> oldEnd c < oldStart (hd cs)) \<and>
     wf_changes xs ys (oldEnd c) (newEnd c) cs"

text \<open>Applying the changes: unchanged lines are copied, each range is replaced.\<close>

fun apply_changes :: "string list \<Rightarrow> string list \<Rightarrow> nat \<Rightarrow> change list \<Rightarrow> string list" where
  "apply_changes xs ys pos [] = drop pos xs"
| "apply_changes xs ys pos (c # cs) =
     span_of xs pos (oldStart c) @ span_of ys (newStart c) (newEnd c) @ apply_changes xs ys (oldEnd c) cs"

lemma wf_changes_extend:
  "wf_changes xs ys (Suc oi) (Suc ni) cs \<Longrightarrow> oi < length xs \<Longrightarrow> ni < length ys \<Longrightarrow> xs ! oi = ys ! ni
     \<Longrightarrow> wf_changes xs ys oi ni cs"
  by (cases cs) (auto simp: Cons_nth_drop_Suc [symmetric] span_Cons)

lemma wf_changes_start: "wf_changes xs ys oi ni cs \<Longrightarrow> cs \<noteq> [] \<Longrightarrow> oi \<le> oldStart (hd cs)"
  by (cases cs) auto

lemma wf_changes_from:
  "matching xs ys oi ni ps \<Longrightarrow> wf_changes xs ys oi ni (changes_from (length xs) (length ys) oi ni ps)"
proof (induction ps arbitrary: oi ni)
  case Nil
  then show ?case by auto
next
  case (Cons p ps)
  let ?om = "oldIndex p" and ?nm = "newIndex p"
  let ?rest = "changes_from (length xs) (length ys) (Suc ?om) (Suc ?nm) ps"
  have rest: "wf_changes xs ys (Suc ?om) (Suc ?nm) ?rest" using Cons by simp
  then have here: "wf_changes xs ys ?om ?nm ?rest"
    using Cons.prems by (auto intro: wf_changes_extend)
  have gap: "?rest \<noteq> [] \<longrightarrow> ?om < oldStart (hd ?rest)"
    using wf_changes_start [OF rest] by auto
  show ?case
  proof (cases "oi < ?om \<or> ni < ?nm")
    case True
    then show ?thesis using here gap Cons.prems by simp
  next
    case False
    then have "oi = ?om" "ni = ?nm" using Cons.prems by auto
    then show ?thesis using here by simp
  qed
qed

lemma wf_findChanges: "wf_changes xs ys 0 0 (findChanges xs ys)"
  unfolding findChanges_def by (rule wf_changes_from [OF matching_computeLCS])

lemma span_drop_append: "i \<le> j \<Longrightarrow> j \<le> length xs \<Longrightarrow> span_of xs i j @ drop j xs = drop i xs"
  using span_append [of i j "length xs" xs] by (simp add: span_to_end)

lemma wf_changes_newEnd: "wf_changes xs ys oi ni cs \<Longrightarrow> ni \<le> length ys \<and> oi \<le> length xs"
  by (cases cs) auto

lemma apply_wf_changes: "wf_changes xs ys oi ni cs \<Longrightarrow> apply_changes xs ys oi cs = drop ni ys"
proof (induction cs arbitrary: oi ni)
  case (Cons c cs)
  then have "apply_changes xs ys oi (c # cs) =
      span_of ys ni (newStart c) @ span_of ys (newStart c) (newEnd c) @ drop (newEnd c) ys"
    by simp
  also have "\<dots> = drop ni ys" using Cons.prems by (simp add: span_drop_append)
  finally show ?case .
qed simp

end
