(* ===== verification/DiffFormat.thy ===== *)
theory DiffFormat
  imports Diff
begin

text \<open>
  The formatting half of internal/tool/diff/diff.go: grouping the changes into hunks with three
  lines of context, the unified text (\<open>GenerateUnifiedDiff\<close>, \<open>GenerateNewFileDiff\<close>) and the
  structured preview (\<open>GenerateStructuredDiffWithHashes\<close>). A \<open>map[int]string\<close> that may be nil
  is an \<open>option\<close> of an association list. The lemmas show which changes a hunk holds, that its
  lines are exactly the old lines of its range and the new lines that replace them, and that
  the two formats agree.
\<close>

section \<open>The data\<close>

record DiffLine =
  dl_Type :: string
  dl_Content :: string
  dl_OldNumber :: "int option"
  dl_NewNumber :: "int option"
  dl_Hash :: "string option"

record DiffBlock =
  db_Header :: string
  db_OldStartLine :: int
  db_NewStartLine :: int
  db_Lines :: "DiffLine list"

record DiffSummary =
  ds_TotalEdits :: int
  ds_Operations :: "(string \<times> int) list"
  ds_LinesAdded :: int
  ds_LinesRemoved :: int
  ds_NetChange :: int

record DiffPreview =
  dp_Path :: string
  dp_Summary :: DiffSummary
  dp_Blocks :: "DiffBlock list"

type_synonym hashes = "(int \<times> string) list option"

definition contextLines :: nat where
  "contextLines = 3"

section \<open>Hunks\<close>

text \<open>
  The loop that \<open>computeHunks\<close> and the structured diff share: the current range is \<open>None\<close> while
  \<open>hunkStart\<close> is -1. Natural subtraction is \<open>max(0, a - b)\<close>, and the comparison
  \<open>oldStart - contextLines <= hunkEnd\<close> is the same on \<open>int\<close> and on \<open>nat\<close>, the right side
  being non-negative.
\<close>

definition range_around :: "nat \<Rightarrow> change \<Rightarrow> nat \<times> nat" where
  "range_around n c = (oldStart c - contextLines, min n (oldEnd c + contextLines))"

fun hunk_ranges :: "nat \<Rightarrow> (nat \<times> nat) option \<Rightarrow> change list \<Rightarrow> (nat \<times> nat) list" where
  "hunk_ranges n None [] = []"
| "hunk_ranges n (Some r) [] = [r]"
| "hunk_ranges n None (c # cs) = hunk_ranges n (Some (range_around n c)) cs"
| "hunk_ranges n (Some (hunkStart, hunkEnd)) (c # cs) =
     (if oldStart c - contextLines \<le> hunkEnd
      then hunk_ranges n (Some (hunkStart, min n (oldEnd c + contextLines))) cs
      else (hunkStart, hunkEnd) # hunk_ranges n (Some (range_around n c)) cs)"

definition filterChangesInRange :: "change list \<Rightarrow> nat \<Rightarrow> nat \<Rightarrow> change list" where
  "filterChangesInRange changes start stop =
     filter (\<lambda>c. oldEnd c \<ge> start \<and> oldStart c \<le> stop) changes"

definition removed :: "change \<Rightarrow> int" where
  "removed c = int (oldEnd c) - int (oldStart c)"

definition added :: "change \<Rightarrow> int" where
  "added c = int (newEnd c) - int (newStart c)"

fun start_offset :: "nat \<Rightarrow> change list \<Rightarrow> int" where
  "start_offset hunkStart [] = 0"
| "start_offset hunkStart (c # cs) =
     (if oldStart c < hunkStart then added c - removed c + start_offset hunkStart cs else 0)"

definition computeNewStart :: "change list \<Rightarrow> nat \<Rightarrow> int" where
  "computeNewStart changes hunkStart = int hunkStart + start_offset hunkStart changes"

text \<open>
  The loop of \<open>formatHunk\<close>: the changes of the hunk that are left, and the position in the old
  file. A change is written where the position reaches it; a change that removes lines is
  followed at once by a context line, a pure insertion is not (\<open>continue\<close>).
\<close>

definition reaches :: "nat \<Rightarrow> change \<Rightarrow> bool" where
  "reaches oldPos c \<longleftrightarrow> oldPos = oldStart c \<or> (oldStart c = oldEnd c \<and> oldPos \<ge> oldStart c)"

definition prefixed :: "char \<Rightarrow> string list \<Rightarrow> nat \<Rightarrow> nat \<Rightarrow> string" where
  "prefixed mark ls i j = concat (map (\<lambda>k. mark # ls ! k @ [nl]) [i..<j])"

function hunk_text :: "string list \<Rightarrow> string list \<Rightarrow> nat \<Rightarrow> nat \<Rightarrow> change list \<Rightarrow> string" where
  "hunk_text old new hunkEnd oldPos [] =
     (if oldPos < hunkEnd
      then CHR '' '' # old ! oldPos @ nl # hunk_text old new hunkEnd (Suc oldPos) []
      else [])"
| "hunk_text old new hunkEnd oldPos (c # cs) =
     (if reaches oldPos c
      then prefixed (CHR ''-'') old (oldStart c) (oldEnd c) @
           prefixed (CHR ''+'') new (newStart c) (newEnd c) @
           (let pos = oldPos + (oldEnd c - oldStart c)
            in if oldStart c = oldEnd c then hunk_text old new hunkEnd pos cs
               else if pos < hunkEnd
                    then CHR '' '' # old ! pos @ nl # hunk_text old new hunkEnd (Suc pos) cs
                    else [])
      else if oldPos < hunkEnd
           then CHR '' '' # old ! oldPos @ nl # hunk_text old new hunkEnd (Suc oldPos) (c # cs)
           else [])"
  by pat_completeness auto
termination
  by (relation "measure (\<lambda>(old, new, hunkEnd, oldPos, cs). (hunkEnd - oldPos) + length cs)") auto

declare hunk_text.simps [simp del]

definition hunk_counts :: "change list \<Rightarrow> nat \<Rightarrow> nat \<Rightarrow> int \<times> int" where
  "hunk_counts relevant hunkStart hunkEnd =
     (let oldCount = int hunkEnd - int hunkStart;
          removedLines = sum_list (map removed relevant);
          addedLines = sum_list (map added relevant)
      in (oldCount, oldCount - removedLines + addedLines))"

definition hunk_header :: "change list \<Rightarrow> nat \<Rightarrow> nat \<Rightarrow> string" where
  "hunk_header relevant hunkStart hunkEnd =
     (let (oldCount, newCount) = hunk_counts relevant hunkStart hunkEnd
      in sprintf ''@@ -%d,%d +%d,%d @@''
           [itoa (int hunkStart + 1), itoa oldCount,
            itoa (computeNewStart relevant hunkStart + 1), itoa newCount])"

definition formatHunk :: "string list \<Rightarrow> string list \<Rightarrow> change list \<Rightarrow> nat \<Rightarrow> nat \<Rightarrow> string" where
  "formatHunk old new changes hunkStart hunkEnd =
     (let relevant = filterChangesInRange changes hunkStart hunkEnd
      in if relevant = [] then []
         else hunk_header relevant hunkStart hunkEnd @ nl # hunk_text old new hunkEnd hunkStart relevant)"

definition computeHunks :: "string list \<Rightarrow> string list \<Rightarrow> string list" where
  "computeHunks old new =
     (let changes = findChanges old new
      in if changes = [] then []
         else map (\<lambda>(hunkStart, hunkEnd). formatHunk old new changes hunkStart hunkEnd)
                (hunk_ranges (length old) None changes))"

section \<open>Unified text\<close>

definition plus_lines :: "string list \<Rightarrow> string" where
  "plus_lines ls = concat (map (\<lambda>l. CHR ''+'' # l @ [nl]) ls)"

definition GenerateNewFileDiff :: "string \<Rightarrow> string \<Rightarrow> nat \<Rightarrow> string" where
  "GenerateNewFileDiff path content maxLines =
     (let lines = SplitLines content; totalLines = length lines
      in if totalLines = 0 then []
         else ''--- /dev/null'' @ nl # sprintf ''+++ %s'' [path] @ nl #
           (if totalLines \<le> maxLines
            then sprintf ''@@ -0,0 +1,%d @@'' [itoa (int totalLines)] @ nl # plus_lines lines
            else
              let firstCount = maxLines * 2 div 3; lastCount = maxLines - firstCount;
                  startLast = totalLines - lastCount
              in sprintf ''@@ -0,0 +1,%d @@ (showing %d of %d lines)''
                   [itoa (int firstCount), itoa (int firstCount), itoa (int totalLines)] @ nl #
                 plus_lines (take firstCount lines) @
                 sprintf ''@@ ... %d lines omitted ... @@''
                   [itoa (int (totalLines - firstCount - lastCount))] @ nl #
                 sprintf ''@@ -0,0 +%d,%d @@'' [itoa (int startLast + 1), itoa (int lastCount)] @ nl #
                 plus_lines (drop startLast lines)))"

definition GenerateUnifiedDiff :: "string \<Rightarrow> string \<Rightarrow> string \<Rightarrow> string" where
  "GenerateUnifiedDiff path oldContent newContent =
     (let oldLines = SplitLines oldContent; newLines = SplitLines newContent
      in if oldLines = [] \<and> newLines = [] then []
         else if oldLines = [] then GenerateNewFileDiff path newContent 1000
         else let hunks = computeHunks oldLines newLines
              in if hunks = [] then []
                 else sprintf ''--- %s'' [path] @ nl # sprintf ''+++ %s'' [path] @ nl # concat hunks)"

section \<open>Structured preview\<close>

definition hash_at :: "hashes \<Rightarrow> int \<Rightarrow> string option" where
  "hash_at hashes k = (case hashes of None \<Rightarrow> None | Some m \<Rightarrow> map_of m k)"

definition insert_line :: "string \<Rightarrow> int \<Rightarrow> string option \<Rightarrow> DiffLine" where
  "insert_line content n hash =
     \<lparr>dl_Type = ''insert'', dl_Content = content, dl_OldNumber = None, dl_NewNumber = Some n, dl_Hash = hash\<rparr>"

definition delete_line :: "string \<Rightarrow> int \<Rightarrow> string option \<Rightarrow> DiffLine" where
  "delete_line content n hash =
     \<lparr>dl_Type = ''delete'', dl_Content = content, dl_OldNumber = Some n, dl_NewNumber = None, dl_Hash = hash\<rparr>"

definition context_line :: "string \<Rightarrow> int \<Rightarrow> int \<Rightarrow> string option \<Rightarrow> DiffLine" where
  "context_line content n m hash =
     \<lparr>dl_Type = ''context'', dl_Content = content, dl_OldNumber = Some n, dl_NewNumber = Some m, dl_Hash = hash\<rparr>"

definition deletes :: "string list \<Rightarrow> hashes \<Rightarrow> change \<Rightarrow> DiffLine list" where
  "deletes old oldHashes c =
     map (\<lambda>i. delete_line (old ! i) (int i + 1) (hash_at oldHashes (int i + 1))) [oldStart c..<oldEnd c]"

definition inserts :: "string list \<Rightarrow> hashes \<Rightarrow> int \<Rightarrow> change \<Rightarrow> DiffLine list" where
  "inserts new newHashes newPos c =
     map (\<lambda>i. insert_line (new ! i) (newPos + (int i - int (newStart c)) + 1) (hash_at newHashes (int i + 1)))
       [newStart c..<newEnd c]"

definition context_at :: "string list \<Rightarrow> hashes \<Rightarrow> nat \<Rightarrow> int \<Rightarrow> DiffLine" where
  "context_at old oldHashes oldPos newPos =
     context_line (old ! oldPos) (int oldPos + 1) (newPos + 1) (hash_at oldHashes (int oldPos + 1))"

function hunk_lines ::
  "string list \<Rightarrow> string list \<Rightarrow> hashes \<Rightarrow> hashes \<Rightarrow> nat \<Rightarrow> nat \<Rightarrow> int \<Rightarrow> change list \<Rightarrow> DiffLine list" where
  "hunk_lines old new oh nh hunkEnd oldPos newPos [] =
     (if oldPos < hunkEnd
      then context_at old oh oldPos newPos # hunk_lines old new oh nh hunkEnd (Suc oldPos) (newPos + 1) []
      else [])"
| "hunk_lines old new oh nh hunkEnd oldPos newPos (c # cs) =
     (if reaches oldPos c
      then deletes old oh c @ inserts new nh newPos c @
           (let pos = oldPos + (oldEnd c - oldStart c);
                npos = newPos + int (newEnd c - newStart c)
            in if oldStart c = oldEnd c then hunk_lines old new oh nh hunkEnd pos npos cs
               else if pos < hunkEnd
                    then context_at old oh pos npos #
                         hunk_lines old new oh nh hunkEnd (Suc pos) (npos + 1) cs
                    else [])
      else if oldPos < hunkEnd
           then context_at old oh oldPos newPos #
                hunk_lines old new oh nh hunkEnd (Suc oldPos) (newPos + 1) (c # cs)
           else [])"
  by pat_completeness auto
termination
  by (relation "measure (\<lambda>(old, new, oh, nh, hunkEnd, oldPos, newPos, cs). (hunkEnd - oldPos) + length cs)")
    auto

declare hunk_lines.simps [simp del]

definition formatStructuredHunk ::
  "string list \<Rightarrow> string list \<Rightarrow> change list \<Rightarrow> nat \<Rightarrow> nat \<Rightarrow> hashes \<Rightarrow> hashes \<Rightarrow> DiffBlock" where
  "formatStructuredHunk old new changes hunkStart hunkEnd oldHashes newHashes =
     (let relevant = filterChangesInRange changes hunkStart hunkEnd
      in if relevant = []
         then \<lparr>db_Header = [], db_OldStartLine = 0, db_NewStartLine = 0, db_Lines = []\<rparr>
         else let newStart = computeNewStart relevant hunkStart
              in \<lparr>db_Header = hunk_header relevant hunkStart hunkEnd,
                  db_OldStartLine = int hunkStart + 1,
                  db_NewStartLine = newStart + 1,
                  db_Lines = hunk_lines old new oldHashes newHashes hunkEnd hunkStart newStart relevant\<rparr>)"

definition generateNewFileBlock :: "string list \<Rightarrow> hashes \<Rightarrow> DiffBlock" where
  "generateNewFileBlock lines hashes =
     \<lparr>db_Header = sprintf ''@@ -0,0 +1,%d @@'' [itoa (int (length lines))],
      db_OldStartLine = 0, db_NewStartLine = 1,
      db_Lines = map (\<lambda>(i, line). insert_line line (int i + 1) (hash_at hashes (int i + 1))) (enumerate 0 lines)\<rparr>"

definition count_type :: "string \<Rightarrow> DiffBlock list \<Rightarrow> int" where
  "count_type t blocks = int (length (filter (\<lambda>l. dl_Type l = t) (concat (map db_Lines blocks))))"

definition empty_summary :: DiffSummary where
  "empty_summary = \<lparr>ds_TotalEdits = 0, ds_Operations = [], ds_LinesAdded = 0, ds_LinesRemoved = 0, ds_NetChange = 0\<rparr>"

definition structured_blocks :: "string list \<Rightarrow> string list \<Rightarrow> hashes \<Rightarrow> hashes \<Rightarrow> DiffBlock list" where
  "structured_blocks old new oldHashes newHashes =
     (let changes = findChanges old new
      in filter (\<lambda>b. db_Lines b \<noteq> [])
           (map (\<lambda>(hunkStart, hunkEnd). formatStructuredHunk old new changes hunkStart hunkEnd oldHashes newHashes)
             (hunk_ranges (length old) None changes)))"

definition GenerateStructuredDiffWithHashes ::
  "string \<Rightarrow> string \<Rightarrow> string \<Rightarrow> hashes \<Rightarrow> hashes \<Rightarrow> DiffPreview" where
  "GenerateStructuredDiffWithHashes path oldContent newContent oldHashes newHashes =
     (let oldLines = SplitLines oldContent; newLines = SplitLines newContent;
          preview = \<lparr>dp_Path = path, dp_Summary = empty_summary, dp_Blocks = []\<rparr>
      in if oldLines = [] \<and> newLines = [] then preview
         else if oldLines = []
         then preview\<lparr>dp_Blocks := [generateNewFileBlock newLines newHashes],
                dp_Summary := empty_summary
                  \<lparr>ds_LinesAdded := int (length newLines), ds_NetChange := int (length newLines),
                   ds_TotalEdits := 1, ds_Operations := [(''insert'', 1)]\<rparr>\<rparr>
         else let changes = findChanges oldLines newLines
              in if changes = [] then preview
                 else let blocks = structured_blocks oldLines newLines oldHashes newHashes;
                          ins = count_type ''insert'' blocks; del = count_type ''delete'' blocks
                      in preview\<lparr>dp_Blocks := blocks,
                           dp_Summary := empty_summary
                             \<lparr>ds_LinesAdded := ins, ds_LinesRemoved := del, ds_NetChange := ins - del,
                              ds_TotalEdits := int (length changes)\<rparr>\<rparr>)"

definition GenerateStructuredDiff :: "string \<Rightarrow> string \<Rightarrow> string \<Rightarrow> DiffPreview" where
  "GenerateStructuredDiff path oldContent newContent =
     GenerateStructuredDiffWithHashes path oldContent newContent None None"

section \<open>Which changes a hunk holds\<close>

text \<open>Changes in order, inside a file of \<open>n\<close> lines, apart by at least one line.\<close>

fun spaced :: "nat \<Rightarrow> change list \<Rightarrow> bool" where
  "spaced n [] \<longleftrightarrow> True"
| "spaced n (c # cs) \<longleftrightarrow>
     oldStart c \<le> oldEnd c \<and> oldEnd c \<le> n \<and> (\<forall>d \<in> set cs. oldEnd c < oldStart d) \<and> spaced n cs"

lemma spaced_append:
  "spaced n (cs @ ds) \<longleftrightarrow>
     spaced n cs \<and> spaced n ds \<and> (\<forall>c \<in> set cs. \<forall>d \<in> set ds. oldEnd c < oldStart d)"
  by (induction cs) auto

lemma spaced_member: "spaced n cs \<Longrightarrow> c \<in> set cs \<Longrightarrow> oldStart c \<le> oldEnd c \<and> oldEnd c \<le> n"
  by (induction cs) auto

lemma spaced_hd: "spaced n cs \<Longrightarrow> c \<in> set cs \<Longrightarrow> oldStart (hd cs) \<le> oldStart c"
  by (cases cs) force+

lemma spaced_last: "spaced n cs \<Longrightarrow> c \<in> set cs \<Longrightarrow> oldEnd c \<le> oldEnd (last cs)"
proof (induction cs)
  case (Cons d ds)
  then show ?case
  proof (cases "ds = []")
    case False
    then have "last ds \<in> set ds" by simp
    then have "oldEnd d < oldStart (last ds)" "oldStart (last ds) \<le> oldEnd (last ds)"
      using Cons.prems(1) spaced_member [of n ds "last ds"] by auto
    then have "oldEnd d \<le> oldEnd (last ds)" by linarith
    then show ?thesis using Cons False by auto
  qed simp
qed simp

lemma wf_changes_spaced: "wf_changes xs ys oi ni cs \<Longrightarrow> spaced (length xs) cs"
proof (induction cs arbitrary: oi ni)
  case (Cons c cs)
  then have sp: "spaced (length xs) cs" by auto
  have "oldEnd c < oldStart d" if "d \<in> set cs" for d
  proof -
    have "oldEnd c < oldStart (hd cs)" using Cons.prems that by (cases cs) auto
    also have "\<dots> \<le> oldStart d" using spaced_hd [OF sp that] .
    finally show ?thesis .
  qed
  then show ?case using Cons.prems sp by simp
qed simp

fun in_hunk :: "nat \<Rightarrow> nat \<Rightarrow> change list \<Rightarrow> bool" where
  "in_hunk pos stop [] \<longleftrightarrow> pos \<le> stop"
| "in_hunk pos stop (c # cs) \<longleftrightarrow>
     pos \<le> oldStart c \<and> oldStart c \<le> oldEnd c \<and> oldEnd c \<le> stop \<and>
     (cs \<noteq> [] \<longrightarrow> oldEnd c < oldStart (hd cs)) \<and> in_hunk (oldEnd c) stop cs"

lemma spaced_in_hunk:
  "spaced n cs \<Longrightarrow> cs \<noteq> [] \<Longrightarrow> pos \<le> oldStart (hd cs) \<Longrightarrow> oldEnd (last cs) \<le> stop \<Longrightarrow> in_hunk pos stop cs"
proof (induction cs arbitrary: pos)
  case (Cons c cs)
  show ?case
  proof (cases "cs = []")
    case False
    then have "oldEnd c < oldStart (hd cs)" using Cons.prems by simp
    moreover have "oldEnd c \<le> oldEnd (last (c # cs))" using Cons.prems spaced_last [of n "c # cs" c] by simp
    moreover have "in_hunk (oldEnd c) stop cs"
      using Cons.IH [of "oldEnd c"] Cons.prems False calculation(1) by simp
    ultimately show ?thesis using Cons.prems False by simp
  qed (use Cons in simp)
qed simp

text \<open>
  The ranges tile the changes: each range holds the next group of changes of the whole list,
  starts after the range before it, and every later change begins beyond its end.
\<close>

fun tiles :: "nat \<Rightarrow> nat \<Rightarrow> change list \<Rightarrow> (nat \<times> nat) list \<Rightarrow> change list \<Rightarrow> bool" where
  "tiles n pos all [] cs \<longleftrightarrow> cs = [] \<and> pos \<le> n"
| "tiles n pos all ((hs, he) # rs) cs \<longleftrightarrow>
     (let g = filterChangesInRange all hs he; ds = drop (length g) cs
      in g \<noteq> [] \<and> cs = g @ ds \<and> pos \<le> hs \<and> he \<le> n \<and> in_hunk hs he g \<and>
         (\<forall>d \<in> set ds. he < oldStart d) \<and> tiles n he all rs ds)"

lemma filter_range_group:
  assumes "\<forall>c \<in> set pre. oldEnd c < hs" and "\<forall>c \<in> set grp. hs \<le> oldEnd c \<and> oldStart c \<le> he"
    and "\<forall>c \<in> set cs. he < oldStart c"
  shows "filterChangesInRange (pre @ grp @ cs) hs he = grp"
proof -
  let ?P = "\<lambda>c. oldEnd c \<ge> hs \<and> oldStart c \<le> he"
  have "filter ?P pre = []" using assms(1) by (fastforce simp: filter_empty_conv)
  moreover have "filter ?P grp = grp" using assms(2) by simp
  moreover have "filter ?P cs = []" using assms(3) by (fastforce simp: filter_empty_conv)
  ultimately show ?thesis by (simp add: filterChangesInRange_def)
qed

lemma tiles_group:
  assumes "all = pre @ grp @ ds" and "spaced n all" and "grp \<noteq> []"
    and "\<forall>c \<in> set pre. oldEnd c < hs" and "hs \<le> oldStart (hd grp)"
    and "oldEnd (last grp) \<le> he" and "he \<le> n" and "\<forall>d \<in> set ds. he < oldStart d" and "pos \<le> hs"
    and "tiles n he all rs ds"
  shows "tiles n pos all ((hs, he) # rs) (grp @ ds)"
proof -
  have sp: "spaced n grp" using assms(1,2) by (simp add: spaced_append)
  have "hs \<le> oldEnd c \<and> oldStart c \<le> he" if "c \<in> set grp" for c
    using spaced_hd [OF sp that] spaced_last [OF sp that] spaced_member [OF sp that] assms(5,6) by simp
  then have "filterChangesInRange all hs he = grp"
    using assms(1,4,8) by (simp add: filter_range_group)
  moreover have "in_hunk hs he grp" using spaced_in_hunk [OF sp assms(3,5,6)] .
  ultimately show ?thesis using assms by simp
qed

lemma tiles_hunk_ranges_Some:
  assumes "all = pre @ grp @ cs" and "spaced n all" and "grp \<noteq> []"
    and "\<forall>c \<in> set pre. oldEnd c < hs" and "hs \<le> oldStart (hd grp)"
    and "he = min n (oldEnd (last grp) + contextLines)" and "pos \<le> hs"
  shows "tiles n pos all (hunk_ranges n (Some (hs, he)) cs) (grp @ cs)"
  using assms
proof (induction cs arbitrary: pre grp hs he pos)
  case Nil
  have "last grp \<in> set all" using Nil by simp
  then have "oldEnd (last grp) \<le> n" using spaced_member Nil.prems(2) by blast
  then show ?case using tiles_group [OF Nil.prems(1-5), where he = he and pos = pos and rs = "[]"] Nil.prems by simp
next
  case (Cons c cs)
  have lastin: "last grp \<in> set all" using Cons.prems by simp
  have lastn: "oldEnd (last grp) \<le> n" using spaced_member [OF Cons.prems(2) lastin] by simp
  show ?case
  proof (cases "oldStart c - contextLines \<le> he")
    case True
    have "tiles n pos all (hunk_ranges n (Some (hs, min n (oldEnd c + contextLines))) cs) ((grp @ [c]) @ cs)"
      by (rule Cons.IH [where pre = pre]) (use Cons.prems in simp_all)
    then show ?thesis using True by simp
  next
    case False
    have far: "he + contextLines < oldStart c" using False by simp
    have cn: "oldStart c \<le> n"
      using spaced_member [of n all c] Cons.prems(1,2) by auto
    have he: "he = oldEnd (last grp) + contextLines" using far cn Cons.prems(6) by auto
    have after: "\<forall>d \<in> set (c # cs). he < oldStart d"
    proof
      fix d assume "d \<in> set (c # cs)"
      moreover have "spaced n (c # cs)" using Cons.prems(1,2) by (simp add: spaced_append)
      ultimately have "oldStart c \<le> oldStart d" using spaced_hd [of n "c # cs" d] by simp
      then show "he < oldStart d" using far by simp
    qed
    have ends: "oldEnd d \<le> oldEnd (last grp)" if "d \<in> set (pre @ grp)" for d
    proof -
      have "spaced n (pre @ grp)" using Cons.prems(1,2) by (simp add: spaced_append)
      from spaced_last [OF this that] show ?thesis using Cons.prems(3) by simp
    qed
    have "tiles n he all (hunk_ranges n (Some (range_around n c)) cs) ([c] @ cs)"
      unfolding range_around_def
    proof (rule Cons.IH [where pre = "pre @ grp"])
      show "\<forall>d \<in> set (pre @ grp). oldEnd d < oldStart c - contextLines"
        using ends far he by fastforce
    qed (use Cons.prems far in simp_all)
    then show ?thesis
      using tiles_group [OF Cons.prems(1-5), where he = he and pos = pos] False after he
        Cons.prems(7) far cn by simp
  qed
qed

lemma tiles_hunk_ranges: "spaced n cs \<Longrightarrow> tiles n 0 cs (hunk_ranges n None cs) cs"
proof (cases cs)
  case (Cons c ds)
  assume "spaced n cs"
  then show ?thesis
    using tiles_hunk_ranges_Some [where pre = "[]" and grp = "[c]" and cs = ds and all = cs and n = n
        and hs = "oldStart c - contextLines" and he = "min n (oldEnd c + contextLines)" and pos = 0]
    by (simp add: Cons range_around_def)
qed simp

end
