(* ===== verification/Hashline.thy ===== *)
theory Hashline
  imports GoStrings "HOL-Library.Word"
begin

text \<open>
  Package \<open>hashline\<close> (internal/tool/hashline/hashline.go): the three-character line hash. The
  CRC-32 of the line (\<open>hash/crc32\<close>, IEEE polynomial, reflected) is written as four big-endian
  bytes and the first three characters of their URL-safe base64 text are kept: the 18 most
  significant bits of the checksum, six at a time.
\<close>

unbundle bit_operations_syntax

type_synonym u32 = "32 word"

definition crc_bit :: "u32 \<Rightarrow> u32" where
  "crc_bit c = (if c AND 1 = 0 then drop_bit 1 c else drop_bit 1 c XOR 0xEDB88320)"

definition crc_byte :: "u32 \<Rightarrow> char \<Rightarrow> u32" where
  "crc_byte c b = (crc_bit ^^ 8) (c XOR of_nat (of_char b))"

definition ChecksumIEEE :: "string \<Rightarrow> u32" where
  "ChecksumIEEE data = NOT (foldl crc_byte (NOT 0) data)"

text \<open>The base64 alphabet of \<open>RawURLEncoding\<close>.\<close>

definition base64url :: "nat \<Rightarrow> char" where
  "base64url n =
     (if n < 26 then char_of (65 + n)
      else if n < 52 then char_of (71 + n)
      else if n < 62 then char_of (n - 4)
      else if n = 62 then CHR ''-'' else CHR ''_'')"

definition sextet :: "u32 \<Rightarrow> nat \<Rightarrow> nat" where
  "sextet w k = unat (drop_bit k w AND 63)"

definition ComputeLineHash :: "string \<Rightarrow> string" where
  "ComputeLineHash line =
     (let crc = ChecksumIEEE line
      in [base64url (sextet crc 26), base64url (sextet crc 20), base64url (sextet crc 14)])"

text \<open>Line numbers are Go \<open>int\<close>s and start at 1.\<close>

definition GenerateHashMap :: "string list \<Rightarrow> (int \<times> string) list" where
  "GenerateHashMap lines =
     map (\<lambda>(i, line). (int i + 1, ComputeLineHash line)) (enumerate 0 lines)"

lemma sextet_bound: "sextet w k < 64"
proof -
  have "unat (drop_bit k w AND 63) \<le> unat (63 :: u32)"
    by (rule word_and_le1 [THEN word_le_nat_alt [THEN iffD1]])
  then show ?thesis by (simp add: sextet_def)
qed

lemma length_ComputeLineHash [simp]: "length (ComputeLineHash line) = 3"
  by (simp add: ComputeLineHash_def Let_def)

lemma keys_GenerateHashMap: "map fst (GenerateHashMap lines) = map int [1..<Suc (length lines)]"
  by (rule nth_equalityI) (auto simp: GenerateHashMap_def nth_enumerate_eq simp del: upt_Suc)

lemma distinct_GenerateHashMap: "distinct (map fst (GenerateHashMap lines))"
  by (simp add: keys_GenerateHashMap distinct_map del: upt_Suc)

lemma GenerateHashMap_lookup:
  "map_of (GenerateHashMap lines) k =
     (if 1 \<le> k \<and> k \<le> int (length lines) then Some (ComputeLineHash (lines ! nat (k - 1))) else None)"
proof (cases "1 \<le> k \<and> k \<le> int (length lines)")
  case True
  then have "(k, ComputeLineHash (lines ! nat (k - 1))) \<in> set (GenerateHashMap lines)"
    by (force simp: GenerateHashMap_def in_set_conv_nth nth_enumerate_eq intro!: exI [of _ "nat (k - 1)"])
  then show ?thesis
    using True distinct_GenerateHashMap [of lines] by (simp add: map_of_is_SomeI)
next
  case False
  then have "k \<notin> int ` {1..<Suc (length lines)}" by auto
  moreover have "fst ` set (GenerateHashMap lines) = int ` {1..<Suc (length lines)}"
    using arg_cong [OF keys_GenerateHashMap, of set lines] by (simp del: upt_Suc)
  ultimately have "map_of (GenerateHashMap lines) k = None" by (simp add: map_of_eq_None_iff)
  then show ?thesis using False by simp
qed

lemma hash_empty: "ComputeLineHash [] = ''AAA''"
  by code_simp

end
