(* ===== verification/DiffPatch.thy ===== *)
theory DiffPatch
  imports DiffFormat Hashline
begin

text \<open>
  What the hunks say: the lines of a hunk in closed form, the two files they carry, the
  agreement of the unified and the structured format, the totals of the summary, and the proof
  that the blocks of a preview are a patch from the old file to the new one.
\<close>

section \<open>The lines of a hunk\<close>

definition contexts :: "string list \<Rightarrow> hashes \<Rightarrow> nat \<Rightarrow> nat \<Rightarrow> int \<Rightarrow> DiffLine list" where
  "contexts old oh i j npos = map (\<lambda>k. context_at old oh k (npos + (int k - int i))) [i..<j]"

fun hunk_spec :: "string list \<Rightarrow> string list \<Rightarrow> hashes \<Rightarrow> hashes \<Rightarrow> nat \<Rightarrow> nat \<Rightarrow> int \<Rightarrow> change list \<Rightarrow> DiffLine list" where
  "hunk_spec old new oh nh stop pos npos [] = contexts old oh pos stop npos"
| "hunk_spec old new oh nh stop pos npos (c # cs) =
     (let npos' = npos + (int (oldStart c) - int pos)
      in contexts old oh pos (oldStart c) npos @ deletes old oh c @ inserts new nh npos' c @
         hunk_spec old new oh nh stop (oldEnd c) (npos' + int (newEnd c - newStart c)) cs)"

lemma contexts_empty [simp]: "contexts old oh i i npos = []"
  by (simp add: contexts_def)

lemma contexts_Cons:
  "i < j \<Longrightarrow> contexts old oh i j npos = context_at old oh i npos # contexts old oh (Suc i) j (npos + 1)"
  by (auto simp: contexts_def upt_conv_Cons algebra_simps)

lemma hunk_lines_skip:
  "pos \<le> p \<Longrightarrow> p \<le> stop \<Longrightarrow> (cs \<noteq> [] \<Longrightarrow> p \<le> oldStart (hd cs)) \<Longrightarrow>
     hunk_lines old new oh nh stop pos npos cs =
       contexts old oh pos p npos @ hunk_lines old new oh nh stop p (npos + (int p - int pos)) cs"
proof (induction "p - pos" arbitrary: pos npos)
  case (Suc k)
  then have lt: "pos < p" by simp
  have "hunk_lines old new oh nh stop pos npos cs =
      context_at old oh pos npos # hunk_lines old new oh nh stop (Suc pos) (npos + 1) cs"
    using lt Suc.prems by (cases cs) (auto simp: hunk_lines.simps reaches_def)
  also have "hunk_lines old new oh nh stop (Suc pos) (npos + 1) cs =
      contexts old oh (Suc pos) p (npos + 1) @
      hunk_lines old new oh nh stop p (npos + 1 + (int p - int (Suc pos))) cs"
    using Suc.hyps lt Suc.prems by (intro Suc.hyps(1)) auto
  finally show ?case using lt by (simp add: contexts_Cons algebra_simps)
qed simp

lemma hunk_lines_spec:
  "in_hunk pos stop cs \<Longrightarrow> hunk_lines old new oh nh stop pos npos cs = hunk_spec old new oh nh stop pos npos cs"
proof (induction cs arbitrary: pos npos)
  case Nil
  then have "hunk_lines old new oh nh stop pos npos [] =
      contexts old oh pos stop npos @ hunk_lines old new oh nh stop stop (npos + (int stop - int pos)) []"
    by (intro hunk_lines_skip) auto
  then show ?case by (simp add: hunk_lines.simps)
next
  case (Cons c cs)
  let ?n' = "npos + (int (oldStart c) - int pos)"
  let ?n'' = "?n' + int (newEnd c - newStart c)"
  have rest: "hunk_lines old new oh nh stop (oldEnd c) ?n'' cs = hunk_spec old new oh nh stop (oldEnd c) ?n'' cs"
    using Cons by simp
  have skip: "hunk_lines old new oh nh stop pos npos (c # cs) =
      contexts old oh pos (oldStart c) npos @ hunk_lines old new oh nh stop (oldStart c) ?n' (c # cs)"
    using Cons.prems by (intro hunk_lines_skip) auto
  have at: "hunk_lines old new oh nh stop (oldStart c) ?n' (c # cs) =
      deletes old oh c @ inserts new nh ?n' c @ hunk_lines old new oh nh stop (oldEnd c) ?n'' cs"
  proof (cases "oldStart c = oldEnd c")
    case True
    then show ?thesis by (simp add: hunk_lines.simps(2) reaches_def)
  next
    case False
    then have pos: "oldStart c + (oldEnd c - oldStart c) = oldEnd c" using Cons.prems by simp
    have nxt: "hunk_lines old new oh nh stop (oldEnd c) ?n'' cs =
        (if oldEnd c < stop
         then context_at old oh (oldEnd c) ?n'' # hunk_lines old new oh nh stop (Suc (oldEnd c)) (?n'' + 1) cs
         else [])"
    proof (cases cs)
      case Nil
      then show ?thesis by (simp add: hunk_lines.simps)
    next
      case (Cons d ds)
      then show ?thesis
        using \<open>in_hunk pos stop (c # cs)\<close> by (auto simp: hunk_lines.simps(2) reaches_def)
    qed
    show ?thesis
      using False pos nxt by (simp add: hunk_lines.simps(2) [of _ _ _ _ _ "oldStart c"] reaches_def Let_def)
  qed
  show ?case using skip at rest by (simp add: Let_def)
qed

section \<open>The two files a hunk carries\<close>

definition old_side :: "DiffLine list \<Rightarrow> string list" where
  "old_side ls = map dl_Content (filter (\<lambda>l. dl_Type l \<noteq> ''insert'') ls)"

definition new_side :: "DiffLine list \<Rightarrow> string list" where
  "new_side ls = map dl_Content (filter (\<lambda>l. dl_Type l \<noteq> ''delete'') ls)"

definition count_lines :: "string \<Rightarrow> DiffLine list \<Rightarrow> nat" where
  "count_lines t ls = length (filter (\<lambda>l. dl_Type l = t) ls)"

lemma sides_append [simp]:
  "old_side (xs @ ys) = old_side xs @ old_side ys" "new_side (xs @ ys) = new_side xs @ new_side ys"
  "count_lines t (xs @ ys) = count_lines t xs + count_lines t ys"
  by (simp_all add: old_side_def new_side_def count_lines_def)

lemma line_types [simp]:
  "dl_Type (insert_line s n h) = ''insert''" "dl_Type (delete_line s n h) = ''delete''"
  "dl_Type (context_line s n m h) = ''context''" "dl_Content (insert_line s n h) = s"
  "dl_Content (delete_line s n h) = s" "dl_Content (context_line s n m h) = s"
  by (simp_all add: insert_line_def delete_line_def context_line_def)

lemma filter_map_const: "(\<And>x. P (f x) = b) \<Longrightarrow> filter P (map f xs) = (if b then map f xs else [])"
  by (induction xs) auto

lemma contexts_sides:
  assumes "j \<le> length old"
  shows "old_side (contexts old oh i j npos) = span_of old i j"
    and "new_side (contexts old oh i j npos) = span_of old i j"
    and "count_lines ''insert'' (contexts old oh i j npos) = 0"
    and "count_lines ''delete'' (contexts old oh i j npos) = 0"
  using assms
  by (simp_all add: old_side_def new_side_def count_lines_def contexts_def context_at_def
      filter_map_const comp_def map_nth_span)

lemma deletes_sides:
  assumes "oldEnd c \<le> length old"
  shows "old_side (deletes old oh c) = span_of old (oldStart c) (oldEnd c)"
    and "new_side (deletes old oh c) = []"
    and "count_lines ''insert'' (deletes old oh c) = 0"
    and "count_lines ''delete'' (deletes old oh c) = oldEnd c - oldStart c"
  using assms
  by (simp_all add: old_side_def new_side_def count_lines_def deletes_def filter_map_const comp_def map_nth_span)

lemma inserts_sides:
  assumes "newEnd c \<le> length new"
  shows "old_side (inserts new nh npos c) = []"
    and "new_side (inserts new nh npos c) = span_of new (newStart c) (newEnd c)"
    and "count_lines ''insert'' (inserts new nh npos c) = newEnd c - newStart c"
    and "count_lines ''delete'' (inserts new nh npos c) = 0"
  using assms
  by (simp_all add: old_side_def new_side_def count_lines_def inserts_def filter_map_const comp_def map_nth_span)

lemmas hunk_sides = contexts_sides deletes_sides inserts_sides

lemma in_hunk_le: "in_hunk pos stop cs \<Longrightarrow> pos \<le> stop"
  by (induction pos stop cs rule: in_hunk.induct) auto

lemma old_side_spec:
  "in_hunk pos stop cs \<Longrightarrow> stop \<le> length old \<Longrightarrow> \<forall>c \<in> set cs. newEnd c \<le> length new \<Longrightarrow>
     old_side (hunk_spec old new oh nh stop pos npos cs) = span_of old pos stop"
proof (induction cs arbitrary: pos npos)
  case (Cons c cs)
  have "span_of old pos (oldStart c) @ span_of old (oldStart c) (oldEnd c) @ span_of old (oldEnd c) stop = span_of old pos stop"
    using Cons.prems(1) in_hunk_le [of "oldEnd c" stop cs] by (simp add: span_append)
  then show ?case using Cons by (simp add: hunk_sides Let_def)
qed (simp add: hunk_sides)

text \<open>The new side, followed by the changes of the later hunks, is the patched rest of the file.\<close>

lemma new_side_spec:
  "in_hunk pos stop cs \<Longrightarrow> stop \<le> length old \<Longrightarrow> \<forall>c \<in> set cs. newEnd c \<le> length new \<Longrightarrow>
   (ds \<noteq> [] \<Longrightarrow> stop < oldStart (hd ds)) \<Longrightarrow>
     new_side (hunk_spec old new oh nh stop pos npos cs) @ apply_changes old new stop ds =
       apply_changes old new pos (cs @ ds)"
proof (induction cs arbitrary: pos npos)
  case Nil
  then show ?case
    by (cases ds) (simp_all add: hunk_sides span_drop_append span_append flip: append_assoc)
next
  case (Cons c cs)
  then show ?case by (simp add: hunk_sides Let_def)
qed

lemma counts_spec:
  "in_hunk pos stop cs \<Longrightarrow> stop \<le> length old \<Longrightarrow> \<forall>c \<in> set cs. newEnd c \<le> length new \<Longrightarrow>
     count_lines ''insert'' (hunk_spec old new oh nh stop pos npos cs) = (\<Sum>c \<leftarrow> cs. newEnd c - newStart c) \<and>
     count_lines ''delete'' (hunk_spec old new oh nh stop pos npos cs) = (\<Sum>c \<leftarrow> cs. oldEnd c - oldStart c)"
proof (induction cs arbitrary: pos npos)
  case (Cons c cs)
  then show ?case by (simp add: hunk_sides Let_def)
qed (simp add: hunk_sides)

lemma length_sides:
  "length (old_side ls) + count_lines ''insert'' ls = length ls"
  "length (new_side ls) + count_lines ''delete'' ls = length ls"
  using sum_length_filter_compl [of "\<lambda>l. dl_Type l = ''insert''" ls]
    sum_length_filter_compl [of "\<lambda>l. dl_Type l = ''delete''" ls]
  by (simp_all add: old_side_def new_side_def count_lines_def)

section \<open>The blocks of a preview are a patch\<close>

text \<open>
  Applying blocks in order: the old lines between two blocks are copied, the lines a block covers
  (its \<open>old_side\<close>, from \<open>OldStartLine\<close>) are replaced by its \<open>new_side\<close>.
\<close>

fun apply_blocks :: "string list \<Rightarrow> nat \<Rightarrow> DiffBlock list \<Rightarrow> string list" where
  "apply_blocks old pos [] = drop pos old"
| "apply_blocks old pos (b # bs) =
     (let start = nat (db_OldStartLine b - 1)
      in span_of old pos start @ new_side (db_Lines b) @
         apply_blocks old (start + length (old_side (db_Lines b))) bs)"

definition block_of :: "string list \<Rightarrow> string list \<Rightarrow> hashes \<Rightarrow> hashes \<Rightarrow> change list \<Rightarrow> nat \<times> nat \<Rightarrow> DiffBlock" where
  "block_of old new oh nh all r = formatStructuredHunk old new all (fst r) (snd r) oh nh"

lemma computeNewStart_in_hunk: "in_hunk hs he g \<Longrightarrow> computeNewStart g hs = int hs"
  by (cases g) (auto simp: computeNewStart_def)

lemma block_of_group:
  assumes "filterChangesInRange all hs he = g" and "g \<noteq> []" and "in_hunk hs he g"
  shows "db_Lines (block_of old new oh nh all (hs, he)) = hunk_spec old new oh nh he hs (int hs) g"
    and "db_OldStartLine (block_of old new oh nh all (hs, he)) = int hs + 1"
    and "db_NewStartLine (block_of old new oh nh all (hs, he)) = int hs + 1"
    and "db_Header (block_of old new oh nh all (hs, he)) = hunk_header g hs he"
  using assms
  by (simp_all add: block_of_def formatStructuredHunk_def computeNewStart_in_hunk hunk_lines_spec Let_def)

lemma span_apply_changes:
  "pos \<le> p \<Longrightarrow> p \<le> length old \<Longrightarrow> (cs \<noteq> [] \<Longrightarrow> p \<le> oldStart (hd cs)) \<Longrightarrow>
     span_of old pos p @ apply_changes old new p cs = apply_changes old new pos cs"
  by (cases cs) (simp_all add: span_drop_append span_append flip: append_assoc)

lemma apply_blocks_tiles:
  "tiles (length old) pos all rs cs \<Longrightarrow> \<forall>c \<in> set cs. newEnd c \<le> length new \<Longrightarrow>
     apply_blocks old pos (map (block_of old new oh nh all) rs) = apply_changes old new pos cs"
proof (induction rs arbitrary: pos cs)
  case (Cons r rs)
  obtain hs he where r: "r = (hs, he)" by force
  define g where "g = filterChangesInRange all hs he"
  define ds where "ds = drop (length g) cs"
  have t: "g \<noteq> []" "cs = g @ ds" "pos \<le> hs" "he \<le> length old" "in_hunk hs he g"
      "\<forall>d \<in> set ds. he < oldStart d" "tiles (length old) he all rs ds"
    using Cons.prems(1) by (simp_all add: r g_def ds_def Let_def)
  have newg: "\<forall>c \<in> set g. newEnd c \<le> length new" and newd: "\<forall>c \<in> set ds. newEnd c \<le> length new"
    using Cons.prems(2) t(2) by auto
  have hs: "hs \<le> he" "hs \<le> oldStart (hd g)" using t(1,5) in_hunk_le by (cases g; force)+
  let ?lines = "hunk_spec old new oh nh he hs (int hs) g"
  have b: "db_Lines (block_of old new oh nh all r) = ?lines" "db_OldStartLine (block_of old new oh nh all r) = int hs + 1"
    using block_of_group [OF g_def [symmetric] t(1,5)] by (simp_all add: r)
  have "apply_blocks old pos (map (block_of old new oh nh all) (r # rs)) =
      span_of old pos hs @ new_side ?lines @
      apply_blocks old (hs + length (old_side ?lines)) (map (block_of old new oh nh all) rs)"
    by (simp add: b Let_def)
  also have "hs + length (old_side ?lines) = he"
    using old_side_spec [OF t(5,4) newg] hs t(4) by simp
  also have "apply_blocks old he (map (block_of old new oh nh all) rs) = apply_changes old new he ds"
    using Cons.IH [OF t(7) newd] .
  also have "new_side ?lines @ \<dots> = apply_changes old new hs (g @ ds)"
    using t(4,5,6) newg by (intro new_side_spec) (auto simp: neq_Nil_conv)
  also have "span_of old pos hs @ \<dots> = apply_changes old new pos (g @ ds)"
    using t(1,3,4) hs by (intro span_apply_changes) auto
  finally show ?case using t(2) by simp
qed (simp add: Let_def)

section \<open>From one hunk to the whole preview\<close>

definition group :: "change list \<Rightarrow> nat \<times> nat \<Rightarrow> change list" where
  "group all r = filterChangesInRange all (fst r) (snd r)"

lemma tiles_groups: "tiles n pos all rs cs \<Longrightarrow> cs = concat (map (group all) rs)"
proof (induction rs arbitrary: pos cs)
  case (Cons r rs)
  obtain hs he where r: "r = (hs, he)" by force
  let ?g = "filterChangesInRange all hs he"
  have t: "cs = ?g @ drop (length ?g) cs" "tiles n he all rs (drop (length ?g) cs)"
    using Cons.prems by (simp_all add: r Let_def)
  from t(1) Cons.IH [OF t(2)] show ?case by (simp add: r group_def)
qed (simp add: Let_def)

lemma tiles_member:
  "tiles n pos all rs cs \<Longrightarrow> r \<in> set rs \<Longrightarrow>
     group all r \<noteq> [] \<and> in_hunk (fst r) (snd r) (group all r) \<and> snd r \<le> n"
  by (induction rs arbitrary: pos cs) (auto simp: Let_def group_def)

lemma wf_changes_member:
  "wf_changes xs ys oi ni cs \<Longrightarrow> c \<in> set cs \<Longrightarrow>
     newEnd c \<le> length ys \<and> (oldStart c < oldEnd c \<or> newStart c < newEnd c)"
  by (induction cs arbitrary: oi ni) auto

definition ranges_of :: "string list \<Rightarrow> string list \<Rightarrow> (nat \<times> nat) list" where
  "ranges_of old new = hunk_ranges (length old) None (findChanges old new)"

abbreviation block_at :: "string list \<Rightarrow> string list \<Rightarrow> hashes \<Rightarrow> hashes \<Rightarrow> nat \<times> nat \<Rightarrow> DiffBlock" where
  "block_at old new oh nh \<equiv> block_of old new oh nh (findChanges old new)"

abbreviation group_at :: "string list \<Rightarrow> string list \<Rightarrow> nat \<times> nat \<Rightarrow> change list" where
  "group_at old new \<equiv> group (findChanges old new)"

lemma tiles_all: "tiles (length old) 0 (findChanges old new) (ranges_of old new) (findChanges old new)"
  using wf_changes_spaced [OF wf_findChanges] tiles_hunk_ranges by (simp add: ranges_of_def)

lemma block_lines:
  assumes "r \<in> set (ranges_of old new)"
  shows "db_Lines (block_at old new oh nh r) = hunk_spec old new oh nh (snd r) (fst r) (int (fst r)) (group_at old new r)"
    and "db_OldStartLine (block_at old new oh nh r) = int (fst r) + 1"
    and "db_NewStartLine (block_at old new oh nh r) = int (fst r) + 1"
    and "db_Header (block_at old new oh nh r) = hunk_header (group_at old new r) (fst r) (snd r)"
  using tiles_member [OF tiles_all assms] block_of_group [where he = "snd r" and hs = "fst r" and g = "group_at old new r"]
  by (simp_all add: group_def)

lemma group_new: "r \<in> set (ranges_of old new) \<Longrightarrow> c \<in> set (group_at old new r) \<Longrightarrow>
    newEnd c \<le> length new \<and> (oldStart c < oldEnd c \<or> newStart c < newEnd c)"
proof -
  assume "r \<in> set (ranges_of old new)" and "c \<in> set (group_at old new r)"
  then have "c \<in> set (concat (map (group_at old new) (ranges_of old new)))" by auto
  then have "c \<in> set (findChanges old new)" using tiles_groups [OF tiles_all] by metis
  then show ?thesis using wf_changes_member [OF wf_findChanges] by blast
qed

lemma block_counts:
  assumes "r \<in> set (ranges_of old new)"
  shows "count_lines ''insert'' (db_Lines (block_at old new oh nh r)) = (\<Sum>c \<leftarrow> group_at old new r. newEnd c - newStart c)"
    and "count_lines ''delete'' (db_Lines (block_at old new oh nh r)) = (\<Sum>c \<leftarrow> group_at old new r. oldEnd c - oldStart c)"
  using counts_spec [of "fst r" "snd r" "group_at old new r" old new oh nh "int (fst r)"]
    tiles_member [OF tiles_all assms] group_new [OF assms]
  by (simp_all add: block_lines [OF assms])

lemma block_nonempty:
  assumes "r \<in> set (ranges_of old new)" shows "db_Lines (block_at old new oh nh r) \<noteq> []"
proof
  assume empty: "db_Lines (block_at old new oh nh r) = []"
  obtain c where c: "c \<in> set (group_at old new r)"
    using tiles_member [OF tiles_all assms] by (cases "group_at old new r") auto
  have "newEnd c - newStart c \<le> (\<Sum>c \<leftarrow> group_at old new r. newEnd c - newStart c)"
    "oldEnd c - oldStart c \<le> (\<Sum>c \<leftarrow> group_at old new r. oldEnd c - oldStart c)"
    using c by (auto intro!: member_le_sum_list simp del: sum_list_eq_0_iff)
  then show False
    using block_counts [OF assms, of oh nh] group_new [OF assms c]
    by (auto simp: empty count_lines_def simp del: sum_list_eq_0_iff)
qed

lemma structured_blocks_eq: "structured_blocks old new oh nh = map (block_at old new oh nh) (ranges_of old new)"
proof -
  have "structured_blocks old new oh nh = filter (\<lambda>b. db_Lines b \<noteq> []) (map (block_at old new oh nh) (ranges_of old new))"
    by (simp add: structured_blocks_def Let_def block_of_def [abs_def] split_def ranges_of_def)
  also have "\<dots> = map (block_at old new oh nh) (ranges_of old new)"
    by (rule filter_True) (auto simp: block_nonempty)
  finally show ?thesis .
qed

lemma structured_blocks_apply: "apply_blocks old 0 (structured_blocks old new oh nh) = new"
proof -
  have "\<forall>c \<in> set (findChanges old new). newEnd c \<le> length new"
    using wf_changes_member [OF wf_findChanges] by blast
  then have "apply_blocks old 0 (structured_blocks old new oh nh) = apply_changes old new 0 (findChanges old new)"
    unfolding structured_blocks_eq by (rule apply_blocks_tiles [OF tiles_all])
  also have "\<dots> = new" using apply_wf_changes [OF wf_findChanges] by simp
  finally show ?thesis .
qed

lemma sum_list_concat: "(\<Sum>x \<leftarrow> concat xss. f x) = (\<Sum>xs \<leftarrow> xss. \<Sum>x \<leftarrow> xs. (f x :: nat))"
  by (induction xss) simp_all

lemma sum_groups: "(\<Sum>r \<leftarrow> ranges_of old new. \<Sum>c \<leftarrow> group_at old new r. f c) = (\<Sum>c \<leftarrow> findChanges old new. (f c :: nat))"
  using arg_cong [OF tiles_groups [OF tiles_all], where f = "\<lambda>cs. \<Sum>c \<leftarrow> cs. f c"]
  by (simp add: sum_list_concat comp_def)

lemma count_lines_concat: "count_lines t (concat xss) = (\<Sum>xs \<leftarrow> xss. count_lines t xs)"
  by (induction xss) (simp_all add: count_lines_def)

lemma structured_counts:
  shows "count_type ''insert'' (structured_blocks old new oh nh) = int (\<Sum>c \<leftarrow> (findChanges old new). newEnd c - newStart c)"
    and "count_type ''delete'' (structured_blocks old new oh nh) = int (\<Sum>c \<leftarrow> (findChanges old new). oldEnd c - oldStart c)"
proof -
  have count: "count_type t (structured_blocks old new oh nh) =
      int (\<Sum>r \<leftarrow> (ranges_of old new). count_lines t (db_Lines (block_at old new oh nh r)))" for t
    by (simp add: count_type_def structured_blocks_eq count_lines_def [symmetric] count_lines_concat comp_def)
  show "count_type ''insert'' (structured_blocks old new oh nh) = int (\<Sum>c \<leftarrow> (findChanges old new). newEnd c - newStart c)"
    and "count_type ''delete'' (structured_blocks old new oh nh) = int (\<Sum>c \<leftarrow> (findChanges old new). oldEnd c - oldStart c)"
    by (simp_all add: count block_counts sum_groups cong: map_cong)
qed

section \<open>The totals\<close>

lemma changes_from_totals:
  "matching xs ys oi ni ps \<Longrightarrow>
     (\<Sum>c \<leftarrow> changes_from (length xs) (length ys) oi ni ps. oldEnd c - oldStart c) + length ps + oi = length xs \<and>
     (\<Sum>c \<leftarrow> changes_from (length xs) (length ys) oi ni ps. newEnd c - newStart c) + length ps + ni = length ys"
proof (induction ps arbitrary: oi ni)
  case (Cons p ps)
  from Cons.IH [of "Suc (oldIndex p)" "Suc (newIndex p)"] Cons.prems show ?case by auto
qed auto

lemma findChanges_totals:
  "(\<Sum>c \<leftarrow> findChanges old new. oldEnd c - oldStart c) + length (computeLCS old new) = length old"
  "(\<Sum>c \<leftarrow> findChanges old new. newEnd c - newStart c) + length (computeLCS old new) = length new"
  using changes_from_totals [OF matching_computeLCS [of old new]] by (simp_all add: findChanges_def)

lemma findChanges_empty: "findChanges old new = [] \<Longrightarrow> old = new"
  using apply_wf_changes [OF wf_findChanges [of old new]] by simp

lemma blocks_empty: "findChanges old new = [] \<Longrightarrow> structured_blocks old new oh nh = []"
  by (simp add: structured_blocks_def Let_def)

lemma preview_blocks:
  "SplitLines old \<noteq> [] \<Longrightarrow>
     dp_Blocks (GenerateStructuredDiffWithHashes path old new oh nh) =
       structured_blocks (SplitLines old) (SplitLines new) oh nh"
  by (simp add: GenerateStructuredDiffWithHashes_def Let_def blocks_empty)

lemma preview_new_file:
  "SplitLines old = [] \<Longrightarrow>
     dp_Blocks (GenerateStructuredDiffWithHashes path old new oh nh) =
       (if SplitLines new = [] then [] else [generateNewFileBlock (SplitLines new) nh])"
  by (simp add: GenerateStructuredDiffWithHashes_def Let_def)

lemma new_file_sides:
  "new_side (db_Lines (generateNewFileBlock ls nh)) = ls" "old_side (db_Lines (generateNewFileBlock ls nh)) = []"
  "db_OldStartLine (generateNewFileBlock ls nh) = 0" "db_NewStartLine (generateNewFileBlock ls nh) = 1"
  by (simp_all add: new_side_def old_side_def generateNewFileBlock_def split_def filter_map_const comp_def
      map_snd_enumerate [unfolded comp_def])

section \<open>The two formats agree\<close>

definition render_line :: "DiffLine \<Rightarrow> string" where
  "render_line l =
     (if dl_Type l = ''delete'' then CHR ''-'' else if dl_Type l = ''insert'' then CHR ''+'' else CHR '' '')
       # dl_Content l @ [nl]"

definition render_block :: "DiffBlock \<Rightarrow> string" where
  "render_block b = db_Header b @ nl # concat (map render_line (db_Lines b))"

lemma render_parts [simp]:
  "concat (map render_line (deletes old oh c)) = prefixed (CHR ''-'') old (oldStart c) (oldEnd c)"
  "concat (map render_line (inserts new nh npos c)) = prefixed (CHR ''+'') new (newStart c) (newEnd c)"
  "render_line (context_at old oh k npos) = CHR '' '' # old ! k @ [nl]"
  by (simp_all add: deletes_def inserts_def context_at_def prefixed_def render_line_def comp_def)

lemma render_hunk_lines:
  "concat (map render_line (hunk_lines old new oh nh stop pos npos cs)) = hunk_text old new stop pos cs"
proof (induction old new stop pos cs arbitrary: npos rule: hunk_text.induct)
  case (1 old new stop pos)
  then show ?case by (subst hunk_lines.simps, subst hunk_text.simps) simp
next
  case (2 old new stop pos c cs)
  then show ?case by (subst hunk_lines.simps, subst hunk_text.simps) (simp add: Let_def)
qed

lemma formatHunk_block:
  "filterChangesInRange all hs he \<noteq> [] \<Longrightarrow>
     formatHunk old new all hs he = render_block (block_of old new oh nh all (hs, he))"
  by (simp add: formatHunk_def block_of_def formatStructuredHunk_def render_block_def Let_def render_hunk_lines)

lemma computeHunks_blocks: "computeHunks old new = map render_block (structured_blocks old new oh nh)"
proof -
  have "computeHunks old new = map (\<lambda>(hs, he). formatHunk old new (findChanges old new) hs he) (ranges_of old new)"
    by (simp add: computeHunks_def ranges_of_def Let_def)
  also have "\<dots> = map render_block (map (block_at old new oh nh) (ranges_of old new))"
    using tiles_member [OF tiles_all] by (auto simp: group_def intro!: formatHunk_block)
  finally show ?thesis by (simp only: structured_blocks_eq)
qed

end
