(* ===== verification/DiffCorrect.thy ===== *)
theory DiffCorrect
  imports DiffPatch
begin

text \<open>
  What internal/tool/diff/diff.go promises, stated on its entry points: the comparison is a
  longest common subsequence, the preview is a patch, its totals are the smallest possible, its
  headers count its lines, its hashes annotate the lines they stand on, and the unified text is
  the same preview written out. The last property states how the line numbers of the new side
  are computed from the second hunk on.
\<close>

section \<open>Helper lemmas\<close>

lemma preview_member:
  assumes "b \<in> set (dp_Blocks (GenerateStructuredDiffWithHashes path old new oh nh))" and "SplitLines old \<noteq> []"
  obtains r where "r \<in> set (ranges_of (SplitLines old) (SplitLines new))"
    and "b = block_at (SplitLines old) (SplitLines new) oh nh r"
  using assms by (auto simp: preview_blocks structured_blocks_eq)

lemma hunk_spec_annotated:
  "in_hunk pos stop cs \<Longrightarrow> stop \<le> length old \<Longrightarrow> \<forall>c \<in> set cs. newEnd c \<le> length new \<Longrightarrow>
   l \<in> set (hunk_spec old new (Some (GenerateHashMap old)) (Some (GenerateHashMap new)) stop pos npos cs) \<Longrightarrow>
     dl_Hash l = Some (ComputeLineHash (dl_Content l)) \<and>
     (\<forall>k. dl_OldNumber l = Some k \<longrightarrow> 1 \<le> k \<and> k \<le> int (length old) \<and> old ! nat (k - 1) = dl_Content l)"
proof (induction cs arbitrary: pos npos)
  case Nil
  then show ?case
    by (auto simp: contexts_def context_at_def context_line_def hash_at_def GenerateHashMap_lookup)
next
  case (Cons c cs)
  have "oldStart c \<le> oldEnd c" "oldEnd c \<le> length old" using Cons.prems in_hunk_le by fastforce+
  moreover have "newEnd c \<le> length new" using Cons.prems by simp
  ultimately show ?case using Cons
    by (auto simp: Let_def contexts_def context_at_def context_line_def deletes_def delete_line_def
        inserts_def insert_line_def hash_at_def GenerateHashMap_lookup)
qed

lemma new_file_annotated:
  "l \<in> set (db_Lines (generateNewFileBlock ls (Some (GenerateHashMap ls)))) \<Longrightarrow>
     dl_Hash l = Some (ComputeLineHash (dl_Content l)) \<and> dl_OldNumber l = None"
  by (auto simp: generateNewFileBlock_def insert_line_def hash_at_def GenerateHashMap_lookup in_set_enumerate_eq)

lemma block_side_lengths:
  fixes oh nh :: hashes
  assumes "r \<in> set (ranges_of old new)"
  defines "ls \<equiv> db_Lines (block_at old new oh nh r)"
  shows "length (old_side ls) = snd r - fst r" and "fst r \<le> snd r"
    and "int (length (new_side ls)) =
      int (snd r) - int (fst r) - sum_list (map removed (group_at old new r)) + sum_list (map added (group_at old new r))"
proof -
  have m: "in_hunk (fst r) (snd r) (group_at old new r)" "snd r \<le> length old"
    using tiles_member [OF tiles_all assms(1)] by auto
  show le: "fst r \<le> snd r" using in_hunk_le [OF m(1)] .
  have "old_side ls = span_of old (fst r) (snd r)"
    unfolding ls_def block_lines(1) [OF assms(1)]
    using group_new [OF assms(1)] by (intro old_side_spec [OF m]) simp
  then show o: "length (old_side ls) = snd r - fst r" using m(2) le by simp
  have ins: "int (\<Sum>c \<leftarrow> cs. newEnd c - newStart c) = sum_list (map added cs)"
    if "\<forall>c \<in> set cs. newStart c \<le> newEnd c" for cs
    using that by (induction cs) (auto simp: added_def of_nat_diff)
  have del: "int (\<Sum>c \<leftarrow> cs. oldEnd c - oldStart c) = sum_list (map removed cs)"
    if "\<forall>c \<in> set cs. oldStart c \<le> oldEnd c" for cs
    using that by (induction cs) (auto simp: removed_def of_nat_diff)
  have sub: "set (group_at old new r) \<subseteq> set (findChanges old new)"
    by (auto simp: group_def filterChangesInRange_def)
  have "\<forall>c \<in> set (findChanges old new). newStart c \<le> newEnd c \<and> oldStart c \<le> oldEnd c"
  proof -
    have "wf_changes old new oi ni cs \<Longrightarrow> \<forall>c \<in> set cs. newStart c \<le> newEnd c \<and> oldStart c \<le> oldEnd c" for oi ni cs
      by (induction cs arbitrary: oi ni) auto
    then show ?thesis using wf_findChanges by blast
  qed
  then have ord: "\<forall>c \<in> set (group_at old new r). newStart c \<le> newEnd c" "\<forall>c \<in> set (group_at old new r). oldStart c \<le> oldEnd c"
    using sub by blast+
  have "int (length (new_side ls)) = int (length (old_side ls)) + int (count_lines ''insert'' ls) - int (count_lines ''delete'' ls)"
    using length_sides [of ls] by linarith
  then show "int (length (new_side ls)) =
      int (snd r) - int (fst r) - sum_list (map removed (group_at old new r)) + sum_list (map added (group_at old new r))"
    using o le block_counts [OF assms(1), of oh nh] ins [OF ord(1)] del [OF ord(2)]
    by (simp add: ls_def)
qed

lemma group_header:
  fixes oh nh :: hashes
  assumes "r \<in> set (ranges_of old new)"
  defines "b \<equiv> block_at old new oh nh r"
  shows "db_Header b = sprintf ''@@ -%d,%d +%d,%d @@''
     [itoa (db_OldStartLine b), itoa (int (length (old_side (db_Lines b)))),
      itoa (db_NewStartLine b), itoa (int (length (new_side (db_Lines b))))]"
proof -
  have "computeNewStart (group_at old new r) (fst r) = int (fst r)"
    using computeNewStart_in_hunk tiles_member [OF tiles_all assms(1)] by blast
  then show ?thesis
    using block_side_lengths(1,3) [OF assms(1), where oh = oh and nh = nh] block_side_lengths(2) [OF assms(1)]
    by (simp add: b_def block_lines [OF assms(1)] hunk_header_def hunk_counts_def Let_def of_nat_diff add.commute)
qed

section \<open>Properties\<close>

text \<open>
  C20: \<open>computeLCS\<close> pairs equal lines, in increasing order on both sides, and no common
  subsequence of the two files is longer than what it returns.
\<close>

theorem computeLCS_longest:
  assumes "subseq zs old" and "subseq zs new"
  shows "matching old new 0 0 (computeLCS old new) \<and>
    subseq (map (\<lambda>p. old ! oldIndex p) (computeLCS old new)) old \<and>
    subseq (map (\<lambda>p. old ! oldIndex p) (computeLCS old new)) new \<and>
    length zs \<le> length (computeLCS old new)"
  using matching_computeLCS [of old new] matching_subseq [OF matching_computeLCS [of old new]]
    lcs_len_optimal [of "length old" old "length new" new zs] assms
  by (simp add: length_computeLCS)

theorem computeLCS_longest_witness:
  "length [''b'', ''d''] \<le> length (computeLCS [''a'', ''b'', ''c'', ''d''] [''b'', ''x'', ''d''])"
  using computeLCS_longest [of "[''b'', ''d'']" "[''a'', ''b'', ''c'', ''d'']" "[''b'', ''x'', ''d'']"] by simp

lemma blocks_applied:
  "apply_blocks (SplitLines old) 0 (dp_Blocks (GenerateStructuredDiffWithHashes path old new oh nh)) = SplitLines new"
proof (cases "SplitLines old = []")
  case True
  then show ?thesis by (simp add: preview_new_file new_file_sides Let_def)
qed (simp add: preview_blocks structured_blocks_apply)

text \<open>
  C10: the blocks of the preview are a patch: copying the old lines between two blocks and
  replacing the lines each block covers by its context and inserted lines gives exactly the
  lines of the new file, for every pair of files.
\<close>

theorem preview_is_patch:
  "apply_blocks (SplitLines old) 0 (dp_Blocks (GenerateStructuredDiffWithHashes path old new oh nh)) = SplitLines new"
  by (rule blocks_applied)

text \<open>
  The totals of a preview are exact and the smallest possible: what is removed and what is
  added is what a longest common subsequence leaves over, and the net change is the difference
  of the two line counts.
\<close>

theorem preview_summary_exact:
  "let s = dp_Summary (GenerateStructuredDiffWithHashes path old new oh nh);
       common = int (length (computeLCS (SplitLines old) (SplitLines new)))
   in ds_LinesRemoved s = int (length (SplitLines old)) - common \<and>
      ds_LinesAdded s = int (length (SplitLines new)) - common \<and>
      ds_NetChange s = int (length (SplitLines new)) - int (length (SplitLines old))"
proof -
  have none: "computeLCS [] ys = []" for ys by (simp add: computeLCS_def)
  have eq: "int (length (computeLCS xs ys)) = int (length xs)" "int (length (computeLCS xs ys)) = int (length ys)"
    if "findChanges xs ys = []" for xs ys
    using findChanges_totals [of xs ys] that by simp_all
  show ?thesis
    using findChanges_totals [of "SplitLines old" "SplitLines new"]
      eq [of "SplitLines old" "SplitLines new"]
    by (auto simp: GenerateStructuredDiffWithHashes_def Let_def empty_summary_def none structured_counts)
qed

text \<open>
  The header of every block names the line it starts at on each side and the exact numbers
  of old-side and new-side lines the block shows.
\<close>

theorem preview_header_counts:
  assumes "b \<in> set (dp_Blocks (GenerateStructuredDiffWithHashes path old new oh nh))"
  shows "db_Header b = sprintf ''@@ -%d,%d +%d,%d @@''
     [itoa (db_OldStartLine b), itoa (int (length (old_side (db_Lines b)))),
      itoa (db_NewStartLine b), itoa (int (length (new_side (db_Lines b))))]"
proof (cases "SplitLines old = []")
  case True
  then have "b = generateNewFileBlock (SplitLines new) nh"
    using assms by (simp add: preview_new_file split: if_splits)
  moreover have "itoa 0 = ''0''" "itoa 1 = ''1''" by code_simp+
  ultimately show ?thesis
    by (simp add: new_file_sides) (simp add: generateNewFileBlock_def)
next
  case False
  from preview_member [OF assms False] show ?thesis by (metis group_header)
qed

theorem preview_header_counts_witness:
  "let b = hd (dp_Blocks (GenerateStructuredDiff ''f'' ''x'' ''y''))
   in db_Header b = ''@@ -1,1 +1,1 @@'' \<and> db_OldStartLine b = 1 \<and>
      db_Header b = sprintf ''@@ -%d,%d +%d,%d @@''
     [itoa (db_OldStartLine b), itoa (int (length (old_side (db_Lines b)))),
      itoa (db_NewStartLine b), itoa (int (length (new_side (db_Lines b))))]"
proof -
  let ?bs = "dp_Blocks (GenerateStructuredDiff ''f'' ''x'' ''y'')"
  have ev: "length ?bs = 1" "db_Header (hd ?bs) = ''@@ -1,1 +1,1 @@''" "db_OldStartLine (hd ?bs) = 1"
    by code_simp+
  then have "hd ?bs \<in> set ?bs" by (cases ?bs) auto
  then show ?thesis
    using preview_header_counts [of "hd ?bs" "''f''" "''x''" "''y''" None None] ev
    by (simp add: GenerateStructuredDiff_def Let_def)
qed

text \<open>
  In a preview made with the hash maps of the two files, every line carries the hash of its
  own content, and the old number of a line names the line of the old file with that content:
  a (line, hash) pair read off the preview is one that \<open>edit_file\<close> accepts for the old file.
\<close>

theorem preview_hashes_fit:
  assumes "b \<in> set (dp_Blocks (GenerateStructuredDiffWithHashes path old new
      (Some (GenerateHashMap (SplitLines old))) (Some (GenerateHashMap (SplitLines new)))))"
    and "l \<in> set (db_Lines b)"
  shows "dl_Hash l = Some (ComputeLineHash (dl_Content l)) \<and>
    (\<forall>k. dl_OldNumber l = Some k \<longrightarrow>
       map_of (GenerateHashMap (SplitLines old)) k = dl_Hash l \<and>
       SplitLines old ! nat (k - 1) = dl_Content l)"
proof (cases "SplitLines old = []")
  case True
  then have "b = generateNewFileBlock (SplitLines new) (Some (GenerateHashMap (SplitLines new)))"
    using assms(1) by (simp add: preview_new_file split: if_splits)
  then show ?thesis using assms(2) new_file_annotated by auto
next
  case False
  then obtain r where r: "r \<in> set (ranges_of (SplitLines old) (SplitLines new))"
    and b: "b = block_at (SplitLines old) (SplitLines new) (Some (GenerateHashMap (SplitLines old)))
                  (Some (GenerateHashMap (SplitLines new))) r"
    using preview_member [OF assms(1)] by blast
  have m: "in_hunk (fst r) (snd r) (group_at (SplitLines old) (SplitLines new) r)" "snd r \<le> length (SplitLines old)"
    using tiles_member [OF tiles_all r] by auto
  have "\<forall>c \<in> set (group_at (SplitLines old) (SplitLines new) r). newEnd c \<le> length (SplitLines new)"
    using group_new [OF r] by blast
  from hunk_spec_annotated [OF m this] assms(2) show ?thesis
    by (auto simp: b block_lines(1) [OF r] GenerateHashMap_lookup)
qed

lemma single_block:
  assumes "map (map (\<lambda>l. (dl_OldNumber l, dl_Content l)) \<circ> db_Lines) bs = [[(n, c), y]]"
  obtains b l where "b \<in> set bs" "l \<in> set (db_Lines b)" "dl_OldNumber l = n" "dl_Content l = c"
proof -
  from assms obtain b l m where "bs = [b]" "db_Lines b = [l, m]" "dl_OldNumber l = n" "dl_Content l = c"
    by (auto simp: map_eq_Cons_conv)
  then show thesis by (intro that [of b l]) simp_all
qed

lemma small_preview:
  "map (map (\<lambda>l. (dl_OldNumber l, dl_Content l)) \<circ> db_Lines)
     (dp_Blocks (GenerateStructuredDiffWithHashes ''f'' ''x'' ''y'' h1 h2)) = [[(Some 1, ''x''), (None, ''y'')]]"
  by code_simp

theorem preview_hashes_fit_witness:
  "\<exists>l :: DiffLine. dl_OldNumber l = Some 1 \<and> dl_Content l = ''x'' \<and> dl_Hash l = Some (ComputeLineHash ''x'') \<and>
     map_of (GenerateHashMap (SplitLines ''x'')) 1 = dl_Hash l"
proof -
  let ?bs = "dp_Blocks (GenerateStructuredDiffWithHashes ''f'' ''x'' ''y''
      (Some (GenerateHashMap (SplitLines ''x''))) (Some (GenerateHashMap (SplitLines ''y''))))"
  obtain b l where mem: "b \<in> set ?bs" "l \<in> set (db_Lines b)"
    and l: "dl_OldNumber l = Some 1" "dl_Content l = ''x''" by (rule single_block [OF small_preview])
  note fit = preview_hashes_fit [OF mem]
  have hash: "dl_Hash l = Some (ComputeLineHash ''x'')" by (rule fit [THEN conjunct1, unfolded l(2)])
  have "map_of (GenerateHashMap (SplitLines ''x'')) 1 = dl_Hash l"
    by (rule fit [THEN conjunct2, rule_format, OF l(1), THEN conjunct1])
  with l hash have "dl_OldNumber l = Some 1 \<and> dl_Content l = ''x'' \<and> dl_Hash l = Some (ComputeLineHash ''x'') \<and>
      map_of (GenerateHashMap (SplitLines ''x'')) 1 = dl_Hash l" by (intro conjI)
  then show ?thesis by (rule exI)
qed

text \<open>
  The unified text is the structured preview written out: the same blocks in the same order,
  each line behind its mark; a file that did not exist is shown as a new file.
\<close>

theorem unified_is_rendered_preview:
  "GenerateUnifiedDiff path old new =
     (let blocks = dp_Blocks (GenerateStructuredDiff path old new)
      in if SplitLines old = [] then GenerateNewFileDiff path new 1000
         else if blocks = [] then []
         else sprintf ''--- %s'' [path] @ nl # sprintf ''+++ %s'' [path] @ nl # concat (map render_block blocks))"
proof (cases "SplitLines old = []")
  case True
  then show ?thesis by (auto simp: GenerateUnifiedDiff_def GenerateNewFileDiff_def Let_def)
next
  case False
  then show ?thesis
    using computeHunks_blocks [of "SplitLines old" "SplitLines new" None None]
    by (simp add: GenerateUnifiedDiff_def GenerateStructuredDiff_def preview_blocks Let_def)
qed

text \<open>
  Every block of a changed file is given the start line of its old side as the start line of
  its new side. The running offset that \<open>computeNewStart\<close> is written to add is never
  added, since it is handed the changes of the hunk alone and none of them starts before the
  hunk; a block after a hunk that adds or removes lines names the wrong line of the new file.
\<close>

theorem new_start_is_old_start:
  assumes "SplitLines old \<noteq> []"
    and "b \<in> set (dp_Blocks (GenerateStructuredDiffWithHashes path old new oh nh))"
  shows "db_NewStartLine b = db_OldStartLine b"
  using preview_member [OF assms(2,1)] by (metis block_lines(2,3))

text \<open>Two lines are put in front of ten and the last is changed: the second hunk starts at line 9 of the new file, not 7.\<close>

definition ten_lines :: string where
  "ten_lines = join [nl] [''0'', ''1'', ''2'', ''3'', ''4'', ''5'', ''6'', ''7'', ''8'', ''9'']"

definition two_more :: string where
  "two_more = join [nl] [''a'', ''b'', ''0'', ''1'', ''2'', ''3'', ''4'', ''5'', ''6'', ''7'', ''8'', ''x'']"

theorem new_start_is_old_start_witness:
  "let b = dp_Blocks (GenerateStructuredDiff ''f'' ten_lines two_more) ! 1
   in db_NewStartLine b = db_OldStartLine b \<and> db_OldStartLine b = 7 \<and>
      new_side (db_Lines b) = [''6'', ''7'', ''8'', ''x''] \<and>
      SplitLines two_more ! 8 = ''6'' \<and> SplitLines two_more ! nat (db_NewStartLine b - 1) = ''4''"
proof -
  let ?bs = "dp_Blocks (GenerateStructuredDiff ''f'' ten_lines two_more)"
  have ev: "length ?bs = 2" "db_OldStartLine (?bs ! 1) = 7" "new_side (db_Lines (?bs ! 1)) = [''6'', ''7'', ''8'', ''x'']"
    "SplitLines two_more ! 8 = ''6''" "SplitLines two_more ! 6 = ''4''" "SplitLines ten_lines \<noteq> []"
    by code_simp+
  then have "?bs ! 1 \<in> set ?bs" by simp
  then have "db_NewStartLine (?bs ! 1) = db_OldStartLine (?bs ! 1)"
    using new_start_is_old_start [of ten_lines "?bs ! 1" "''f''" two_more None None] ev(6)
    by (simp add: GenerateStructuredDiff_def)
  then show ?thesis using ev by (simp add: Let_def)
qed

end
