(* ===== verification/EditFile.thy ===== *)
theory EditFile
  imports Builtin DiffCorrect
begin

text \<open>
  internal/tool/builtin/edit_file.go: parsing, validating and applying the edits of a call, the
  structured preview and the execution. The lemmas show that validated edits are applied to the
  lines they name, each on its own line whatever their order, that an edit whose hash is stale
  never reaches the file, and what the file holds afterwards.
\<close>

section \<open>The code\<close>

record edit =
  ed_operation :: string
  ed_line :: int
  ed_hash :: string
  ed_content :: string

record editPlan =
  ep_path :: string
  ep_fullPath :: string
  ep_oldLines :: "string list"
  ep_newLines :: "string list"
  ep_edits :: "edit list"
  ep_trailingNewline :: bool

record EditFileTool =
  ef_BaseDir :: string
  ef_MaxSizeBytes :: int

definition valid_operation :: "string \<Rightarrow> bool" where
  "valid_operation op \<longleftrightarrow> op \<in> {''replace'', ''insert_after'', ''insert_before'', ''delete''}"

text \<open>The body of the loop of \<open>parseEdits\<close>, for the element at index \<open>i\<close>.\<close>

definition parse_edit :: "nat \<Rightarrow> json \<Rightarrow> edit result" where
  "parse_edit i raw =
     (case raw of
        JObj m \<Rightarrow>
          (case json_str (map_of m ''operation'') of
             None \<Rightarrow> Inl (Errorf ''edit %d missing operation'' [AInt (int i)])
           | Some op \<Rightarrow>
               if \<not> valid_operation op then Inl (Errorf ''edit %d: invalid operation %q'' [AInt (int i), AQuote op])
               else (case json_num (map_of m ''line'') of
                 None \<Rightarrow> Inl (Errorf ''edit %d missing line number'' [AInt (int i)])
               | Some lineFloat \<Rightarrow>
                   (case json_str (map_of m ''hash'') of
                      None \<Rightarrow> Inl (Errorf ''edit %d missing hash'' [AInt (int i)])
                    | Some hash \<Rightarrow>
                        (case (if op = ''delete'' then Some [] else json_str (map_of m ''content'')) of
                           None \<Rightarrow> Inl (Errorf ''edit %d missing content for operation %s'' [AInt (int i), AStr op])
                         | Some content \<Rightarrow>
                             Inr \<lparr>ed_operation = op, ed_line = trunc_rat lineFloat, ed_hash = hash,
                                  ed_content = content\<rparr>))))
      | _ \<Rightarrow> Inl (Errorf ''edit %d is not an object'' [AInt (int i)]))"

fun parse_edits_from :: "nat \<Rightarrow> json list \<Rightarrow> edit list result" where
  "parse_edits_from i [] = Inr []"
| "parse_edits_from i (raw # raws) =
     (case parse_edit i raw of Inl e \<Rightarrow> Inl e
      | Inr ed \<Rightarrow> (case parse_edits_from (Suc i) raws of Inl e \<Rightarrow> Inl e | Inr eds \<Rightarrow> Inr (ed # eds)))"

definition parseEdits :: "json \<Rightarrow> edit list result" where
  "parseEdits editsRaw =
     (case editsRaw of JArr raws \<Rightarrow> parse_edits_from 0 raws
      | _ \<Rightarrow> Inl (Errorf ''edits must be an array'' []))"

fun validate_from :: "(int \<times> string) list \<Rightarrow> string list \<Rightarrow> int list \<Rightarrow> nat \<Rightarrow> edit list \<Rightarrow> unit result" where
  "validate_from hashMap lines seen i [] = Inr ()"
| "validate_from hashMap lines seen i (e # es) =
     (if ed_line e \<in> set seen
      then Inl (Errorf ''edit %d: duplicate edit on line %d'' [AInt (int i), AInt (ed_line e)])
      else if ed_line e < 1 \<or> ed_line e > int (length lines)
      then Inl (Errorf ''edit %d: line %d out of range (file has %d lines)''
                  [AInt (int i), AInt (ed_line e), AInt (int (length lines))])
      else let actualHash = str_or_empty (map_of hashMap (ed_line e))
           in if actualHash \<noteq> ed_hash e
              then Inl (Errorf ''edit %d: hash mismatch on line %d: expected %s, found %s (content: %q)''
                          [AInt (int i), AInt (ed_line e), AStr (ed_hash e), AStr actualHash,
                           AQuote (lines ! nat (ed_line e - 1))])
              else validate_from hashMap lines (ed_line e # seen) (Suc i) es)"

definition validateEdits :: "edit list \<Rightarrow> string list \<Rightarrow> unit result" where
  "validateEdits edits lines = validate_from (GenerateHashMap lines) lines [] 0 edits"

text \<open>
  One step of \<open>applyEdits\<close>. The run-time panics of an index out of range, of \<open>slices.Delete\<close> and
  of \<open>slices.Insert\<close> are the error \<open>index_panic\<close>.
\<close>

definition index_panic :: go_error where
  "index_panic = Errorf ''panic: index out of range'' []"

definition apply_edit :: "edit \<Rightarrow> string list \<Rightarrow> string list result" where
  "apply_edit e result =
     (let k = ed_line e; n = int (length result)
      in if ed_operation e = ''replace'' then
           (if 1 \<le> k \<and> k \<le> n then Inr (result[nat (k - 1) := ed_content e]) else Inl index_panic)
         else if ed_operation e = ''delete'' then
           (if 1 \<le> k \<and> k \<le> n then Inr (take (nat (k - 1)) result @ drop (nat k) result) else Inl index_panic)
         else if ed_operation e = ''insert_after'' then
           (if 0 \<le> k \<and> k \<le> n then Inr (take (nat k) result @ ed_content e # drop (nat k) result)
            else Inl index_panic)
         else if ed_operation e = ''insert_before'' then
           (if 1 \<le> k \<and> k - 1 \<le> n
            then Inr (take (nat (k - 1)) result @ ed_content e # drop (nat (k - 1)) result)
            else Inl index_panic)
         else Inl (Errorf ''unknown operation: %s'' [AStr (ed_operation e)]))"

fun apply_each :: "edit list \<Rightarrow> string list \<Rightarrow> string list result" where
  "apply_each [] result = Inr result"
| "apply_each (e # es) result =
     (case apply_edit e result of Inl err \<Rightarrow> Inl err | Inr result' \<Rightarrow> apply_each es result')"

text \<open>
  \<open>slices.SortFunc\<close> with \<open>b.line - a.line\<close>; it need not be stable, which cannot be seen for
  validated edits, whose lines differ (\<open>apply_any_sorting\<close> below).
\<close>

definition applyEdits :: "string list \<Rightarrow> edit list \<Rightarrow> string list result" where
  "applyEdits lines edits = apply_each (sort_key (\<lambda>e. - ed_line e) edits) lines"

definition assembleContent :: "string list \<Rightarrow> bool \<Rightarrow> string" where
  "assembleContent lines trailingNewline =
     join [nl] lines @ (if trailingNewline \<and> lines \<noteq> [] then [nl] else [])"

definition read_file_error :: "string \<Rightarrow> go_error \<Rightarrow> go_error" where
  "read_file_error path err =
     (if is_not_exist err then Errorf ''file does not exist: %s'' [AStr path]
      else Errorf ''read file: %w'' [AErr err])"

definition prepareEdits :: "EditFileTool \<Rightarrow> json_object \<Rightarrow> string \<Rightarrow> fs \<Rightarrow> editPlan result" where
  "prepareEdits tool args workingDir s =
     result_bind (validatePath args) (\<lambda>path.
     result_bind (or_error (map_of args ''edits'') (Errorf ''missing edits parameter'' [])) (\<lambda>editsRaw.
     result_bind (parseEdits editsRaw) (\<lambda>edits.
     require (edits \<noteq> []) (Errorf ''edits array is empty'' [])
     (let baseDir = resolveBaseDir workingDir (ef_BaseDir tool);
          fullPath = path_join [baseDir, path] in
     result_bind (map_error (read_file_error path) (os_ReadFile s fullPath)) (\<lambda>data.
     let trailingNewline = (data \<noteq> [] \<and> last data = nl); lines = SplitLines data in
     result_bind (validateEdits edits lines) (\<lambda>_.
     result_bind (applyEdits lines edits) (\<lambda>newLines.
     Inr \<lparr>ep_path = path, ep_fullPath = fullPath, ep_oldLines = lines, ep_newLines = newLines,
          ep_edits = edits, ep_trailingNewline = trailingNewline\<rparr>)))))))"

definition count_operation :: "edit \<Rightarrow> (string \<times> int) list \<Rightarrow> (string \<times> int) list" where
  "count_operation e counts =
     AList.update (ed_operation e)
       ((case map_of counts (ed_operation e) of None \<Rightarrow> 0 | Some n \<Rightarrow> n) + 1) counts"

definition PreviewStructured :: "EditFileTool \<Rightarrow> json_object \<Rightarrow> string \<Rightarrow> fs \<Rightarrow> DiffPreview result" where
  "PreviewStructured tool args workingDir s =
     (case prepareEdits tool args workingDir s of Inl e \<Rightarrow> Inl e
      | Inr plan \<Rightarrow>
          let preview = GenerateStructuredDiffWithHashes (ep_path plan)
                (assembleContent (ep_oldLines plan) (ep_trailingNewline plan))
                (assembleContent (ep_newLines plan) (ep_trailingNewline plan))
                (Some (GenerateHashMap (ep_oldLines plan))) (Some (GenerateHashMap (ep_newLines plan)))
          in Inr (preview\<lparr>dp_Summary := (dp_Summary preview)
                   \<lparr>ds_Operations := fold count_operation (ep_edits plan) [],
                    ds_TotalEdits := int (length (ep_edits plan))\<rparr>\<rparr>))"

definition edit_file_Execute :: "EditFileTool \<Rightarrow> json_object \<Rightarrow> string \<Rightarrow> fs \<Rightarrow> string result \<times> fs" where
  "edit_file_Execute tool args workingDir s =
     (case prepareEdits tool args workingDir s of Inl e \<Rightarrow> (Inl e, s)
      | Inr plan \<Rightarrow>
          let newContent = assembleContent (ep_newLines plan) (ep_trailingNewline plan)
          in if ef_MaxSizeBytes tool > 0 \<and> int (length newContent) > ef_MaxSizeBytes tool
             then (Inl (Errorf ''result would exceed maximum file size of %d bytes'' [AInt (ef_MaxSizeBytes tool)]), s)
             else (case os_WriteFile s (ep_fullPath plan) newContent of
                     Inl err \<Rightarrow> (Inl (Errorf ''write file: %w'' [AErr err]), s)
                   | Inr s' \<Rightarrow>
                       (Inr (sprintf ''Applied %d edit(s) to %s''
                               [itoa (int (length (ep_edits plan))), ep_path plan]), s')))"

section \<open>Validation\<close>

definition fits :: "string list \<Rightarrow> edit \<Rightarrow> bool" where
  "fits lines e \<longleftrightarrow> 1 \<le> ed_line e \<and> ed_line e \<le> int (length lines) \<and>
     ed_hash e = ComputeLineHash (lines ! nat (ed_line e - 1))"

lemma validate_from_ok:
  "validate_from (GenerateHashMap lines) lines seen i es = Inr () \<longleftrightarrow>
     list_all (fits lines) es \<and> distinct (map ed_line es) \<and> set (map ed_line es) \<inter> set seen = {}"
  by (induction es arbitrary: seen i)
    (auto simp: fits_def GenerateHashMap_lookup Let_def str_or_empty_def)

lemma parse_edits_from_length: "parse_edits_from i raws = Inr edits \<Longrightarrow> length edits = length raws"
  by (induction raws arbitrary: i edits) (auto split: sum.splits)

lemma parse_edit_operation: "parse_edit i raw = Inr e \<Longrightarrow> valid_operation (ed_operation e)"
  by (cases raw) (auto simp: parse_edit_def split: option.splits if_splits)

lemma parse_edits_from_operations:
  "parse_edits_from i raws = Inr edits \<Longrightarrow> list_all (\<lambda>e. valid_operation (ed_operation e)) edits"
  by (induction raws arbitrary: i edits) (auto split: sum.splits dest: parse_edit_operation)

section \<open>Applying\<close>

text \<open>What an edit makes of the one line it names.\<close>

definition edited_line :: "edit \<Rightarrow> string \<Rightarrow> string list" where
  "edited_line e l =
     (if ed_operation e = ''replace'' then [ed_content e]
      else if ed_operation e = ''delete'' then []
      else if ed_operation e = ''insert_after'' then [l, ed_content e]
      else [ed_content e, l])"

definition edited_at :: "edit list \<Rightarrow> nat \<Rightarrow> string \<Rightarrow> string list" where
  "edited_at es i l = (case find (\<lambda>e. ed_line e = int i + 1) es of None \<Rightarrow> [l] | Some e \<Rightarrow> edited_line e l)"

definition edited_lines :: "edit list \<Rightarrow> string list \<Rightarrow> string list" where
  "edited_lines es lines = concat (map (\<lambda>(i, l). edited_at es i l) (enumerate 0 lines))"

lemma apply_edit_inside:
  assumes "1 \<le> ed_line e" and "ed_line e \<le> int p" and "p \<le> length lines" and "valid_operation (ed_operation e)"
  defines "k \<equiv> nat (ed_line e - 1)"
  shows "apply_edit e (take p lines @ rest) =
    Inr (take k lines @ edited_line e (lines ! k) @ span_of lines (Suc k) p @ rest)"
proof -
  have k: "k < p" "k < length lines" "nat (ed_line e) = Suc k" "ed_line e = int k + 1"
    using assms by (simp_all add: k_def)
  have cut: "take p lines = take k lines @ lines ! k # span_of lines (Suc k) p"
    using k(1) assms(3) id_take_nth_drop [of k "take p lines"]
    by (simp add: span_of_def drop_take min_def)
  have len: "min (length lines) k = k" and suc: "nat (int k + 1) - k = Suc 0" using k by simp_all
  show ?thesis
    using assms(4) len
    by (auto simp: apply_edit_def edited_line_def valid_operation_def cut k(4) list_update_append Let_def suc)
qed

lemma edited_at_skip:
  "ed_line e \<noteq> int i + 1 \<Longrightarrow> edited_at (e # es) i l = edited_at es i l"
  by (simp add: edited_at_def)

lemma edited_at_none: "\<forall>e \<in> set es. ed_line e \<noteq> int i + 1 \<Longrightarrow> edited_at es i l = [l]"
proof -
  assume "\<forall>e \<in> set es. ed_line e \<noteq> int i + 1"
  then have "find (\<lambda>e. ed_line e = int i + 1) es = None" by (simp add: find_None_iff)
  then show ?thesis by (simp add: edited_at_def)
qed

definition edited_upto :: "edit list \<Rightarrow> string list \<Rightarrow> nat \<Rightarrow> string list" where
  "edited_upto es lines p = concat (map (\<lambda>i. edited_at es i (lines ! i)) [0..<p])"

lemma edited_upto_all: "edited_upto es lines (length lines) = edited_lines es lines"
proof -
  have "map (\<lambda>i. edited_at es i (lines ! i)) [0..<length lines] = map (\<lambda>(i, l). edited_at es i l) (enumerate 0 lines)"
    by (rule nth_equalityI) (auto simp: nth_enumerate_eq)
  then show ?thesis by (simp only: edited_upto_def edited_lines_def)
qed

lemma apply_each_descending:
  "sorted_wrt (\<lambda>a b. ed_line b < ed_line a) es \<Longrightarrow>
   \<forall>e \<in> set es. 1 \<le> ed_line e \<and> ed_line e \<le> int p \<and> valid_operation (ed_operation e) \<Longrightarrow> p \<le> length lines \<Longrightarrow>
     apply_each es (take p lines @ rest) = Inr (edited_upto es lines p @ rest)"
proof (induction es arbitrary: p rest)
  case Nil
  have "edited_upto [] lines p = take p lines"
    using Nil.prems(3) by (simp add: edited_upto_def edited_at_def concat_map_singleton map_nth_span [of p lines 0, unfolded span_of_def, simplified])
  then show ?case by simp
next
  case (Cons e es)
  define k where "k = nat (ed_line e - 1)"
  have e: "1 \<le> ed_line e" "ed_line e \<le> int p" using Cons.prems(2) by simp_all
  then have k: "k < p" "ed_line e = int k + 1" unfolding k_def by linarith+
  have below: "\<forall>d \<in> set es. 1 \<le> ed_line d \<and> ed_line d \<le> int k \<and> valid_operation (ed_operation d)"
    using Cons.prems k(2) by auto
  let ?rest = "edited_line e (lines ! k) @ span_of lines (Suc k) p @ rest"
  have step: "apply_edit e (take p lines @ rest) = Inr (take k lines @ ?rest)"
    using Cons.prems unfolding k_def by (intro apply_edit_inside) auto
  have "apply_each es (take k lines @ ?rest) = Inr (edited_upto es lines k @ ?rest)"
    using Cons.prems k(1) below by (intro Cons.IH) auto
  moreover have "edited_upto (e # es) lines p = edited_upto es lines k @ edited_line e (lines ! k) @ span_of lines (Suc k) p"
  proof -
    have idx: "[0..<p] = [0..<k] @ k # [Suc k..<p]"
      using k(1) upt_add_eq_append [of 0 k "p - k"] by (simp add: upt_conv_Cons)
    have low: "map (\<lambda>i. edited_at (e # es) i (lines ! i)) [0..<k] = map (\<lambda>i. edited_at es i (lines ! i)) [0..<k]"
      using k(2) by (auto intro!: edited_at_skip)
    have high: "map (\<lambda>i. edited_at (e # es) i (lines ! i)) [Suc k..<p] = map (\<lambda>i. [lines ! i]) [Suc k..<p]"
    proof -
      have "ed_line d \<noteq> int i + 1" if "d \<in> set (e # es)" and "Suc k \<le> i" for d i
        using below k(2) that by (cases "d = e") force+
      then show ?thesis by (auto intro!: edited_at_none)
    qed
    have at: "edited_at (e # es) k (lines ! k) = edited_line e (lines ! k)"
      using k(2) by (simp add: edited_at_def)
    show ?thesis
      using Cons.prems(3) by (simp add: edited_upto_def idx low high at map_nth_span)
  qed
  ultimately show ?case using step by simp
qed

lemma find_distinct_perm:
  assumes "mset es = mset es'" and "distinct (map f es)"
  shows "find (\<lambda>e. f e = v) es = find (\<lambda>e. f e = v) es'"
proof -
  have char: "find (\<lambda>e. f e = v) xs = Some e \<longleftrightarrow> e \<in> set xs \<and> f e = v" if "distinct (map f xs)" for xs e
    using that by (induction xs) auto
  have "distinct (map f es')"
    using assms by (metis distinct_map mset_eq_setD mset_eq_imp_distinct_iff)
  moreover have "set es = set es'" using assms(1) by (rule mset_eq_setD)
  ultimately show ?thesis
    using char [OF assms(2)] char [of es'] by (metis not_Some_eq)
qed

lemma descending_strict:
  assumes "sorted_wrt (\<lambda>a b. ed_line b \<le> ed_line a) es" and "distinct (map ed_line es)"
  shows "sorted_wrt (\<lambda>a b. ed_line b < ed_line a) es"
  using assms
proof (induction es)
  case (Cons e es)
  have "ed_line d < ed_line e" if "d \<in> set es" for d
  proof -
    have "ed_line d \<le> ed_line e" "ed_line d \<noteq> ed_line e" using Cons.prems that by (auto simp: image_iff)
    then show ?thesis by linarith
  qed
  then show ?case using Cons by simp
qed simp

text \<open>Any sorting by descending line, stable or not, gives the line-by-line result.\<close>

lemma apply_any_sorting:
  assumes "list_all (fits lines) es" and "distinct (map ed_line es)"
    and "list_all (\<lambda>e. valid_operation (ed_operation e)) es"
    and "mset sorted_es = mset es" and "sorted_wrt (\<lambda>a b. ed_line b \<le> ed_line a) sorted_es"
  shows "apply_each sorted_es lines = Inr (edited_lines es lines)"
proof -
  have "distinct (map ed_line sorted_es)"
    using assms(2,4) by (metis distinct_map mset_eq_setD mset_eq_imp_distinct_iff)
  then have strict: "sorted_wrt (\<lambda>a b. ed_line b < ed_line a) sorted_es"
    using assms(5) descending_strict by blast
  have "\<forall>e \<in> set sorted_es. 1 \<le> ed_line e \<and> ed_line e \<le> int (length lines) \<and> valid_operation (ed_operation e)"
    using assms(1,3) mset_eq_setD [OF assms(4)] by (auto simp: fits_def list_all_iff)
  from apply_each_descending [OF strict this, of lines "[]"]
  have "apply_each sorted_es lines = Inr (edited_lines sorted_es lines)"
    by (simp add: edited_upto_all)
  also have "edited_lines sorted_es lines = edited_lines es lines"
    using find_distinct_perm [OF assms(4) \<open>distinct (map ed_line sorted_es)\<close>]
    by (simp add: edited_lines_def edited_at_def [abs_def])
  finally show ?thesis .
qed

lemma applyEdits_spec:
  assumes "list_all (fits lines) es" and "distinct (map ed_line es)"
    and "list_all (\<lambda>e. valid_operation (ed_operation e)) es"
  shows "applyEdits lines es = Inr (edited_lines es lines)"
  unfolding applyEdits_def
  by (rule apply_any_sorting [OF assms mset_sort sort_key_descending])

section \<open>From one call to the file\<close>

lemma SplitLines_Nil [simp]: "SplitLines s = [] \<longleftrightarrow> s = []"
proof (cases "s = []")
  case False
  have "split_byte nl s \<noteq> [[]]" using False join_split_byte [of nl s] by (metis join.simps(2))
  then show ?thesis using False by (cases "split_byte nl s" rule: rev_cases) (auto simp: SplitLines_def Let_def)
qed (simp add: SplitLines_def)

lemma assemble_SplitLines: "assembleContent (SplitLines d) (d \<noteq> [] \<and> last d = nl) = d"
  using join_SplitLines [of d] by (cases "d = []") (simp_all add: assembleContent_def)

lemma prepareEdits_Inr:
  assumes "prepareEdits tool args workingDir s = Inr plan"
  obtains data where "os_ReadFile s (ep_fullPath plan) = Inr data"
    and "ep_oldLines plan = SplitLines data"
    and "ep_trailingNewline plan = (data \<noteq> [] \<and> last data = nl)"
    and "list_all (fits (SplitLines data)) (ep_edits plan)" and "distinct (map ed_line (ep_edits plan))"
    and "ep_edits plan \<noteq> []" and "list_all (\<lambda>e. valid_operation (ed_operation e)) (ep_edits plan)"
    and "ep_newLines plan = edited_lines (ep_edits plan) (SplitLines data)"
    and "validatePath args = Inr (ep_path plan)"
    and "result_bind (or_error (map_of args ''edits'') (Errorf ''missing edits parameter'' [])) parseEdits = Inr (ep_edits plan)"
    and "ep_fullPath plan = path_join [resolveBaseDir workingDir (ef_BaseDir tool), ep_path plan]"
proof -
  obtain path raws edits data newLines where
    p: "validatePath args = Inr path" "parseEdits raws = Inr edits" "edits \<noteq> []"
      "os_ReadFile s (path_join [resolveBaseDir workingDir (ef_BaseDir tool), path]) = Inr data"
      "validateEdits edits (SplitLines data) = Inr ()" "applyEdits (SplitLines data) edits = Inr newLines"
    and raws: "map_of args ''edits'' = Some raws" and plan: "plan = \<lparr>ep_path = path, ep_fullPath = path_join [resolveBaseDir workingDir (ef_BaseDir tool), path],
      ep_oldLines = SplitLines data, ep_newLines = newLines, ep_edits = edits,
      ep_trailingNewline = (data \<noteq> [] \<and> last data = nl)\<rparr>"
    using assms by (auto simp: prepareEdits_def Let_def result_simps)
  have ops: "list_all (\<lambda>e. valid_operation (ed_operation e)) edits"
    using p(2) parse_edits_from_operations by (auto simp: parseEdits_def split: json.splits)
  have ok: "list_all (fits (SplitLines data)) edits" "distinct (map ed_line edits)"
    using p(5) by (simp_all add: validateEdits_def validate_from_ok)
  have "newLines = edited_lines edits (SplitLines data)"
    using applyEdits_spec [OF ok ops] p(6) by simp
  with p(1,3,4) ok ops plan show thesis
    by (intro that [of data]) (simp_all add: raws p(2) or_error_def)
qed

lemma execute_Inr:
  "edit_file_Execute tool args workingDir s = (Inr out, s') \<longleftrightarrow>
     (\<exists>plan. prepareEdits tool args workingDir s = Inr plan \<and>
       (let content = assembleContent (ep_newLines plan) (ep_trailingNewline plan)
        in (ef_MaxSizeBytes tool \<le> 0 \<or> int (length content) \<le> ef_MaxSizeBytes tool) \<and>
           os_WriteFile s (ep_fullPath plan) content = Inr s' \<and>
           out = sprintf ''Applied %d edit(s) to %s'' [itoa (int (length (ep_edits plan))), ep_path plan]))"
  by (auto simp: edit_file_Execute_def Let_def split: sum.splits)

section \<open>Properties\<close>

text \<open>
  C35: \<open>validateEdits\<close> accepts exactly the edit lists whose lines are pairwise different, inside
  the file, and whose hashes are the hashes of the lines they name in the file as it is now; a
  stale hash on any edit refuses the whole list.
\<close>

theorem validateEdits_exact:
  "validateEdits edits lines = Inr () \<longleftrightarrow>
     list_all (fits lines) edits \<and> distinct (map ed_line edits)"
  by (simp add: validateEdits_def validate_from_ok)

text \<open>
  C9: validated edits are applied atomically and independently: whatever way the edits are
  sorted by descending line, no step panics, every line of the file is replaced, deleted or
  extended by the one edit that names it, and all other lines stay in their order.
\<close>

theorem applyEdits_linewise:
  assumes "validateEdits edits lines = Inr ()"
    and "list_all (\<lambda>e. valid_operation (ed_operation e)) edits"
    and "mset sorted_edits = mset edits" and "sorted_wrt (\<lambda>a b. ed_line b \<le> ed_line a) sorted_edits"
  shows "apply_each sorted_edits lines = Inr (edited_lines edits lines) \<and>
    applyEdits lines edits = Inr (edited_lines edits lines)"
  using assms apply_any_sorting applyEdits_spec by (simp add: validateEdits_def validate_from_ok)

definition sample_edits :: "edit list" where
  "sample_edits =
     [\<lparr>ed_operation = ''insert_after'', ed_line = 1, ed_hash = ComputeLineHash ''a'', ed_content = ''x''\<rparr>,
      \<lparr>ed_operation = ''delete'', ed_line = 3, ed_hash = ComputeLineHash ''c'', ed_content = []\<rparr>,
      \<lparr>ed_operation = ''replace'', ed_line = 2, ed_hash = ComputeLineHash ''b'', ed_content = ''y''\<rparr>]"

theorem applyEdits_linewise_witness:
  "applyEdits [''a'', ''b'', ''c'', ''d''] sample_edits = Inr [''a'', ''x'', ''y'', ''d'']"
proof -
  have ops: "list_all (\<lambda>e. valid_operation (ed_operation e)) sample_edits"
    and lines: "distinct (map ed_line sample_edits)"
    and spec: "edited_lines sample_edits [''a'', ''b'', ''c'', ''d''] = [''a'', ''x'', ''y'', ''d'']"
    by (simp_all add: sample_edits_def valid_operation_def edited_lines_def edited_at_def edited_line_def)
  have "validateEdits sample_edits [''a'', ''b'', ''c'', ''d''] = Inr ()"
    unfolding validateEdits_def validate_from_ok by (simp add: sample_edits_def fits_def)
  moreover have "sorted_wrt (\<lambda>a b. ed_line b \<le> ed_line a) (sort_key (\<lambda>e. - ed_line e) sample_edits)"
    by (rule sort_key_descending)
  ultimately have "applyEdits [''a'', ''b'', ''c'', ''d''] sample_edits = Inr (edited_lines sample_edits [''a'', ''b'', ''c'', ''d''])"
    using applyEdits_linewise [OF _ ops mset_sort] by blast
  then show ?thesis using spec by simp
qed

text \<open>
  C6: a successful call of \<open>edit_file\<close> changes exactly one file, below the base directory: its
  lines become the line-by-line result of the edits, its final newline is kept, and every edit
  carried the current hash of its line.
\<close>

theorem edit_file_effect:
  assumes "edit_file_Execute tool args workingDir s = (Inr out, s')"
  shows "\<exists>path raws edits data.
    validatePath args = Inr path \<and> map_of args ''edits'' = Some raws \<and> parseEdits raws = Inr edits \<and> edits \<noteq> [] \<and>
    os_ReadFile s (path_join [resolveBaseDir workingDir (ef_BaseDir tool), path]) = Inr data \<and>
    list_all (fits (SplitLines data)) edits \<and> distinct (map ed_line edits) \<and>
    s' = put_node (path_join [resolveBaseDir workingDir (ef_BaseDir tool), path])
      (FileNode (assembleContent (edited_lines edits (SplitLines data)) (data \<noteq> [] \<and> last data = nl))) s"
proof -
  from assms obtain plan where plan: "prepareEdits tool args workingDir s = Inr plan"
    and wr: "os_WriteFile s (ep_fullPath plan) (assembleContent (ep_newLines plan) (ep_trailingNewline plan)) = Inr s'"
    by (auto simp: execute_Inr Let_def)
  obtain data where p: "os_ReadFile s (ep_fullPath plan) = Inr data"
    "ep_trailingNewline plan = (data \<noteq> [] \<and> last data = nl)" "ep_edits plan \<noteq> []"
    "list_all (fits (SplitLines data)) (ep_edits plan)" "distinct (map ed_line (ep_edits plan))"
    "ep_newLines plan = edited_lines (ep_edits plan) (SplitLines data)" "validatePath args = Inr (ep_path plan)"
    "ep_fullPath plan = path_join [resolveBaseDir workingDir (ef_BaseDir tool), ep_path plan]"
    and bind: "result_bind (or_error (map_of args ''edits'') (Errorf ''missing edits parameter'' [])) parseEdits = Inr (ep_edits plan)"
    using prepareEdits_Inr [OF plan] by metis
  from bind obtain raws where raws: "map_of args ''edits'' = Some raws" "parseEdits raws = Inr (ep_edits plan)"
    by (auto simp: result_simps)
  have "s' = put_node (ep_fullPath plan) (FileNode (assembleContent (ep_newLines plan) (ep_trailingNewline plan))) s"
    using os_WriteFile_ok [OF wr] .
  with p raws show ?thesis
    by (intro exI [of _ "ep_path plan"] exI [of _ raws] exI [of _ "ep_edits plan"] exI [of _ data]) simp
qed


text \<open>A call on a file of two lines, for the witnesses: line 2 is replaced, and then the same with a stale hash.\<close>

definition sample_fs :: fs where
  "sample_fs = \<lparr>nodes = [(''/w'', DirNode), (''/w/a.txt'', FileNode (''one'' @ nl # ''two'' @ [nl]))],
                faults = []\<rparr>"

definition sample_tool :: EditFileTool where
  "sample_tool = \<lparr>ef_BaseDir = ''/w'', ef_MaxSizeBytes = 100\<rparr>"

definition sample_args :: "string \<Rightarrow> json_object" where
  "sample_args hash =
     [(''path'', JStr ''a.txt''),
      (''edits'', JArr [JObj [(''operation'', JStr ''replace''), (''line'', JNum 2), (''hash'', JStr hash),
                              (''content'', JStr ''deux'')]])]"

definition sample_edit :: "string \<Rightarrow> edit" where
  "sample_edit hash = \<lparr>ed_operation = ''replace'', ed_line = 2, ed_hash = hash, ed_content = ''deux''\<rparr>"

lemma sample_parts:
  "validatePath (sample_args hash) = Inr ''a.txt''"
  "parseEdits (JArr [JObj [(''operation'', JStr ''replace''), (''line'', JNum 2), (''hash'', JStr hash),
     (''content'', JStr ''deux'')]]) = Inr [sample_edit hash]"
  "path_join [''/w'', ''a.txt''] = ''/w/a.txt''"
  "os_ReadFile sample_fs ''/w/a.txt'' = Inr (''one'' @ nl # ''two'' @ [nl])"
  "SplitLines (''one'' @ nl # ''two'' @ [nl]) = [''one'', ''two'']"
proof -
  have safe: "isRelativePathSafe ''a.txt''" by code_simp
  show "validatePath (sample_args hash) = Inr ''a.txt''"
    by (simp add: validatePath_def getStringArg_def sample_args_def safe)
  show "parseEdits (JArr [JObj [(''operation'', JStr ''replace''), (''line'', JNum 2), (''hash'', JStr hash),
     (''content'', JStr ''deux'')]]) = Inr [sample_edit hash]"
    by (simp add: parseEdits_def parse_edit_def valid_operation_def trunc_rat_def sample_edit_def)
qed code_simp+

lemma sample_prepare:
  "prepareEdits sample_tool (sample_args hash) [] sample_fs =
     (if hash = ComputeLineHash ''two''
      then Inr \<lparr>ep_path = ''a.txt'', ep_fullPath = ''/w/a.txt'', ep_oldLines = [''one'', ''two''],
                ep_newLines = [''one'', ''deux''], ep_edits = [sample_edit hash], ep_trailingNewline = True\<rparr>
      else Inl (Errorf ''edit %d: hash mismatch on line %d: expected %s, found %s (content: %q)''
                  [AInt 0, AInt 2, AStr hash, AStr (ComputeLineHash ''two''), AQuote ''two'']))"
proof -
  have "validateEdits [sample_edit hash] [''one'', ''two''] =
     (if hash = ComputeLineHash ''two'' then Inr ()
      else Inl (Errorf ''edit %d: hash mismatch on line %d: expected %s, found %s (content: %q)''
                  [AInt 0, AInt 2, AStr hash, AStr (ComputeLineHash ''two''), AQuote ''two'']))"
    by (simp add: validateEdits_def sample_edit_def GenerateHashMap_lookup str_or_empty_def Let_def)
  moreover have "applyEdits [''one'', ''two''] [sample_edit hash] = Inr [''one'', ''deux'']"
    by (simp add: applyEdits_def apply_edit_def sample_edit_def Let_def)
  moreover have "map_of (sample_args hash) ''edits'' =
      Some (JArr [JObj [(''operation'', JStr ''replace''), (''line'', JNum 2), (''hash'', JStr hash),
     (''content'', JStr ''deux'')]])" by (simp add: sample_args_def)
  ultimately show ?thesis
    using sample_parts
    by (simp add: prepareEdits_def sample_tool_def resolveBaseDir_def or_error_def require_def map_error_def Let_def)
qed

lemma sample_execute:
  "edit_file_Execute sample_tool (sample_args (ComputeLineHash ''two'')) [] sample_fs =
     (Inr ''Applied 1 edit(s) to a.txt'',
      put_node ''/w/a.txt'' (FileNode (''one'' @ nl # ''deux'' @ [nl])) sample_fs)"
proof -
  have "os_WriteFile sample_fs ''/w/a.txt'' (assembleContent [''one'', ''deux''] True) =
      Inr (put_node ''/w/a.txt'' (FileNode (''one'' @ nl # ''deux'' @ [nl])) sample_fs)"
    by code_simp
  moreover have "itoa 1 = ''1''" "length (assembleContent [''one'', ''deux''] True) = 9" by code_simp+
  ultimately show ?thesis
    by (simp add: edit_file_Execute_def sample_prepare Let_def) (simp add: sample_tool_def)
qed

theorem edit_file_effect_witness:
  "\<exists>path raws edits data.
    validatePath (sample_args (ComputeLineHash ''two'')) = Inr path \<and>
    map_of (sample_args (ComputeLineHash ''two'')) ''edits'' = Some raws \<and> parseEdits raws = Inr edits \<and>
    edits \<noteq> [] \<and> os_ReadFile sample_fs (path_join [''/w'', path]) = Inr data \<and>
    put_node ''/w/a.txt'' (FileNode (''one'' @ nl # ''deux'' @ [nl])) sample_fs =
      put_node (path_join [''/w'', path])
        (FileNode (assembleContent (edited_lines edits (SplitLines data)) (data \<noteq> [] \<and> last data = nl))) sample_fs"
proof -
  have "resolveBaseDir [] (ef_BaseDir sample_tool) = ''/w''" by code_simp
  then show ?thesis using edit_file_effect [OF sample_execute] by metis
qed


text \<open>
  What is previewed is what is written: on the same files, the preview of a call that will
  succeed is a patch from the lines of the file as it is to the lines of the file the call
  writes, and it is labelled with the number of edits.
\<close>

theorem edit_preview_is_effect:
  assumes "edit_file_Execute tool args workingDir s = (Inr out, s')"
  shows "\<exists>path data content preview.
    os_ReadFile s path = Inr data \<and> s' = put_node path (FileNode content) s \<and>
    PreviewStructured tool args workingDir s = Inr preview \<and>
    apply_blocks (SplitLines data) 0 (dp_Blocks preview) = SplitLines content"
proof -
  from assms obtain plan where plan: "prepareEdits tool args workingDir s = Inr plan"
    and wr: "os_WriteFile s (ep_fullPath plan) (assembleContent (ep_newLines plan) (ep_trailingNewline plan)) = Inr s'"
    by (auto simp: execute_Inr Let_def)
  obtain data where p: "os_ReadFile s (ep_fullPath plan) = Inr data" "ep_oldLines plan = SplitLines data"
    "ep_trailingNewline plan = (data \<noteq> [] \<and> last data = nl)"
    using prepareEdits_Inr [OF plan] by metis
  let ?content = "assembleContent (ep_newLines plan) (ep_trailingNewline plan)"
  have old: "assembleContent (ep_oldLines plan) (ep_trailingNewline plan) = data"
    using assemble_SplitLines by (simp add: p)
  obtain preview where "PreviewStructured tool args workingDir s = Inr preview"
    "dp_Blocks preview = dp_Blocks (GenerateStructuredDiffWithHashes (ep_path plan) data ?content
       (Some (GenerateHashMap (ep_oldLines plan))) (Some (GenerateHashMap (ep_newLines plan))))"
    by (simp add: PreviewStructured_def plan old Let_def)
  then show ?thesis using p(1) os_WriteFile_ok [OF wr] blocks_applied by metis
qed

theorem edit_preview_is_effect_witness:
  "\<exists>preview. PreviewStructured sample_tool (sample_args (ComputeLineHash ''two'')) [] sample_fs = Inr preview \<and>
     (\<exists>path data content. os_ReadFile sample_fs path = Inr data \<and>
        put_node ''/w/a.txt'' (FileNode (''one'' @ nl # ''deux'' @ [nl])) sample_fs = put_node path (FileNode content) sample_fs \<and>
        apply_blocks (SplitLines data) 0 (dp_Blocks preview) = SplitLines content)"
  using edit_preview_is_effect [OF sample_execute] by blast

text \<open>
  The hashes of a preview are looked up by the index of the assembled text's lines in the map of
  the edited line list. With a content of several lines the two differ: the new lines get the
  hashes of other lines.
\<close>

lemma multiline_content_shifts_hashes:
  "map (\<lambda>l. (dl_Content l, dl_Hash l))
     (filter (\<lambda>l. dl_Type l = ''insert'')
       (db_Lines (hd (dp_Blocks (GenerateStructuredDiffWithHashes ''f'' ''a''
          (assembleContent [''a'', ''x'' @ nl # ''y'', ''b''] False) None (Some [(1, h1), (2, h2), (3, h3)]))))))
   = [(''x'', Some h2), (''y'', Some h3), (''b'', None)]"
  by code_simp

end
