(* ===== verification/FileTools.thy ===== *)
theory FileTools
  imports EditFile
begin

text \<open>
  internal/tool/builtin/read_file.go and write_file.go. Reading goes through \<open>bufio.Scanner\<close>:
  lines without their newline and without one carriage return before it, and an error on a line
  of 64 KiB or more. The lemmas show what a read prints, that the hashes it prints are the ones
  \<open>edit_file\<close> asks for unless the file has carriage returns, and what a write leaves behind.
\<close>

section \<open>read\_file\<close>

definition maxLinesDefault :: nat where
  "maxLinesDefault = 10000"

definition MaxScanTokenSize :: nat where
  "MaxScanTokenSize = 65536"

definition drop_cr :: "string \<Rightarrow> string" where
  "drop_cr line = (if line \<noteq> [] \<and> last line = CHR 0x0D then butlast line else line)"

text \<open>
  The scan loop, over the lines that are left, with the lines kept so far (last first) and the
  hash map; the result also holds the number of lines scanned.
\<close>

fun scan_range ::
  "int \<Rightarrow> int option \<Rightarrow> int \<Rightarrow> string list \<Rightarrow> (int \<times> string) list \<Rightarrow> string list
     \<Rightarrow> (string list \<times> (int \<times> string) list \<times> int) result" where
  "scan_range startLine endLine lineNum lines hashMap [] = Inr (rev lines, hashMap, lineNum)"
| "scan_range startLine endLine lineNum lines hashMap (raw # raws) =
     (if MaxScanTokenSize \<le> length raw
      then Inl (Errorf ''scan file: %w'' [AErr (Errorf ''bufio.Scanner: token too long'' [])])
      else let lineNum' = lineNum + 1
           in if lineNum' < startLine then scan_range startLine endLine lineNum' lines hashMap raws
              else if (case endLine of None \<Rightarrow> False | Some e \<Rightarrow> lineNum' > e)
              then Inr (rev lines, hashMap, lineNum')
              else let line = drop_cr raw; lines' = line # lines
                   in if endLine = None \<and> maxLinesDefault \<le> length lines'
                      then Inl (Errorf ''file has more than %d lines; specify start_line and end_line to read a range''
                                  [AInt (int maxLinesDefault)])
                      else scan_range startLine endLine lineNum' lines' ((lineNum', ComputeLineHash line) # hashMap) raws)"

text \<open>\<open>%*d\<close>: the number, padded with spaces on the left.\<close>

definition pad_int :: "nat \<Rightarrow> int \<Rightarrow> string" where
  "pad_int width n = replicate (width - length (itoa n)) (CHR '' '') @ itoa n"

definition formatWithLineNumbers :: "string list \<Rightarrow> int \<Rightarrow> (int \<times> string) list \<Rightarrow> string" where
  "formatWithLineNumbers lines startLine hashMap =
     (let maxLineNum = startLine + int (length lines) - 1; width = length (itoa maxLineNum)
      in trim_suffix
           (concat (map (\<lambda>(i, line).
              let lineNum = startLine + int i; hash = str_or_empty (map_of hashMap lineNum)
              in pad_int width lineNum @ CHR '':'' # hash @ CHR ''|'' # line @ [nl])
            (enumerate 0 lines))) [nl])"

text \<open>\<open>os.Open\<close> also opens a directory; the first read of the scanner then fails.\<close>

definition open_for_scan :: "fs \<Rightarrow> string \<Rightarrow> string result" where
  "open_for_scan s p =
     (case os_ReadFile s p of
        Inr data \<Rightarrow> Inr data
      | Inl err \<Rightarrow>
          (if fault s ''open'' p = None \<and> lookup s p = Some DirNode
           then Inl (Errorf ''scan file: %w'' [AErr err]) else Inl (Errorf ''open file: %w'' [AErr err])))"

definition read_file_Execute :: "string \<Rightarrow> json_object \<Rightarrow> string \<Rightarrow> fs \<Rightarrow> string result" where
  "read_file_Execute BaseDir args workingDir s =
     result_bind (validatePath args) (\<lambda>path.
     let given = (case getIntArg ''start_line'' args of None \<Rightarrow> 0 | Some n \<Rightarrow> n);
         startLine = (if given \<le> 0 then 1 else given);
         endLine = getIntArg ''end_line'' args in
     require (\<not> (case endLine of None \<Rightarrow> False | Some e \<Rightarrow> startLine > e))
       (Errorf ''no lines in range %d-%d'' [AInt startLine, AInt (case endLine of None \<Rightarrow> 0 | Some e \<Rightarrow> e)])
     (let baseDir = resolveBaseDir workingDir BaseDir; fullPath = path_join [baseDir, path] in
     result_bind (open_for_scan s fullPath) (\<lambda>data.
     result_bind (scan_range startLine endLine 0 [] [] (SplitLines data)) (\<lambda>(lines, hashMap, lineNum).
     require (lines \<noteq> [])
       (Errorf ''no lines starting from line %d (file has %d lines)'' [AInt startLine, AInt lineNum])
     (Inr (formatWithLineNumbers lines startLine hashMap))))))"

section \<open>write\_file\<close>

definition maxPreviewLines :: nat where
  "maxPreviewLines = 50"

record WriteFileTool =
  wf_BaseDir :: string
  wf_MaxSizeBytes :: int

definition write_file_Preview :: "WriteFileTool \<Rightarrow> json_object \<Rightarrow> string \<Rightarrow> fs \<Rightarrow> string result" where
  "write_file_Preview tool args workingDir s =
     (case validatePath args of Inl _ \<Rightarrow> Inr []
      | Inr path \<Rightarrow>
     (case getStringArg ''content'' args of None \<Rightarrow> Inr []
      | Some content \<Rightarrow>
          let fullPath = path_join [resolveBaseDir workingDir (wf_BaseDir tool), path]
          in (case os_ReadFile s fullPath of
                Inl err \<Rightarrow> (if is_not_exist err then Inr (GenerateNewFileDiff path content maxPreviewLines) else Inr [])
              | Inr existingData \<Rightarrow> Inr (GenerateUnifiedDiff path existingData content))))"

definition write_file_Execute :: "WriteFileTool \<Rightarrow> json_object \<Rightarrow> string \<Rightarrow> fs \<Rightarrow> string result \<times> fs" where
  "write_file_Execute tool args workingDir s =
     (case validatePath args of Inl e \<Rightarrow> (Inl e, s)
      | Inr path \<Rightarrow>
     (case getStringArg ''content'' args of None \<Rightarrow> (Inl (Errorf ''missing content'' []), s)
      | Some content \<Rightarrow>
          if wf_MaxSizeBytes tool > 0 \<and> int (length content) > wf_MaxSizeBytes tool
          then (Inl (Errorf ''content exceeds maximum size of %d bytes'' [AInt (wf_MaxSizeBytes tool)]), s)
          else let fullPath = path_join [resolveBaseDir workingDir (wf_BaseDir tool), path];
                   parentDir = path_dir fullPath
               in (case os_MkdirAll s parentDir of
                     (Inl err, s1) \<Rightarrow> (Inl (Errorf ''failed to create directory: %w'' [AErr err]), s1)
                   | (Inr _, s1) \<Rightarrow>
                       (case os_WriteFile s1 fullPath content of
                          Inl err \<Rightarrow> (Inl (Errorf ''write file: %w'' [AErr err]), s1)
                        | Inr s2 \<Rightarrow>
                            (Inr (sprintf ''Successfully wrote %d bytes to %s''
                                    [itoa (int (length content)), path]), s2)))))"

section \<open>What a read prints\<close>

definition last_line :: "int option \<Rightarrow> int \<Rightarrow> string list \<Rightarrow> nat" where
  "last_line endLine lineNum raws =
     (case endLine of None \<Rightarrow> length raws | Some e \<Rightarrow> min (nat (e - lineNum)) (length raws))"

lemma scan_range_result:
  assumes "scan_range st en pos acc hm raws = Inr (ls, hm', n)" and "1 \<le> st" and "0 \<le> pos"
    and "case en of None \<Rightarrow> True | Some e \<Rightarrow> st \<le> e"
  shows "ls = rev acc @ map drop_cr (drop (nat (st - 1 - pos)) (take (last_line en pos raws) raws))"
    and "map_of hm' k =
      (if pos < k \<and> st \<le> k \<and> k \<le> pos + int (last_line en pos raws)
       then Some (ComputeLineHash (drop_cr (raws ! nat (k - pos - 1)))) else map_of hm k)"
proof -
  have "ls = rev acc @ map drop_cr (drop (nat (st - 1 - pos)) (take (last_line en pos raws) raws)) \<and>
    map_of hm' k =
      (if pos < k \<and> st \<le> k \<and> k \<le> pos + int (last_line en pos raws)
       then Some (ComputeLineHash (drop_cr (raws ! nat (k - pos - 1)))) else map_of hm k)"
    using assms
  proof (induction st en pos acc hm raws rule: scan_range.induct)
    case (1 st en pos acc hm)
    then show ?case by (cases en) (auto simp: last_line_def)
  next
    case (2 st en pos acc hm raw raws)
    have short: "\<not> MaxScanTokenSize \<le> length raw" using "2.prems"(1) by (auto split: if_splits)
    have step: "nat (k - pos - 1) = Suc (nat (k - (pos + 1) - 1))" if "pos + 1 < k" for k
      using that by linarith
    show ?case
    proof (cases "pos + 1 < st")
      case True
      have more: "last_line en pos (raw # raws) = Suc (last_line en (pos + 1) raws)"
        using True "2.prems"(4) by (cases en) (auto simp: last_line_def nat_diff_distrib' Suc_nat_eq_nat_zadd1 algebra_simps min_def)
      have skip: "nat (st - 1 - pos) = Suc (nat (st - 1 - (pos + 1)))" using True by linarith
      have "ls = rev acc @ map drop_cr (drop (nat (st - 1 - (pos + 1))) (take (last_line en (pos + 1) raws) raws)) \<and>
        map_of hm' k =
          (if pos + 1 < k \<and> st \<le> k \<and> k \<le> pos + 1 + int (last_line en (pos + 1) raws)
           then Some (ComputeLineHash (drop_cr (raws ! nat (k - (pos + 1) - 1)))) else map_of hm k)"
        using "2.IH"(1) [OF short refl True] "2.prems" short True by simp
      then show ?thesis using True by (auto simp: more skip step)
    next
      case False
      have zero: "nat (st - 1 - pos) = 0" "nat (st - 1 - (pos + 1)) = 0" using False by simp_all
      show ?thesis
      proof (cases "case en of None \<Rightarrow> False | Some e \<Rightarrow> pos + 1 > e")
        case True
        then have "last_line en pos (raw # raws) = 0" by (cases en) (auto simp: last_line_def)
        then show ?thesis using True "2.prems"(1) short False by (auto simp: Let_def)
      next
        case cont: False
        have more: "last_line en pos (raw # raws) = Suc (last_line en (pos + 1) raws)"
          using cont by (cases en) (auto simp: last_line_def nat_diff_distrib' Suc_nat_eq_nat_zadd1 algebra_simps min_def)
        have few: "\<not> (en = None \<and> maxLinesDefault \<le> length (drop_cr raw # acc))"
          using "2.prems"(1) short False cont by (auto simp: Let_def split: if_splits)
        have "ls = rev (drop_cr raw # acc) @ map drop_cr (drop (nat (st - 1 - (pos + 1))) (take (last_line en (pos + 1) raws) raws)) \<and>
          map_of hm' k =
            (if pos + 1 < k \<and> st \<le> k \<and> k \<le> pos + 1 + int (last_line en (pos + 1) raws)
             then Some (ComputeLineHash (drop_cr (raws ! nat (k - (pos + 1) - 1))))
             else map_of ((pos + 1, ComputeLineHash (drop_cr raw)) # hm) k)"
        proof (rule "2.IH"(2) [OF short refl False cont refl refl few])
          show "scan_range st en (pos + 1) (drop_cr raw # acc) ((pos + 1, ComputeLineHash (drop_cr raw)) # hm) raws = Inr (ls, hm', n)"
            using "2.prems"(1) short False cont few by (auto simp: Let_def split: if_splits)
        qed (use "2.prems" in simp_all)
        then show ?thesis using False by (auto simp: more zero step)
      qed
    qed
  qed
  then show "ls = rev acc @ map drop_cr (drop (nat (st - 1 - pos)) (take (last_line en pos raws) raws))"
    and "map_of hm' k =
      (if pos < k \<and> st \<le> k \<and> k \<le> pos + int (last_line en pos raws)
       then Some (ComputeLineHash (drop_cr (raws ! nat (k - pos - 1)))) else map_of hm k)" by simp_all
qed

text \<open>One line of the output.\<close>

definition numbered_line :: "nat \<Rightarrow> int \<Rightarrow> string \<Rightarrow> string" where
  "numbered_line width lineNum line = pad_int width lineNum @ CHR '':'' # ComputeLineHash line @ CHR ''|'' # line"

lemma concat_terminated: "xs \<noteq> [] \<Longrightarrow> concat (map (\<lambda>x. f x @ sep) xs) = join sep (map f xs) @ sep"
  by (induction xs rule: list_nonempty_induct) (auto simp: join_Cons)

lemma trim_terminated: "trim_suffix (s @ p) p = s"
  by (simp add: trim_suffix_def has_suffix_def)

lemma format_numbered:
  assumes "lines \<noteq> []" and "\<And>i. i < length lines \<Longrightarrow> map_of hm (st + int i) = Some (ComputeLineHash (lines ! i))"
  shows "formatWithLineNumbers lines st hm =
    join [nl] (map (\<lambda>i. numbered_line (length (itoa (st + int (length lines) - 1))) (st + int i) (lines ! i)) [0..<length lines])"
proof -
  let ?w = "length (itoa (st + int (length lines) - 1))"
  have "map (\<lambda>(i, line). pad_int ?w (st + int i) @ CHR '':'' # str_or_empty (map_of hm (st + int i)) @ CHR ''|'' # line @ [nl])
      (enumerate 0 lines) =
    map (\<lambda>i. numbered_line ?w (st + int i) (lines ! i) @ [nl]) [0..<length lines]"
    by (rule nth_equalityI) (auto simp: nth_enumerate_eq numbered_line_def assms(2) str_or_empty_def)
  then show ?thesis
    using assms(1) by (simp add: formatWithLineNumbers_def Let_def concat_terminated trim_terminated)
qed

lemma open_for_scan_Inr: "open_for_scan s p = Inr data \<longleftrightarrow> os_ReadFile s p = Inr data"
  by (simp add: open_for_scan_def split: sum.split)

definition first_line :: "int option \<Rightarrow> nat" where
  "first_line startLine = (case startLine of None \<Rightarrow> 1 | Some n \<Rightarrow> (if n \<le> 0 then 1 else nat n))"

section \<open>Properties\<close>

text \<open>
  A successful read prints the lines from \<open>start_line\<close> (1 when it is missing or not
  positive) to \<open>end_line\<close> (the end of the file when it is missing or beyond it), each with its
  number padded to the width of the last one, the hash of the printed text, and the text.
\<close>

theorem read_file_prints:
  assumes "read_file_Execute BaseDir args workingDir s = Inr out"
  shows "\<exists>path data. validatePath args = Inr path \<and>
    os_ReadFile s (path_join [resolveBaseDir workingDir BaseDir, path]) = Inr data \<and>
    (let raws = SplitLines data; lo = first_line (getIntArg ''start_line'' args);
         hi = last_line (getIntArg ''end_line'' args) 0 raws
     in 1 \<le> lo \<and> lo \<le> hi \<and> hi \<le> length raws \<and>
        out = join [nl] (map (\<lambda>k. numbered_line (length (itoa (int hi))) (int k) (drop_cr (raws ! (k - 1)))) [lo..<Suc hi]))"
proof -
  let ?st = "if (case getIntArg ''start_line'' args of None \<Rightarrow> 0 | Some n \<Rightarrow> n) \<le> 0 then 1
             else (case getIntArg ''start_line'' args of None \<Rightarrow> 0 | Some n \<Rightarrow> n)"
  let ?en = "getIntArg ''end_line'' args"
  obtain path data lines hm n where p: "validatePath args = Inr path"
    "os_ReadFile s (path_join [resolveBaseDir workingDir BaseDir, path]) = Inr data"
    "scan_range ?st ?en 0 [] [] (SplitLines data) = Inr (lines, hm, n)" "lines \<noteq> []"
    "\<not> (case ?en of None \<Rightarrow> False | Some e \<Rightarrow> ?st > e)" "out = formatWithLineNumbers lines ?st hm"
    using assms by (auto simp: read_file_Execute_def Let_def result_simps open_for_scan_Inr)
  define raws lo hi where "raws = SplitLines data" and "lo = first_line (getIntArg ''start_line'' args)"
    and "hi = last_line ?en 0 raws"
  have st: "?st = int lo" "1 \<le> lo" by (auto simp: lo_def first_line_def split: option.split)
  have en: "case ?en of None \<Rightarrow> True | Some e \<Rightarrow> ?st \<le> e" using p(5) by (cases ?en) auto
  have hi: "hi \<le> length raws" by (simp add: hi_def last_line_def split: option.split)
  have lines: "lines = map drop_cr (drop (lo - 1) (take hi raws))"
    using scan_range_result(1) [OF p(3) _ _ en] st by (simp add: raws_def hi_def nat_diff_distrib)
  then have len: "length lines = hi - (lo - 1)" "lo \<le> hi" using p(4) hi by auto
  have hash: "map_of hm (?st + int i) = Some (ComputeLineHash (lines ! i))" if "i < length lines" for i
  proof -
    have "nat (int lo + int i - 0 - 1) = lo - 1 + i" using st(2) by linarith
    then show ?thesis
      using scan_range_result(2) [OF p(3) _ _ en, of "?st + int i"] st that len hi
      by (simp add: lines raws_def hi_def)
  qed
  have "out = join [nl] (map (\<lambda>i. numbered_line (length (itoa (?st + int (length lines) - 1))) (?st + int i) (lines ! i)) [0..<length lines])"
    unfolding p(6) by (rule format_numbered [OF p(4) hash])
  also have "?st + int (length lines) - 1 = int hi" using st len by simp
  also have "map (\<lambda>i. numbered_line (length (itoa (int hi))) (?st + int i) (lines ! i)) [0..<length lines] =
      map (\<lambda>k. numbered_line (length (itoa (int hi))) (int k) (drop_cr (raws ! (k - 1)))) [lo..<Suc hi]"
  proof (rule nth_equalityI)
    fix i assume "i < length (map (\<lambda>i. numbered_line (length (itoa (int hi))) (?st + int i) (lines ! i)) [0..<length lines])"
    then have "i < length lines" by simp
    then show "map (\<lambda>i. numbered_line (length (itoa (int hi))) (?st + int i) (lines ! i)) [0..<length lines] ! i =
        map (\<lambda>k. numbered_line (length (itoa (int hi))) (int k) (drop_cr (raws ! (k - 1)))) [lo..<Suc hi] ! i"
      using st len hi by (simp add: lines del: upt_Suc)
  qed (use len st in \<open>simp del: upt_Suc\<close>)
  finally show ?thesis
    using p(1,2) st(2) len(2) hi
    by (intro exI [of _ path] exI [of _ data]) (simp add: Let_def raws_def lo_def hi_def)
qed

text \<open>A file of three lines read from line 2 on, and a request for one replacement.\<close>

definition three_fs :: fs where
  "three_fs = \<lparr>nodes = [(''/w'', DirNode), (''/w/t.txt'', FileNode (''a'' @ nl # ''b'' @ nl # ''c'' @ [nl]))],
               faults = []\<rparr>"

theorem read_file_prints_witness:
  "\<exists>hash_b hash_c. read_file_Execute ''/w'' [(''path'', JStr ''t.txt''), (''start_line'', JNum 2)] [] three_fs =
     Inr (''2:'' @ hash_b @ ''|b'' @ nl # ''3:'' @ hash_c @ ''|c'')"
proof -
  let ?args = "[(''path'', JStr ''t.txt''), (''start_line'', JNum 2)]"
  have v: "validatePath ?args = Inr ''t.txt''" and r: "os_ReadFile three_fs ''/w/t.txt'' = Inr (''a'' @ nl # ''b'' @ nl # ''c'' @ [nl])"
    and pj: "path_join [resolveBaseDir [] ''/w'', ''t.txt''] = ''/w/t.txt''"
    and sl: "SplitLines (''a'' @ nl # ''b'' @ nl # ''c'' @ [nl]) = [''a'', ''b'', ''c'']"
    and digits: "itoa 2 = ''2''" "itoa 3 = ''3''"
    by code_simp+
  have st: "getIntArg ''start_line'' ?args = Some 2" "getIntArg ''end_line'' ?args = None"
    by (simp_all add: getIntArg_def trunc_rat_def)
  have "\<exists>out. read_file_Execute ''/w'' ?args [] three_fs = Inr out"
    by (simp add: read_file_Execute_def v st pj open_for_scan_def r sl [simplified] require_def Let_def MaxScanTokenSize_def
        maxLinesDefault_def)
  then obtain out where out: "read_file_Execute ''/w'' ?args [] three_fs = Inr out" by blast
  have upt: "[2..<Suc (Suc (Suc (Suc 0)))] = [2, 3]" by (simp add: upt_conv_Cons)
  from read_file_prints [OF out] have "out = ''2:'' @ ComputeLineHash ''b'' @ ''|b'' @ nl # ''3:'' @ ComputeLineHash ''c'' @ ''|c''"
    using digits
    by (simp add: v pj r sl [simplified] st first_line_def last_line_def upt Let_def numbered_line_def pad_int_def drop_cr_def
        del: upt_Suc)
  then show ?thesis using out by blast
qed

definition replace_args :: "string \<Rightarrow> nat \<Rightarrow> string \<Rightarrow> string \<Rightarrow> json_object" where
  "replace_args path k hash content =
     [(''path'', JStr path),
      (''edits'', JArr [JObj [(''operation'', JStr ''replace''), (''line'', JNum (of_nat k)), (''hash'', JStr hash),
                              (''content'', JStr content)]])]"

lemma replace_plan:
  assumes "isRelativePathSafe path"
    and "os_ReadFile s (path_join [resolveBaseDir workingDir (ef_BaseDir tool), path]) = Inr data"
    and "1 \<le> k" and "k \<le> length (SplitLines data)"
  shows "prepareEdits tool (replace_args path k hash content) workingDir s =
    (if hash = ComputeLineHash (SplitLines data ! (k - 1))
     then Inr \<lparr>ep_path = path, ep_fullPath = path_join [resolveBaseDir workingDir (ef_BaseDir tool), path],
               ep_oldLines = SplitLines data, ep_newLines = (SplitLines data)[k - 1 := content],
               ep_edits = [\<lparr>ed_operation = ''replace'', ed_line = int k, ed_hash = hash, ed_content = content\<rparr>],
               ep_trailingNewline = (data \<noteq> [] \<and> last data = nl)\<rparr>
     else Inl (Errorf ''edit %d: hash mismatch on line %d: expected %s, found %s (content: %q)''
                 [AInt 0, AInt (int k), AStr hash, AStr (ComputeLineHash (SplitLines data ! (k - 1))),
                  AQuote (SplitLines data ! (k - 1))]))"
proof -
  let ?e = "\<lparr>ed_operation = ''replace'', ed_line = int k, ed_hash = hash, ed_content = content\<rparr>"
  have ne: "path \<noteq> []" using assms(1) by (auto simp: isRelativePathSafe_def)
  have v: "validatePath (replace_args path k hash content) = Inr path"
    using assms(1) ne by (simp add: validatePath_def getStringArg_def replace_args_def)
  have trunc: "trunc_rat (of_nat k) = int k"
    by (simp add: trunc_rat_def floor_of_nat)
  have edits: "result_bind (or_error (map_of (replace_args path k hash content) ''edits'') err) (\<lambda>r. result_bind (parseEdits r) f) = f [?e]"
    for f :: "edit list \<Rightarrow> editPlan result" and err
    by (simp add: replace_args_def or_error_def parseEdits_def parse_edit_def valid_operation_def trunc)
  have at: "nat (int k - 1) = k - 1" using assms(3) by linarith
  have ok: "validateEdits [?e] (SplitLines data) =
      (if hash = ComputeLineHash (SplitLines data ! (k - 1)) then Inr ()
       else Inl (Errorf ''edit %d: hash mismatch on line %d: expected %s, found %s (content: %q)''
                 [AInt 0, AInt (int k), AStr hash, AStr (ComputeLineHash (SplitLines data ! (k - 1))),
                  AQuote (SplitLines data ! (k - 1))]))"
    using assms(3,4) by (auto simp: validateEdits_def GenerateHashMap_lookup str_or_empty_def Let_def at)
  have ap: "applyEdits (SplitLines data) [?e] = Inr ((SplitLines data)[k - 1 := content])"
    using assms(3,4) by (simp add: applyEdits_def apply_edit_def Let_def at)
  show ?thesis
    by (simp add: prepareEdits_def v edits require_def Let_def assms(2) map_error_def ok ap)
qed

text \<open>
  A hash that \<open>read_file\<close> prints for a line is the one \<open>edit_file\<close> asks for: on the same
  files, replacing that line under that hash is accepted and changes that line and no other,
  whenever the line carries no carriage return.
\<close>

theorem printed_hash_accepted:
  assumes "isRelativePathSafe path"
    and "os_ReadFile s (path_join [resolveBaseDir workingDir (ef_BaseDir tool), path]) = Inr data"
    and "1 \<le> k" and "k \<le> length (SplitLines data)"
    and "CHR 0x0D \<notin> set (SplitLines data ! (k - 1))"
  shows "\<exists>plan. prepareEdits tool
      (replace_args path k (ComputeLineHash (drop_cr (SplitLines data ! (k - 1)))) content) workingDir s = Inr plan \<and>
    ep_newLines plan = (SplitLines data)[k - 1 := content]"
proof -
  have "drop_cr (SplitLines data ! (k - 1)) = SplitLines data ! (k - 1)"
    using assms(5) by (auto simp: drop_cr_def) (metis last_in_set)
  then show ?thesis using replace_plan [OF assms(1-4)] by simp
qed

theorem printed_hash_accepted_witness:
  "\<exists>plan. prepareEdits \<lparr>ef_BaseDir = ''/w'', ef_MaxSizeBytes = 0\<rparr>
      (replace_args ''t.txt'' 2 (ComputeLineHash (drop_cr ''b'')) ''new'') [] three_fs = Inr plan \<and>
    ep_newLines plan = [''a'', ''new'', ''c'']"
proof -
  have pre: "isRelativePathSafe ''t.txt''"
    "os_ReadFile three_fs (path_join [resolveBaseDir [] (ef_BaseDir \<lparr>ef_BaseDir = ''/w'', ef_MaxSizeBytes = 0\<rparr>), ''t.txt'']) =
       Inr (''a'' @ nl # ''b'' @ nl # ''c'' @ [nl])"
    and sl: "SplitLines (''a'' @ nl # ''b'' @ nl # ''c'' @ [nl]) = [''a'', ''b'', ''c'']" by code_simp+
  show ?thesis
    using printed_hash_accepted [OF pre, of 2 "''new''"] unfolding sl by simp
qed

text \<open>
  With Windows line ends the two tools disagree. \<open>read_file\<close> drops the carriage return before
  it hashes a line and \<open>edit_file\<close> does not, so the hash printed for the line of this file is
  refused as stale although the file has not changed.
\<close>

theorem crlf_hash_refused:
  "let line = ''a'' @ [CHR 0x0D]; data = line @ [nl];
       s = \<lparr>nodes = [(''/w'', DirNode), (''/w/t.txt'', FileNode data)], faults = []\<rparr>;
       tool = \<lparr>ef_BaseDir = ''/w'', ef_MaxSizeBytes = 0\<rparr>;
       hash = ComputeLineHash ''a''
   in read_file_Execute ''/w'' [(''path'', JStr ''t.txt'')] [] s = Inr (''1:'' @ hash @ ''|a'') \<and>
      prepareEdits tool (replace_args ''t.txt'' 1 hash ''new'') [] s =
        Inl (Errorf ''edit %d: hash mismatch on line %d: expected %s, found %s (content: %q)''
               [AInt 0, AInt 1, AStr hash, AStr (ComputeLineHash line), AQuote line])"
proof -
  let ?line = "''a'' @ [CHR 0x0D]"
  let ?data = "?line @ [nl]"
  let ?s = "\<lparr>nodes = [(''/w'', DirNode), (''/w/t.txt'', FileNode ?data)], faults = []\<rparr>"
  let ?tool = "\<lparr>ef_BaseDir = ''/w'', ef_MaxSizeBytes = 0\<rparr>"
  have safe: "isRelativePathSafe ''t.txt''" and pj: "path_join [''/w'', ''t.txt''] = ''/w/t.txt''"
    and rd: "os_ReadFile ?s ''/w/t.txt'' = Inr ?data" and sl: "SplitLines ?data = [?line]" and one: "itoa 1 = ''1''"
    by code_simp+
  have ne: "ComputeLineHash ''a'' \<noteq> ComputeLineHash ?line" by code_simp
  have v: "validatePath [(''path'', JStr ''t.txt'')] = Inr ''t.txt''" using safe by (simp add: validatePath_def getStringArg_def)
  have "read_file_Execute ''/w'' [(''path'', JStr ''t.txt'')] [] ?s = Inr (''1:'' @ ComputeLineHash ''a'' @ ''|a'')"
    using rd sl one
    by (simp add: read_file_Execute_def v getIntArg_def resolveBaseDir_def pj open_for_scan_def require_def Let_def
        MaxScanTokenSize_def maxLinesDefault_def drop_cr_def formatWithLineNumbers_def pad_int_def str_or_empty_def
        trim_suffix_def has_suffix_def)
  moreover have "prepareEdits ?tool (replace_args ''t.txt'' 1 (ComputeLineHash ''a'') ''new'') [] ?s =
        Inl (Errorf ''edit %d: hash mismatch on line %d: expected %s, found %s (content: %q)''
               [AInt 0, AInt 1, AStr (ComputeLineHash ''a''), AStr (ComputeLineHash ?line), AQuote ?line])"
    using replace_plan [OF safe, of ?s "[]" ?tool ?data 1 "ComputeLineHash ''a''" "''new''"] ne rd sl
    by (simp add: resolveBaseDir_def pj)
  ultimately show ?thesis by (simp add: Let_def)
qed



end
