(* ===== verification/ListFiles.thy ===== *)
theory ListFiles
  imports Builtin
begin

text \<open>
  internal/tool/builtin/list_files.go, with the part of \<open>path/filepath\<close> it rests on: patterns as
  \<open>filepath.Match\<close> documents them (a class and \<open>?\<close> take one byte, as they do for ASCII names),
  \<open>Glob\<close>, which expands a pattern one path element at a time, and \<open>Rel\<close>. Below a base
  directory whose own name is no pattern, the tool lists exactly the files that match the pattern
  element by element; a base directory with a pattern character in its name is itself expanded.
\<close>

section \<open>Patterns\<close>

datatype token = Lit char | AnyChar | Star | Class bool "(char \<times> char) list"

abbreviation backslash :: char where "backslash \<equiv> CHR 0x5C"

definition getEsc :: "string \<Rightarrow> (char \<times> string) option" where
  "getEsc chunk =
     (case chunk of
        [] \<Rightarrow> None
      | c # rest \<Rightarrow>
          if c = CHR ''-'' \<or> c = CHR '']'' then None
          else if c = backslash
          then (case rest of d # e # rest' \<Rightarrow> Some (d, e # rest') | _ \<Rightarrow> None)
          else if rest = [] then None else Some (c, rest))"

lemma getEsc_shorter: "getEsc chunk = Some (c, rest) \<Longrightarrow> length rest < length chunk \<and> rest \<noteq> []"
  by (auto simp: getEsc_def split: list.splits if_splits)

text \<open>The ranges of a class, up to its closing bracket; there must be one.\<close>

function parse_ranges :: "(char \<times> char) list \<Rightarrow> string \<Rightarrow> ((char \<times> char) list \<times> string) option" where
  "parse_ranges acc chunk =
     (if acc \<noteq> [] \<and> has_prefix chunk '']'' then Some (rev acc, tl chunk)
      else case getEsc chunk of
        None \<Rightarrow> None
      | Some (lo, rest) \<Rightarrow>
          if has_prefix rest ''-''
          then (case getEsc (tl rest) of None \<Rightarrow> None | Some (hi, rest') \<Rightarrow> parse_ranges ((lo, hi) # acc) rest')
          else parse_ranges ((lo, lo) # acc) rest)"
  by pat_completeness auto
termination
  by (relation "measure (\<lambda>(acc, chunk). length chunk)") (auto dest!: getEsc_shorter)

declare parse_ranges.simps [simp del]

lemma parse_ranges_shorter: "parse_ranges acc chunk = Some (rs, rest) \<Longrightarrow> length rest < length chunk"
proof (induction acc chunk rule: parse_ranges.induct)
  case (1 acc chunk)
  note eq = parse_ranges.simps [of acc chunk]
  show ?case
  proof (cases "acc \<noteq> [] \<and> has_prefix chunk '']''")
    case True
    then show ?thesis using "1.prems" by (simp add: eq) (cases chunk; auto simp: has_prefix_def)
  next
    case False
    then obtain lo r where g: "getEsc chunk = Some (lo, r)"
      using "1.prems" by (auto simp: eq split: option.splits)
    show ?thesis
    proof (cases "has_prefix r ''-''")
      case True
      then obtain hi r' where h: "getEsc (tl r) = Some (hi, r')"
        using "1.prems" False g by (auto simp: eq split: option.splits)
      have "length rest < length r'" using "1.IH"(1) [OF False g refl True h refl] "1.prems" False True g h by (simp add: eq)
      then show ?thesis using getEsc_shorter [OF g] getEsc_shorter [OF h] by auto
    next
      case no: False
      then show ?thesis using "1.IH"(2) [OF False g refl no] "1.prems" False g getEsc_shorter [OF g] by (auto simp: eq)
    qed
  qed
qed

function parse_glob :: "string \<Rightarrow> token list option" where
  "parse_glob [] = Some []"
| "parse_glob (c # cs) =
     (if c = CHR ''*'' then map_option (Cons Star) (parse_glob cs)
      else if c = CHR ''?'' then map_option (Cons AnyChar) (parse_glob cs)
      else if c = CHR ''[''
      then (let negated = has_prefix cs ''^'' in
            case parse_ranges [] (if negated then tl cs else cs) of
              None \<Rightarrow> None
            | Some (rs, rest) \<Rightarrow> map_option (Cons (Class negated rs)) (parse_glob rest))
      else if c = backslash
      then (case cs of [] \<Rightarrow> None | d # ds \<Rightarrow> map_option (Cons (Lit d)) (parse_glob ds))
      else map_option (Cons (Lit c)) (parse_glob cs))"
  by pat_completeness auto
termination
  by (relation "measure length") (auto dest!: parse_ranges_shorter split: if_splits)

fun match_tokens :: "token list \<Rightarrow> string \<Rightarrow> bool" where
  "match_tokens [] s \<longleftrightarrow> s = []"
| "match_tokens (Lit c # ts) s \<longleftrightarrow> (case s of [] \<Rightarrow> False | d # s' \<Rightarrow> d = c \<and> match_tokens ts s')"
| "match_tokens (AnyChar # ts) s \<longleftrightarrow> (case s of [] \<Rightarrow> False | d # s' \<Rightarrow> d \<noteq> slash \<and> match_tokens ts s')"
| "match_tokens (Class negated rs # ts) s \<longleftrightarrow>
     (case s of [] \<Rightarrow> False
      | d # s' \<Rightarrow> list_ex (\<lambda>(lo, hi). (of_char lo :: nat) \<le> of_char d \<and> (of_char d :: nat) \<le> of_char hi) rs \<noteq> negated \<and>
          match_tokens ts s')"
| "match_tokens (Star # ts) s \<longleftrightarrow>
     match_tokens ts s \<or> (case s of [] \<Rightarrow> False | d # s' \<Rightarrow> d \<noteq> slash \<and> match_tokens (Star # ts) s')"

definition ErrBadPattern :: go_error where
  "ErrBadPattern = Errorf ''syntax error in pattern'' []"

definition filepath_Match :: "string \<Rightarrow> string \<Rightarrow> bool result" where
  "filepath_Match pattern name =
     (case parse_glob pattern of None \<Rightarrow> Inl ErrBadPattern | Some ts \<Rightarrow> Inr (match_tokens ts name))"

section \<open>Glob\<close>

definition hasMeta :: "string \<Rightarrow> bool" where
  "hasMeta path \<longleftrightarrow> list_ex (\<lambda>c. c \<in> set ''*?['' \<or> c = backslash) path"

text \<open>\<open>filepath.Split\<close>, and \<open>cleanGlobPath\<close> on the directory.\<close>

definition path_split :: "string \<Rightarrow> string \<times> string" where
  "path_split p =
     (let file = last (split_byte slash p) in (take (length p - length file) p, file))"

definition cleanGlobPath :: "string \<Rightarrow> string" where
  "cleanGlobPath path = (if path = [] then ''.'' else if path = [slash] then path else butlast path)"

fun match_names :: "string \<Rightarrow> string \<Rightarrow> string list \<Rightarrow> string list result" where
  "match_names dir pattern [] = Inr []"
| "match_names dir pattern (n # ns) =
     (case filepath_Match pattern n of
        Inl err \<Rightarrow> Inl err
      | Inr matched \<Rightarrow> result_bind (match_names dir pattern ns)
          (\<lambda>ms. Inr (if matched then path_join [dir, n] # ms else ms)))"

definition glob_dir :: "fs \<Rightarrow> string \<Rightarrow> string \<Rightarrow> string list result" where
  "glob_dir s dir pattern =
     (if fault s ''stat'' dir \<noteq> None \<or> \<not> is_dir s dir then Inr []
      else case os_ReadDir s dir of
        Inl _ \<Rightarrow> Inr []
      | Inr entries \<Rightarrow> match_names dir pattern (map fst entries))"

fun glob_dirs :: "fs \<Rightarrow> string \<Rightarrow> string list \<Rightarrow> string list result" where
  "glob_dirs s pattern [] = Inr []"
| "glob_dirs s pattern (d # ds) =
     result_bind (glob_dir s d pattern) (\<lambda>ms. result_bind (glob_dirs s pattern ds) (\<lambda>ms'. Inr (ms @ ms')))"

function globWithLimit :: "fs \<Rightarrow> string \<Rightarrow> nat \<Rightarrow> string list result" where
  "globWithLimit s pattern depth =
     (if 10000 \<le> depth then Inl ErrBadPattern
      else if parse_glob pattern = None then Inl ErrBadPattern
      else if \<not> hasMeta pattern
      then Inr (if fault s ''lstat'' pattern = None \<and> (is_dir s pattern \<or> lookup s pattern \<noteq> None) then [pattern] else [])
      else let dir = cleanGlobPath (fst (path_split pattern)); file = snd (path_split pattern)
           in if \<not> hasMeta dir then glob_dir s dir file
              else if dir = pattern then Inl ErrBadPattern
              else result_bind (globWithLimit s dir (Suc depth)) (glob_dirs s file))"
  by pat_completeness auto
termination
  by (relation "measure (\<lambda>(s, pattern, depth). 10000 - depth)") auto

declare globWithLimit.simps [simp del]

definition filepath_Glob :: "fs \<Rightarrow> string \<Rightarrow> string list result" where
  "filepath_Glob s pattern = globWithLimit s pattern 0"

text \<open>\<open>filepath.Rel\<close> of cleaned paths; the error of a path that cannot be made relative is dropped by the caller.\<close>

fun rel_elements :: "string list \<Rightarrow> string list \<Rightarrow> string list option" where
  "rel_elements [] ts = Some ts"
| "rel_elements (b # bs) ts =
     (if ts \<noteq> [] \<and> hd ts = b then rel_elements bs (tl ts)
      else if b = ''..'' then None
      else Some (map (\<lambda>_. ''..'') (b # bs) @ ts))"

definition filepath_Rel :: "string \<Rightarrow> string \<Rightarrow> string result" where
  "filepath_Rel base targ =
     (let impossible = Errorf ''Rel: can't make %s relative to %s'' [AStr targ, AStr base] in
      if is_abs base \<noteq> is_abs targ then Inl impossible
      else case rel_elements (elements base) (elements targ) of
        None \<Rightarrow> Inl impossible
      | Some es \<Rightarrow> Inr (if es = [] then ''.'' else join [slash] es))"

section \<open>The tool\<close>

fun list_each :: "fs \<Rightarrow> string \<Rightarrow> string list \<Rightarrow> string list" where
  "list_each s baseDir [] = []"
| "list_each s baseDir (m # ms) =
     (case os_Stat s m of
        Inl _ \<Rightarrow> list_each s baseDir ms
      | Inr DirNode \<Rightarrow> list_each s baseDir ms
      | Inr (FileNode _) \<Rightarrow>
          (case filepath_Rel baseDir m of Inl _ \<Rightarrow> [] | Inr p \<Rightarrow> p) # list_each s baseDir ms)"

definition list_files_Execute :: "string \<Rightarrow> string \<Rightarrow> json_object \<Rightarrow> fs \<Rightarrow> string result" where
  "list_files_Execute workingDir BaseDir args s =
     (case getStringArg ''pattern'' args of
        None \<Rightarrow> Inl (Errorf ''missing pattern'' [])
      | Some pattern \<Rightarrow>
          if \<not> isRelativePathSafe pattern
          then Inl (Errorf ''absolute or parent paths are not allowed'' [])
          else let baseDir = resolveBaseDir workingDir BaseDir
               in result_bind (filepath_Glob s (path_join [baseDir, pattern]))
                    (\<lambda>matches. Inr (join [nl] (list_each s baseDir matches))))"

section \<open>Patterns match names\<close>

definition pattern_fits :: "string \<Rightarrow> string \<Rightarrow> bool" where
  "pattern_fits pattern name \<longleftrightarrow> filepath_Match pattern name = Inr True"

lemma getEsc_append: "getEsc chunk = Some (c, rest) \<Longrightarrow> getEsc (chunk @ q) = Some (c, rest @ q)"
  by (auto simp: getEsc_def split: list.splits if_splits)

lemma has_prefix_single: "xs \<noteq> [] \<Longrightarrow> has_prefix (xs @ q) [c] = has_prefix xs [c]"
  by (cases xs) (simp_all add: has_prefix_def)

lemma parse_ranges_append: "parse_ranges acc chunk = Some (rs, rest) \<Longrightarrow> parse_ranges acc (chunk @ q) = Some (rs, rest @ q)"
proof (induction acc chunk rule: parse_ranges.induct)
  case (1 acc chunk)
  note eq = parse_ranges.simps [of acc chunk] and eq' = parse_ranges.simps [of acc "chunk @ q"]
  have ne: "chunk \<noteq> []" using "1.prems" by (auto simp: eq getEsc_def has_prefix_def)
  show ?case
  proof (cases "acc \<noteq> [] \<and> has_prefix chunk '']''")
    case True
    then show ?thesis using "1.prems" ne by (simp add: eq eq' has_prefix_single)
  next
    case False
    then obtain lo r where g: "getEsc chunk = Some (lo, r)"
      using "1.prems" by (auto simp: eq split: option.splits)
    note r = getEsc_shorter [OF g]
    show ?thesis
    proof (cases "has_prefix r ''-''")
      case True
      then obtain hi r' where h: "getEsc (tl r) = Some (hi, r')"
        using "1.prems" False g by (auto simp: eq split: option.splits)
      from "1.IH"(1) [OF False g refl True h refl] "1.prems" show ?thesis
        using False True r getEsc_append [OF g, of q] getEsc_append [OF h, of q] ne
        by (auto simp: eq eq' g h has_prefix_single)
    next
      case no: False
      from "1.IH"(2) [OF False g refl no] "1.prems" show ?thesis
        using False no r getEsc_append [OF g, of q] ne by (auto simp: eq eq' g has_prefix_single)
    qed
  qed
qed

lemma parse_glob_append: "parse_glob p = Some ts \<Longrightarrow> parse_glob (p @ q) = map_option ((@) ts) (parse_glob q)"
proof (induction p arbitrary: ts rule: parse_glob.induct)
  case 1
  then show ?case by (cases "parse_glob q") simp_all
next
  case (2 c cs)
  consider "c = CHR ''*'' \<or> c = CHR ''?''" | "c = CHR ''[''" | "c = backslash"
    | "c \<notin> {CHR ''*'', CHR ''?'', CHR ''['', backslash}" by blast
  then show ?case
  proof cases
    case 2
    define cs' where "cs' = (if has_prefix cs ''^'' then tl cs else cs)"
    obtain rs rest where r: "parse_ranges [] cs' = Some (rs, rest)"
      using "2.prems" \<open>c = CHR ''[''\<close> by (auto simp: Let_def cs'_def split: option.splits)
    then obtain ts' where t: "parse_glob rest = Some ts'" "ts = Class (has_prefix cs ''^'') rs # ts'"
      using "2.prems" \<open>c = CHR ''[''\<close> by (auto simp: Let_def cs'_def)
    have "cs \<noteq> []" using r by (auto simp: cs'_def has_prefix_def parse_ranges.simps [of "[]" "[]"] getEsc_def)
    then have "(if has_prefix (cs @ q) ''^'' then tl (cs @ q) else cs @ q) = cs' @ q"
      by (simp add: cs'_def has_prefix_single)
    then have "parse_glob ((c # cs) @ q) = map_option (Cons (Class (has_prefix cs ''^'') rs)) (parse_glob (rest @ q))"
      using \<open>c = CHR ''[''\<close> parse_ranges_append [OF r, of q] \<open>cs \<noteq> []\<close> by (simp add: Let_def has_prefix_single)
    moreover have "parse_glob (rest @ q) = map_option ((@) ts') (parse_glob q)"
      using "2.IH"(3) [OF _ _ _ refl, of "(rs, rest)" rs rest ts'] r t \<open>c = CHR ''[''\<close> by (simp add: cs'_def)
    ultimately show ?thesis using t(2) by (cases "parse_glob q") simp_all
  next
    case 3
    then obtain d ds where "cs = d # ds" using "2.prems" by (cases cs) simp_all
    with 3 2 show ?thesis by (cases "parse_glob q") auto
  qed (use 2 in \<open>cases "parse_glob q"; auto\<close>)+
qed

lemma parse_glob_literal: "\<not> hasMeta p \<Longrightarrow> parse_glob p = Some (map Lit p)"
  by (induction p) (auto simp: hasMeta_def)

lemma match_literal: "match_tokens (map Lit p) n \<longleftrightarrow> n = p"
  by (induction p arbitrary: n) (auto split: list.splits)

lemma pattern_fits_literal: "\<not> hasMeta p \<Longrightarrow> pattern_fits p n \<longleftrightarrow> n = p"
  by (simp add: pattern_fits_def filepath_Match_def parse_glob_literal match_literal)

text \<open>What a star stands for.\<close>

lemma match_star: "slash \<notin> set n \<Longrightarrow> match_tokens (Star # ts) n \<longleftrightarrow> (\<exists>a b. n = a @ b \<and> match_tokens ts b)"
proof (induction n)
  case (Cons c n)
  then show ?case by (auto simp: Cons_eq_append_conv)
qed simp

section \<open>Absolute paths\<close>

definition abs_path :: "string list \<Rightarrow> string" where
  "abs_path es = slash # join [slash] es"

lemma abs_clean: "is_abs p \<Longrightarrow> path_clean p = abs_path (elements p)"
  by (simp add: path_clean_def abs_path_def)

lemma is_abs_path [simp]: "is_abs (abs_path es)" "abs_path es \<noteq> []"
  by (simp_all add: abs_path_def is_abs_def has_prefix_def)

lemma elements_abs_path: "list_all plain_name es \<Longrightarrow> elements (abs_path es) = es"
proof (induction es rule: rev_induct)
  case Nil
  show ?case by code_simp
next
  case (snoc e es)
  have e: "plain_name e" and es: "elements (abs_path es) = es" using snoc by simp_all
  have "path_join [abs_path es, e] = abs_path (es @ [e])"
    using path_join_name [of "abs_path es" e] e es by simp (simp add: abs_path_def)
  then show ?case using elements_join_name [of "abs_path es" e] e es by simp
qed

lemma join_abs_path: "list_all plain_name es \<Longrightarrow> plain_name n \<Longrightarrow> path_join [abs_path es, n] = abs_path (es @ [n])"
  using path_join_name [of "abs_path es" n] elements_abs_path [of es] by simp (simp add: abs_path_def)

lemma abs_path_inj: "list_all plain_name es \<Longrightarrow> list_all plain_name fs \<Longrightarrow> abs_path es = abs_path fs \<longleftrightarrow> es = fs"
  using elements_abs_path by metis

lemma split_abs_path:
  assumes "list_all plain_name es" and "plain_name e"
  shows "snd (path_split (abs_path (es @ [e]))) = e" and "cleanGlobPath (fst (path_split (abs_path (es @ [e])))) = abs_path es"
proof -
  have "split_byte slash (abs_path (es @ [e])) = [] # es @ [e]"
    using split_join_name [of "abs_path es" e] assms by (simp add: join_abs_path elements_abs_path)
  then have l: "last (split_byte slash (abs_path (es @ [e]))) = e" by simp
  show "snd (path_split (abs_path (es @ [e]))) = e" by (simp add: path_split_def l Let_def)
  have "abs_path (es @ [e]) = (abs_path es @ (if es = [] then [] else [slash])) @ e"
    by (cases "es = []") (simp_all add: abs_path_def join_append)
  then have "take (length (abs_path (es @ [e])) - length e) (abs_path (es @ [e])) = abs_path es @ (if es = [] then [] else [slash])"
    by (simp only: length_append diff_add_inverse2 take_append) simp
  then have "fst (path_split (abs_path (es @ [e]))) = abs_path es @ (if es = [] then [] else [slash])"
    by (simp only: path_split_def l Let_def fst_conv)
  moreover have "abs_path es \<noteq> [slash]" if "es \<noteq> []"
    using that assms(1) by (cases es; cases "tl es") (auto simp: abs_path_def plain_name_def)
  ultimately show "cleanGlobPath (fst (path_split (abs_path (es @ [e])))) = abs_path es"
    by (cases "es = []") (simp_all add: cleanGlobPath_def abs_path_def)
qed

lemma hasMeta_append [simp]: "hasMeta (p @ q) \<longleftrightarrow> hasMeta p \<or> hasMeta q"
  by (simp add: hasMeta_def)

lemma hasMeta_simps: "\<not> hasMeta []" "\<not> hasMeta [slash]" "hasMeta (slash # p) = hasMeta p"
  by (simp_all add: hasMeta_def)

lemma hasMeta_abs_path: "hasMeta (abs_path es) \<longleftrightarrow> list_ex hasMeta es"
proof -
  have "hasMeta (join [slash] es) \<longleftrightarrow> list_ex hasMeta es"
    by (induction "[slash]" es rule: join.induct) (simp_all add: hasMeta_simps)
  then show ?thesis by (simp add: abs_path_def hasMeta_simps)
qed

lemma parse_abs_path: "list_all (\<lambda>e. parse_glob e \<noteq> None) es \<Longrightarrow> parse_glob (abs_path es) \<noteq> None"
proof (induction es rule: rev_induct)
  case Nil
  show ?case by code_simp
next
  case (snoc e es)
  have "abs_path (es @ [e]) = abs_path es @ (if es = [] then [] else [slash]) @ e"
    by (cases "es = []") (simp_all add: abs_path_def join_append)
  moreover obtain ts where "parse_glob (abs_path es) = Some ts" using snoc by auto
  moreover have "parse_glob ([slash] @ e) \<noteq> None" "parse_glob e \<noteq> None"
    using snoc.prems parse_glob_append [of "[slash]" "[Lit slash]" e] by simp_all
  ultimately show ?case by (auto simp: parse_glob_append)
qed

section \<open>Trees of files\<close>

text \<open>A file system whose paths are absolute and clean and whose nodes lie in directories.\<close>

definition tree_ok :: "fs \<Rightarrow> bool" where
  "tree_ok s \<longleftrightarrow> faults s = [] \<and>
     list_all (\<lambda>(p, n). is_abs p \<and> p = path_clean p \<and> elements p \<noteq> [] \<and> is_dir s (abs_path (butlast (elements p)))) (nodes s)"

lemma abs_elements_plain: "is_abs p \<Longrightarrow> list_all plain_name (elements p)"
proof -
  assume a: "is_abs p"
  have "clean_stack True st \<Longrightarrow> list_all plain_name st" for st
    by (induction st) (auto simp: plain_name_def)
  from this [of "rev (elements p)"] show ?thesis using clean_stack_elements [of p] a by simp
qed

lemma tree_node:
  assumes "tree_ok s" and "lookup s p = Some n"
  obtains es e where "p = abs_path (es @ [e])" "list_all plain_name es" "plain_name e" "is_dir s (abs_path es)"
proof -
  have "(p, n) \<in> set (nodes s)" using assms(2) by (simp add: lookup_def map_of_SomeD)
  then have p: "is_abs p" "p = path_clean p" "elements p \<noteq> []" "is_dir s (abs_path (butlast (elements p)))"
    using assms(1) by (auto simp: tree_ok_def list_all_iff)
  have "p = abs_path (butlast (elements p) @ [last (elements p)])" using p abs_clean by simp
  moreover have "list_all plain_name (butlast (elements p) @ [last (elements p)])" using abs_elements_plain [OF p(1)] p(3) by simp
  ultimately show thesis using that p(4) by simp
qed

definition there :: "fs \<Rightarrow> string list \<Rightarrow> bool" where
  "there s es \<longleftrightarrow> is_dir s (abs_path es) \<or> lookup s (abs_path es) \<noteq> None"

lemma there_parent:
  assumes "tree_ok s" and "there s (es @ [e])" and "list_all plain_name es" and "plain_name e"
  shows "is_dir s (abs_path es)" and "lookup s (abs_path (es @ [e])) \<noteq> None"
proof -
  have "abs_path (es @ [e]) \<noteq> [slash]" using assms(3,4) elements_abs_path [of "es @ [e]"] elements_abs_path [of "[]"]
    by (auto simp: abs_path_def)
  moreover have "abs_path (es @ [e]) \<noteq> ''.''" by (simp add: abs_path_def)
  ultimately show l: "lookup s (abs_path (es @ [e])) \<noteq> None" using assms(2) by (auto simp: there_def is_dir_def)
  then obtain n where "lookup s (abs_path (es @ [e])) = Some n" by auto
  from tree_node [OF assms(1) this] obtain fs f where
    f: "abs_path (es @ [e]) = abs_path (fs @ [f])" "list_all plain_name fs" "plain_name f" "is_dir s (abs_path fs)" .
  then have "es = fs" using abs_path_inj [of "es @ [e]" "fs @ [f]"] assms(3,4) by simp
  then show "is_dir s (abs_path es)" using f by simp
qed

section \<open>What a pattern expands to\<close>

lemma quiet: "tree_ok s \<Longrightarrow> fault s op p = None"
  by (simp add: tree_ok_def fault_def)

lemma ReadDir_names:
  assumes "tree_ok s" and "list_all plain_name es" and "os_ReadDir s (abs_path es) = Inr entries"
  shows "n \<in> fst ` set entries \<longleftrightarrow> plain_name n \<and> lookup s (abs_path (es @ [n])) \<noteq> None"
proof
  have entries: "set entries = (\<lambda>(p, n). (path_base p, n)) `
      {(p, n). (p, n) \<in> set (AList.clearjunk (nodes s)) \<and> path_dir p = abs_path es \<and> p \<noteq> abs_path es}"
    using assms(3) by (auto simp: os_ReadDir_def split: option.splits if_splits)
  have clean: "path_clean (abs_path fs) = abs_path fs" if "list_all plain_name fs" for fs
    using that by (simp add: abs_clean elements_abs_path)
  {
    assume "n \<in> fst ` set entries"
    then obtain p node where p: "n = path_base p" "(p, node) \<in> set (AList.clearjunk (nodes s))" "path_dir p = abs_path es"
      unfolding entries by auto
    have look: "lookup s p = Some node"
      using p(2) by (metis lookup_def distinct_clearjunk map_of_clearjunk map_of_is_SomeI)
    from tree_node [OF assms(1) this] obtain fs f where
      f: "p = abs_path (fs @ [f])" "list_all plain_name fs" "plain_name f" "is_dir s (abs_path fs)" .
    have pj: "p = path_join [abs_path fs, f]" using f by (simp add: join_abs_path)
    have "path_dir p = abs_path fs" using path_dir_join [of "abs_path fs" f] f(3) clean [OF f(2)] by (simp add: pj)
    then have "fs = es" using p(3) f(2) assms(2) abs_path_inj by metis
    moreover have "n = f" using p(1) path_base_join [of "abs_path fs" f] f(3) by (simp add: pj)
    ultimately show "plain_name n \<and> lookup s (abs_path (es @ [n])) \<noteq> None" using f look by simp
  }
  assume n: "plain_name n \<and> lookup s (abs_path (es @ [n])) \<noteq> None"
  then obtain node where look: "lookup s (path_join [abs_path es, n]) = Some node" using assms(2) by (auto simp: join_abs_path)
  have "(path_join [abs_path es, n], node) \<in> set (AList.clearjunk (nodes s))"
    using look by (simp add: lookup_def) (metis map_of_SomeD map_of_clearjunk)
  moreover have "path_dir (path_join [abs_path es, n]) = abs_path es" using n clean [OF assms(2)] by (simp add: path_dir_join)
  moreover have "path_base (path_join [abs_path es, n]) = n" using n by (simp add: path_base_join)
  moreover have "path_join [abs_path es, n] \<noteq> abs_path es"
    using n assms(2) abs_path_inj [of "es @ [n]" es] by (simp add: join_abs_path)
  ultimately show "n \<in> fst ` set entries" unfolding entries by (force intro: rev_image_eqI)
qed

lemma match_names_set:
  "parse_glob pattern \<noteq> None \<Longrightarrow>
     \<exists>ms. match_names dir pattern ns = Inr ms \<and> set ms = (\<lambda>n. path_join [dir, n]) ` {n \<in> set ns. pattern_fits pattern n}"
  by (induction ns) (auto simp: filepath_Match_def pattern_fits_def)

lemma glob_dir_set:
  assumes "tree_ok s" and "list_all plain_name es" and "parse_glob pattern \<noteq> None"
  shows "\<exists>ms. glob_dir s (abs_path es) pattern = Inr ms \<and>
    set ms = {abs_path (es @ [n]) | n. pattern_fits pattern n \<and> plain_name n \<and> there s (es @ [n])}"
proof (cases "is_dir s (abs_path es)")
  case False
  then have "\<not> there s (es @ [n])" if "plain_name n" for n using there_parent [OF assms(1) _ assms(2) that] by blast
  then have none: "{abs_path (es @ [n]) | n. pattern_fits pattern n \<and> plain_name n \<and> there s (es @ [n])} = {}" by blast
  show ?thesis unfolding none using False by (simp add: glob_dir_def)
next
  case True
  then obtain entries where r: "os_ReadDir s (abs_path es) = Inr entries" by (simp add: os_ReadDir_def quiet [OF assms(1)])
  obtain ms where ms: "match_names (abs_path es) pattern (map fst entries) = Inr ms"
    "set ms = (\<lambda>n. path_join [abs_path es, n]) ` {n \<in> set (map fst entries). pattern_fits pattern n}"
    using match_names_set [OF assms(3)] by blast
  have m: "n \<in> set (map fst entries) \<longleftrightarrow> plain_name n \<and> there s (es @ [n])" for n
    using ReadDir_names [OF assms(1,2) r, of n] there_parent [OF assms(1) _ assms(2), of n] by (auto simp: there_def)
  have "set ms = {abs_path (es @ [n]) | n. pattern_fits pattern n \<and> plain_name n \<and> there s (es @ [n])}"
    unfolding ms(2) m using assms(2) by (auto simp: join_abs_path)
  then show ?thesis using True ms(1) r by (simp add: glob_dir_def quiet [OF assms(1)])
qed

definition expansions :: "fs \<Rightarrow> string list \<Rightarrow> string list \<Rightarrow> string list set" where
  "expansions s bs ps = {bs @ es | es. list_all2 pattern_fits ps es \<and> list_all plain_name es \<and> there s (bs @ es)}"

lemma expansions_snoc:
  assumes "tree_ok s" and "list_all plain_name bs"
  shows "expansions s bs (ps @ [p]) =
    {ds @ [n] | ds n. ds \<in> expansions s bs ps \<and> pattern_fits p n \<and> plain_name n \<and> there s (ds @ [n])}" (is "?l = ?r")
proof
  show "?l \<subseteq> ?r"
  proof
    fix x assume "x \<in> ?l"
    then obtain es n where x: "x = bs @ es @ [n]" "list_all2 pattern_fits ps es" "pattern_fits p n" "list_all plain_name es" "plain_name n"
      "there s (bs @ es @ [n])"
      unfolding expansions_def by (auto simp: list_all2_append1 list_all2_Cons1)
    then have "there s (bs @ es)"
      using there_parent(1) [OF assms(1), of "bs @ es" n] assms(2) by (simp add: there_def)
    then show "x \<in> ?r" using x unfolding expansions_def by fastforce
  qed
  show "?r \<subseteq> ?l" unfolding expansions_def by (fastforce intro: list_all2_appendI)
qed

lemma expansions_literal:
  assumes "\<not> list_ex hasMeta ps" and "list_all plain_name ps"
  shows "expansions s bs ps = (if there s (bs @ ps) then {bs @ ps} else {})"
proof -
  have "list_all2 pattern_fits ps es \<longleftrightarrow> es = ps" for es
    using assms(1) by (induction ps arbitrary: es) (auto simp: list_all2_Cons1 pattern_fits_literal)
  then show ?thesis using assms(2) by (auto simp: expansions_def)
qed

lemma glob_dirs_set:
  assumes "tree_ok s" and "list_all plain_name bs" and "parse_glob p \<noteq> None" and "set ds \<subseteq> abs_path ` {es. list_all plain_name es}"
  shows "\<exists>ms. glob_dirs s p ds = Inr ms \<and>
    set ms = {abs_path (es @ [n]) | es n. abs_path es \<in> set ds \<and> list_all plain_name es \<and> pattern_fits p n \<and> plain_name n \<and> there s (es @ [n])}"
  using assms(4)
proof (induction ds)
  case (Cons d ds)
  then obtain es where es: "d = abs_path es" "list_all plain_name es" by auto
  obtain ms where ms: "glob_dir s d p = Inr ms"
    "set ms = {abs_path (es @ [n]) | n. pattern_fits p n \<and> plain_name n \<and> there s (es @ [n])}"
    using glob_dir_set [OF assms(1) es(2) assms(3)] es(1) by auto
  obtain ms' where ms': "glob_dirs s p ds = Inr ms'"
    "set ms' = {abs_path (es @ [n]) | es n. abs_path es \<in> set ds \<and> list_all plain_name es \<and> pattern_fits p n \<and> plain_name n \<and> there s (es @ [n])}"
    using Cons by auto
  have "abs_path fs = d \<longleftrightarrow> fs = es" if "list_all plain_name fs" for fs using es that abs_path_inj by metis
  then show ?case using ms ms' es(2) by auto
qed simp

lemma glob_expands:
  assumes t: "tree_ok s" and bs: "list_all plain_name bs" "\<not> list_ex hasMeta bs"
    and ps: "list_all plain_name ps" "list_all (\<lambda>p. parse_glob p \<noteq> None) ps" and "depth + length ps < 10000"
  shows "\<exists>ms. globWithLimit s (abs_path (bs @ ps)) depth = Inr ms \<and> set ms = abs_path ` expansions s bs ps"
  using ps assms(6)
proof (induction ps arbitrary: depth rule: rev_induct)
  case Nil
  have "\<not> hasMeta (abs_path bs)" using bs(2) by (simp add: hasMeta_abs_path)
  moreover have "expansions s bs [] = (if there s bs then {bs} else {})" using expansions_literal [of "[]"] by simp
  ultimately show ?case
    using Nil by (simp add: globWithLimit.simps [of s "abs_path bs"] parse_glob_literal quiet [OF t] there_def)
next
  case (snoc p ps)
  have p: "plain_name p" "parse_glob p \<noteq> None" and ps: "list_all plain_name ps" "list_all (\<lambda>p. parse_glob p \<noteq> None) ps"
    using snoc.prems by simp_all
  have clean: "list_all plain_name (bs @ ps)" using bs(1) ps(1) by simp
  have "list_all (\<lambda>p. parse_glob p \<noteq> None) (bs @ ps @ [p])"
    using bs(2) ps(2) p(2) by (auto simp: list_all_iff list_ex_iff parse_glob_literal)
  then obtain ts where wf: "parse_glob (abs_path (bs @ ps @ [p])) = Some ts" using parse_abs_path by blast
  note split = split_abs_path [OF clean p(1), unfolded append_assoc]
  note unfold = globWithLimit.simps [of s "abs_path (bs @ ps @ [p])" depth]
  have d: "\<not> 10000 \<le> depth" using snoc.prems(3) by simp
  show ?case
  proof (cases "list_ex hasMeta (ps @ [p])")
    case False
    then have no: "\<not> hasMeta (abs_path (bs @ ps @ [p]))" using bs(2) by (simp add: hasMeta_abs_path list_ex_append)
    have e: "expansions s bs (ps @ [p]) = (if there s (bs @ ps @ [p]) then {bs @ ps @ [p]} else {})"
      using expansions_literal [OF False] ps(1) p(1) by simp
    show ?thesis unfolding unfold e using no wf d by (simp add: quiet [OF t] there_def)
  next
    case meta: True
    then have yes: "hasMeta (abs_path (bs @ ps @ [p]))" by (simp add: hasMeta_abs_path list_ex_append)
    show ?thesis
    proof (cases "list_ex hasMeta ps")
      case False
      have g: "globWithLimit s (abs_path (bs @ ps @ [p])) depth = glob_dir s (abs_path (bs @ ps)) p"
        unfolding unfold using yes wf d False bs(2) by (simp add: split hasMeta_abs_path list_ex_append)
      obtain ms where ms: "glob_dir s (abs_path (bs @ ps)) p = Inr ms"
        "set ms = {abs_path ((bs @ ps) @ [n]) | n. pattern_fits p n \<and> plain_name n \<and> there s ((bs @ ps) @ [n])}"
        using glob_dir_set [OF t clean p(2)] by blast
      have "there s (bs @ ps)" if "there s ((bs @ ps) @ [n])" "plain_name n" for n
        using there_parent(1) [OF t that(1) clean that(2)] by (simp add: there_def)
      then have "set ms = abs_path ` expansions s bs (ps @ [p])"
        unfolding ms(2) expansions_snoc [OF t bs(1)] expansions_literal [OF False ps(1)] by auto
      then show ?thesis unfolding g using ms(1) by blast
    next
      case True
      have other: "abs_path (bs @ ps) \<noteq> abs_path (bs @ ps @ [p])"
        using abs_path_inj [of "bs @ ps" "bs @ ps @ [p]"] clean p(1) by simp
      have g: "globWithLimit s (abs_path (bs @ ps @ [p])) depth =
          result_bind (globWithLimit s (abs_path (bs @ ps)) (Suc depth)) (glob_dirs s p)"
        unfolding unfold using yes wf d True other by (simp add: split hasMeta_abs_path list_ex_append)
      obtain ds where ds: "globWithLimit s (abs_path (bs @ ps)) (Suc depth) = Inr ds" "set ds = abs_path ` expansions s bs ps"
        using snoc.IH [OF ps, of "Suc depth"] snoc.prems(3) by auto
      have "set ds \<subseteq> abs_path ` {es. list_all plain_name es}" unfolding ds(2) expansions_def using bs(1) by auto
      from glob_dirs_set [OF t bs(1) p(2) this] obtain ms where ms: "glob_dirs s p ds = Inr ms"
        "set ms = {abs_path (es @ [n]) | es n. abs_path es \<in> set ds \<and> list_all plain_name es \<and> pattern_fits p n \<and> plain_name n \<and> there s (es @ [n])}"
        by blast
      have "abs_path es \<in> set ds \<longleftrightarrow> es \<in> expansions s bs ps" if "list_all plain_name es" for es
        unfolding ds(2) using that bs(1) abs_path_inj by (auto simp: expansions_def)
      moreover have "list_all plain_name es" if "es \<in> expansions s bs ps" for es using that bs(1) by (auto simp: expansions_def)
      ultimately have "set ms = abs_path ` expansions s bs (ps @ [p])"
        unfolding ms(2) expansions_snoc [OF t bs(1)] by blast
      then show ?thesis unfolding g using ds(1) ms(1) by simp
    qed
  qed
qed

section \<open>What the tool lists\<close>

lemma rel_below: "rel_elements bs (bs @ es) = Some es"
  by (induction bs) simp_all

lemma Rel_below:
  "list_all plain_name (bs @ es) \<Longrightarrow> filepath_Rel (abs_path bs) (abs_path (bs @ es)) = Inr (if es = [] then ''.'' else join [slash] es)"
  by (simp add: filepath_Rel_def elements_abs_path rel_below)

lemma list_each_set:
  "list_all (\<lambda>m. fault s ''stat'' m = None) ms \<Longrightarrow>
     set (list_each s baseDir ms) =
       {(case filepath_Rel baseDir m of Inl _ \<Rightarrow> [] | Inr p \<Rightarrow> p) | m. m \<in> set ms \<and> (\<exists>d. lookup s m = Some (FileNode d))}"
  by (induction ms) (auto simp: os_Stat_def split: option.splits node.splits)

lemma safe_elements_plain: "isRelativePathSafe pattern \<Longrightarrow> list_all plain_name (elements pattern)"
proof -
  assume "isRelativePathSafe pattern"
  then have "''..'' \<notin> set (elements pattern)" by (rule safe_path_no_dotdot)
  moreover have "clean_stack r st \<Longrightarrow> ''..'' \<notin> set st \<Longrightarrow> list_all plain_name st" for r st
    by (induction st) (auto simp: plain_name_def)
  from this [OF clean_stack_elements [of pattern]] have "''..'' \<notin> set (elements pattern) \<Longrightarrow> list_all plain_name (elements pattern)"
    by simp
  ultimately show ?thesis by blast
qed

text \<open>
  C16: below an absolute base directory whose name is no pattern, list_files lists exactly the files
  whose path has as many elements as the pattern and matches it element by element, each by its
  path relative to the base; directories are not listed.
\<close>

theorem list_files_exact:
  assumes "tree_ok s" and "getStringArg ''pattern'' args = Some pattern" and "isRelativePathSafe pattern"
    and "elements pattern \<noteq> []" and "list_all (\<lambda>p. parse_glob p \<noteq> None) (elements pattern)"
    and "length (elements pattern) < 10000"
    and "is_abs (resolveBaseDir workingDir BaseDir)" and "\<not> hasMeta (path_clean (resolveBaseDir workingDir BaseDir))"
  shows "\<exists>out. list_files_Execute workingDir BaseDir args s = Inr (join [nl] out) \<and>
    set out = {join [slash] es | es. list_all2 pattern_fits (elements pattern) es \<and> list_all plain_name es \<and>
      (\<exists>d. lookup s (abs_path (elements (resolveBaseDir workingDir BaseDir) @ es)) = Some (FileNode d))}"
proof -
  define base bs ps where "base = resolveBaseDir workingDir BaseDir" and "bs = elements base" and "ps = elements pattern"
  have abs: "is_abs base" and ne: "base \<noteq> []" using assms(7) by (auto simp: base_def is_abs_def has_prefix_def)
  have bs: "list_all plain_name bs" "\<not> list_ex hasMeta bs"
    using abs_elements_plain [OF abs] assms(8) abs_clean [OF abs] by (simp_all add: bs_def base_def [symmetric] hasMeta_abs_path)
  have ps: "list_all plain_name ps" "list_all (\<lambda>p. parse_glob p \<noteq> None) ps"
    using safe_elements_plain [OF assms(3)] assms(5) by (simp_all add: ps_def)
  have "path_join [base, pattern] = path_clean (base @ slash # pattern)" using ne by (simp add: path_join_def)
  moreover have "is_abs (base @ slash # pattern)" using abs ne by (cases base) (auto simp: is_abs_def has_prefix_def)
  moreover have "elements (path_join [base, pattern]) = bs @ ps"
    unfolding bs_def ps_def
    by (rule elements_join [OF ne safe_path_relative [OF assms(3)] safe_path_no_dotdot [OF assms(3)]])
  ultimately have full: "path_join [base, pattern] = abs_path (bs @ ps)"
    by (metis abs_clean elements_clean is_abs_clean)
  obtain ms where ms: "filepath_Glob s (abs_path (bs @ ps)) = Inr ms" "set ms = abs_path ` expansions s bs ps"
    unfolding filepath_Glob_def using glob_expands [OF assms(1) bs ps, of 0] assms(6) by (auto simp: ps_def)
  have rel: "(case filepath_Rel base m of Inl _ \<Rightarrow> [] | Inr p \<Rightarrow> p) = (case filepath_Rel (abs_path bs) m of Inl _ \<Rightarrow> [] | Inr p \<Rightarrow> p)" for m
    using abs bs(1) by (simp add: filepath_Rel_def bs_def elements_abs_path Let_def split: option.split)
  have node: "there s es" if "lookup s (abs_path es) = Some n" for es n using that by (simp add: there_def)
  have short: "es \<noteq> []" if "list_all2 pattern_fits ps es" for es using that assms(4) by (auto simp: ps_def)
  define good where "good = {es. list_all2 pattern_fits ps es \<and> list_all plain_name es \<and> (\<exists>d. lookup s (abs_path (bs @ es)) = Some (FileNode d))}"
  have files: "{m \<in> set ms. \<exists>d. lookup s m = Some (FileNode d)} = (\<lambda>es. abs_path (bs @ es)) ` good"
    unfolding ms(2) expansions_def good_def using node by auto
  have "(case filepath_Rel base (abs_path (bs @ es)) of Inl _ \<Rightarrow> [] | Inr p \<Rightarrow> p) = join [slash] es" if "es \<in> good" for es
    using that short bs(1) by (simp add: rel Rel_below good_def)
  moreover have "set (list_each s base ms) =
      (\<lambda>m. case filepath_Rel base m of Inl _ \<Rightarrow> [] | Inr p \<Rightarrow> p) ` {m \<in> set ms. \<exists>d. lookup s m = Some (FileNode d)}"
    by (subst list_each_set) (auto simp: list_all_iff quiet [OF assms(1)])
  ultimately have "set (list_each s base ms) = join [slash] ` good" unfolding files by (simp add: image_image)
  then have "set (list_each s base ms) = {join [slash] es | es. list_all2 pattern_fits ps es \<and> list_all plain_name es \<and>
      (\<exists>d. lookup s (abs_path (bs @ es)) = Some (FileNode d))}" by (auto simp: good_def)
  then show ?thesis
    using assms(2,3) full ms(1) by (auto simp: list_files_Execute_def base_def [symmetric] bs_def ps_def)
qed

definition sample_tree :: fs where
  "sample_tree = \<lparr>nodes = [(''/w'', DirNode), (''/w/a.go'', FileNode ''x''), (''/w/sub'', DirNode),
     (''/w/sub/c.go'', FileNode ''y''), (''/w/n.md'', FileNode [])], faults = []\<rparr>"

theorem list_files_exact_witness:
  "\<exists>out. list_files_Execute ''/w'' [] [(''pattern'', JStr ''*/[a-c].go'')] sample_tree = Inr (join [nl] out) \<and>
     ''sub/c.go'' \<in> set out \<and> ''a.go'' \<notin> set out"
proof -
  define args pattern where "args = [(''pattern'', JStr ''*/[a-c].go'')]" and "pattern = ''*/[a-c].go''"
  have e: "elements pattern = [''*'', ''[a-c].go'']" "elements ''/w'' = [''w'']" unfolding pattern_def by code_simp+
  have h: "tree_ok sample_tree" "getStringArg ''pattern'' args = Some pattern" "isRelativePathSafe pattern"
    "list_all (\<lambda>p. parse_glob p \<noteq> None) (elements pattern)" "is_abs (resolveBaseDir ''/w'' [])"
    "\<not> hasMeta (path_clean (resolveBaseDir ''/w'' []))"
    unfolding args_def pattern_def by code_simp+
  obtain out where out: "list_files_Execute ''/w'' [] args sample_tree = Inr (join [nl] out)"
    "set out = {join [slash] es | es. list_all2 pattern_fits (elements pattern) es \<and> list_all plain_name es \<and>
      (\<exists>d. lookup sample_tree (abs_path (elements (resolveBaseDir ''/w'' []) @ es)) = Some (FileNode d))}"
    using list_files_exact [OF h(1,2,3) _ h(4) _ h(5,6)] e(1) by auto
  have f: "pattern_fits ''*'' ''sub''" "pattern_fits ''[a-c].go'' ''c.go''" "plain_name ''sub''" "plain_name ''c.go''"
    "lookup sample_tree ''/w/sub/c.go'' = Some (FileNode ''y'')"
    unfolding pattern_fits_def by code_simp+
  have "''sub/c.go'' = join [slash] [''sub'', ''c.go'']" "abs_path ([''w''] @ [''sub'', ''c.go'']) = ''/w/sub/c.go''" by code_simp+
  then have "''sub/c.go'' \<in> set out"
    unfolding out(2) using f e by (auto simp: resolveBaseDir_def intro!: exI [of _ "[''sub'', ''c.go'']"])
  moreover have "''a.go'' \<notin> set out"
  proof
    assume "''a.go'' \<in> set out"
    then obtain x y where "''a.go'' = join [slash] [x, y]" unfolding out(2) e by (auto simp: list_all2_Cons1)
    then have "slash \<in> set ''a.go''" by simp
    then show False by simp
  qed
  ultimately show ?thesis using out(1) unfolding args_def by blast
qed

text \<open>
  The base directory is joined to the pattern before it is expanded, so a base whose name holds a
  pattern character is expanded too: the tool then lists files outside it.
\<close>

theorem list_files_escapes:
  "list_files_Execute ''/w/a*'' [] [(''pattern'', JStr ''x'')]
     \<lparr>nodes = [(''/w'', DirNode), (''/w/a*'', DirNode), (''/w/ab'', DirNode), (''/w/ab/x'', FileNode ''s'')], faults = []\<rparr> =
   Inr ''../ab/x''"
  by code_simp

end
