(* ===== verification/Config.thy ===== *)
theory Config
  imports FileSystem
begin

text \<open>
  internal/config: the configuration of the program, its defaults, and how it is loaded, created on
  the first start and overridden from the environment. The home directory is a parameter (empty
  when there is none), and so are the two sides of the TOML library: \<open>marshal\<close>, and \<open>decode\<close>,
  which writes the members of a document over a given configuration.
\<close>

record FileToolsConfig =
  ft_MaxSizeBytes :: int

record WebToolsConfig =
  wt_TimeoutSeconds :: int
  wt_MaxResponseBytes :: int

record ToolsConfig =
  tg_WorkingDir :: string
  tg_File :: FileToolsConfig
  tg_Web :: WebToolsConfig

record DebugConfig =
  dg_LogRequests :: bool
  dg_LogResponses :: bool
  dg_LogDirectory :: string
  dg_ValidateRoles :: bool

record Config =
  cf_Bind :: string
  cf_DataDir :: string
  cf_Tools :: ToolsConfig
  cf_Debug :: DebugConfig

definition FallbackContextSize :: int where
  "FallbackContextSize = 4096"

definition defaultDataDir :: "string \<Rightarrow> string" where
  "defaultDataDir home = (if home = [] then ''.kontekst'' else path_join [home, ''.kontekst''])"

definition Default :: "string \<Rightarrow> Config" where
  "Default home =
     \<lparr>cf_Bind = '':50051'', cf_DataDir = defaultDataDir home,
      cf_Tools = \<lparr>tg_WorkingDir = [], tg_File = \<lparr>ft_MaxSizeBytes = 10 * 1024 * 1024\<rparr>,
                  tg_Web = \<lparr>wt_TimeoutSeconds = 30, wt_MaxResponseBytes = 5 * 1024 * 1024\<rparr>\<rparr>,
      cf_Debug = \<lparr>dg_LogRequests = False, dg_LogResponses = False,
                  dg_LogDirectory = path_join [defaultDataDir home, ''debug''], dg_ValidateRoles = True\<rparr>\<rparr>"

definition expandPath :: "string \<Rightarrow> string \<Rightarrow> string" where
  "expandPath home path =
     (if path = [] then []
      else if has_prefix path ''~'' \<and> home \<noteq> []
      then path_join [home, trim_prefix (trim_prefix path ''~'') [slash]]
      else path)"

definition normalize_config :: "string \<Rightarrow> Config \<Rightarrow> Config" where
  "normalize_config home cfg =
     (let bind = trim_space (cf_Bind cfg)
      in cfg\<lparr>cf_DataDir := expandPath home (cf_DataDir cfg), cf_Bind := (if bind = [] then '':50051'' else bind)\<rparr>)"

definition LoadOrCreate ::
  "string \<Rightarrow> (Config \<Rightarrow> string result) \<Rightarrow> (string \<Rightarrow> Config \<Rightarrow> Config result) \<Rightarrow> string \<Rightarrow> fs \<Rightarrow> Config result \<times> fs" where
  "LoadOrCreate home marshal decode path s =
     (let config = Default home in
      case os_Stat s path of
        Inl err \<Rightarrow>
          if is_not_exist err
          then (case os_MkdirAll s (path_dir path) of
                  (Inl err, s1) \<Rightarrow> (Inl (Errorf ''config: create directory: %w'' [AErr err]), s1)
                | (Inr _, s1) \<Rightarrow>
                    (case marshal config of
                       Inl err \<Rightarrow> (Inl (Errorf ''config: marshal defaults: %w'' [AErr err]), s1)
                     | Inr configData \<Rightarrow>
                         (case os_WriteFile s1 path configData of
                            Inl err \<Rightarrow> (Inl (Errorf ''config: write defaults: %w'' [AErr err]), s1)
                          | Inr s2 \<Rightarrow> (Inr config, s2))))
          else (Inl (Errorf ''config: stat %s: %w'' [AStr path, AErr err]), s)
      | Inr _ \<Rightarrow>
          (case os_ReadFile s path of
             Inl err \<Rightarrow> (Inl (Errorf ''config: read %s: %w'' [AStr path, AErr err]), s)
           | Inr configData \<Rightarrow>
               (case decode configData config of
                  Inl err \<Rightarrow> (Inl (Errorf ''config: parse %s: %w'' [AStr path, AErr err]), s)
                | Inr config' \<Rightarrow> (Inr (normalize_config home config'), s))))"

text \<open>debug.go; \<open>env\<close> is \<open>os.Getenv\<close>.\<close>

definition LoadDebugConfigFromEnv :: "(string \<Rightarrow> string) \<Rightarrow> DebugConfig \<Rightarrow> DebugConfig" where
  "LoadDebugConfigFromEnv env cfg =
     (let cfg1 = (if env ''KONTEKST_DEBUG_LOG_REQUESTS'' = ''1'' then cfg\<lparr>dg_LogRequests := True\<rparr> else cfg);
          cfg2 = (if env ''KONTEKST_DEBUG_LOG_RESPONSES'' = ''1'' then cfg1\<lparr>dg_LogResponses := True\<rparr> else cfg1)
      in if env ''KONTEKST_DEBUG_VALIDATE_ROLES'' = ''0'' then cfg2\<lparr>dg_ValidateRoles := False\<rparr> else cfg2)"

section \<open>What a load gives\<close>

lemma trim_space_trimmed [simp]: "trim_space (trim_space s) = trim_space s"
proof (cases "dropWhile is_space s")
  case (Cons d ds)
  have "\<not> is_space d" using Cons by (simp add: dropWhile_eq_Cons_conv)
  then have "dropWhile is_space (rev ds @ [d]) = dropWhile is_space (rev ds) @ [d]" by (simp add: dropWhile_append3)
  then have t: "trim_space s = d # rev (dropWhile is_space (rev ds))" using Cons by (simp add: trim_space_def)
  have "dropWhile is_space (dropWhile is_space (rev ds) @ [d]) = dropWhile is_space (rev ds) @ [d]"
    using \<open>\<not> is_space d\<close> by (simp add: dropWhile_append3)
  then show ?thesis unfolding t using \<open>\<not> is_space d\<close> by (simp add: trim_space_def)
next
  case Nil
  have "trim_space [] = []" by (simp add: trim_space_def)
  moreover have "trim_space s = []" unfolding trim_space_def Nil by simp
  ultimately show ?thesis by simp
qed

lemma normalized_bind: "cf_Bind (normalize_config home cfg) \<noteq> [] \<and> trim_space (cf_Bind (normalize_config home cfg)) = cf_Bind (normalize_config home cfg)"
proof -
  have "trim_space '':50051'' = '':50051''" by code_simp
  then show ?thesis by (simp add: normalize_config_def Let_def)
qed

lemma default_bind: "cf_Bind (Default home) = '':50051''"
  by (simp add: Default_def)

lemma expandPath_abs: "is_abs p \<Longrightarrow> expandPath home p = p"
  by (cases p) (auto simp: expandPath_def is_abs_def has_prefix_def)

lemma normalize_default: "home = [] \<or> is_abs home \<Longrightarrow> normalize_config home (Default home) = Default home"
proof -
  assume home: "home = [] \<or> is_abs home"
  have "expandPath home (defaultDataDir home) = defaultDataDir home"
  proof (cases "home = []")
    case True
    then show ?thesis by (simp add: defaultDataDir_def expandPath_def)
  next
    case False
    have "is_abs (path_join [home, ''.kontekst''])"
      using home False path_join_name [of home "''.kontekst''"] by (auto simp: plain_name_def) (simp add: is_abs_def has_prefix_def)
    then show ?thesis using False by (simp add: defaultDataDir_def expandPath_abs)
  qed
  moreover have "trim_space '':50051'' = '':50051''" by code_simp
  ultimately show ?thesis by (simp add: normalize_config_def Default_def)
qed

lemma LoadOrCreate_existing:
  "os_Stat s path = Inr n \<Longrightarrow> LoadOrCreate home marshal decode path s = (Inr cfg, s') \<Longrightarrow>
     s' = s \<and> (\<exists>d c. os_ReadFile s path = Inr d \<and> decode d (Default home) = Inr c \<and> cfg = normalize_config home c)"
  by (auto simp: LoadOrCreate_def Let_def split: sum.splits)

lemma LoadOrCreate_absent:
  "os_Stat s path = Inl err \<Longrightarrow> LoadOrCreate home marshal decode path s = (Inr cfg, s') \<Longrightarrow>
     cfg = Default home \<and> (\<exists>s1 d. os_MkdirAll s (path_dir path) = (Inr (), s1) \<and> marshal cfg = Inr d \<and> os_WriteFile s1 path d = Inr s')"
  by (auto simp: LoadOrCreate_def Let_def split: sum.splits prod.splits if_splits)

text \<open>
  The configuration that is created on the first start is the default one, and it is the one every
  later start loads, as long as the TOML library reads back what it wrote.
\<close>

theorem config_created_then_loaded:
  assumes "LoadOrCreate home marshal decode path s = (Inr cfg, s')" and "lookup s path = None" and "faults s = []"
    and "home = [] \<or> is_abs home"
    and "\<And>d. marshal (Default home) = Inr d \<Longrightarrow> decode d (Default home) = Inr (Default home)"
  shows "cfg = Default home \<and> LoadOrCreate home marshal decode path s' = (Inr (Default home), s')"
proof -
  have "os_Stat s path = Inl (not_exist ''stat'' path)" using assms(2,3) by (simp add: os_Stat_def fault_def)
  from LoadOrCreate_absent [OF this assms(1)] obtain s1 d where
    c: "cfg = Default home" "os_MkdirAll s (path_dir path) = (Inr (), s1)" "marshal cfg = Inr d" "os_WriteFile s1 path d = Inr s'"
    by blast
  have "s' = put_node path (FileNode d) s1" by (rule os_WriteFile_ok [OF c(4)])
  moreover have "faults s1 = []" using os_MkdirAll_faults [OF c(2)] assms(3) by simp
  ultimately have "os_Stat s' path = Inr (FileNode d)" "os_ReadFile s' path = Inr d"
    by (simp_all add: os_Stat_def os_ReadFile_def) (simp_all add: fault_def)
  then show ?thesis
    using c(1,3) assms(5) normalize_default [OF assms(4)] by (simp add: LoadOrCreate_def Let_def)
qed

theorem config_created_then_loaded_witness:
  "\<exists>s'. LoadOrCreate ''/h'' (\<lambda>c. Inr (cf_Bind c)) (\<lambda>d c. Inr (c\<lparr>cf_Bind := d\<rparr>)) ''/h/c.toml'' \<lparr>nodes = [(''/h'', DirNode)], faults = []\<rparr> =
       (Inr (Default ''/h''), s') \<and>
     LoadOrCreate ''/h'' (\<lambda>c. Inr (cf_Bind c)) (\<lambda>d c. Inr (c\<lparr>cf_Bind := d\<rparr>)) ''/h/c.toml'' s' = (Inr (Default ''/h''), s')"
proof -
  define s where "s = \<lparr>nodes = [(''/h'', DirNode)], faults = [] :: ((string \<times> string) \<times> go_error) list\<rparr>"
  define m dec where "m = (\<lambda>c :: Config. Inr (cf_Bind c) :: string result)" and "dec = (\<lambda>d (c :: Config). Inr (c\<lparr>cf_Bind := d\<rparr>) :: Config result)"
  have d: "path_dir ''/h/c.toml'' = ''/h''" "dir_chain ''/h'' = [''/h'']" by code_simp+
  have "fst (LoadOrCreate ''/h'' m dec ''/h/c.toml'' s) = Inr (Default ''/h'')"
    unfolding LoadOrCreate_def Let_def s_def m_def
    by (simp add: os_Stat_def fault_def lookup_def not_exist_def os_MkdirAll_def d os_WriteFile_def open_write_def is_dir_def)
  then obtain s' where r: "LoadOrCreate ''/h'' m dec ''/h/c.toml'' s = (Inr (Default ''/h''), s')" by (metis prod.collapse)
  have "LoadOrCreate ''/h'' m dec ''/h/c.toml'' s' = (Inr (Default ''/h''), s')"
    using config_created_then_loaded [OF r] by (simp add: s_def lookup_def m_def dec_def is_abs_def has_prefix_def)
  then show ?thesis using r unfolding s_def m_def dec_def by blast
qed

text \<open>
  A loaded configuration has an address to listen on, without white space around it; a file that is
  there is never written, and otherwise only the new file and missing directories appear.
\<close>

theorem config_usable:
  assumes "LoadOrCreate home marshal decode path s = (Inr cfg, s')"
  shows "cf_Bind cfg \<noteq> [] \<and> trim_space (cf_Bind cfg) = cf_Bind cfg \<and>
    (\<forall>q. q \<noteq> path \<longrightarrow> lookup s' q = lookup s q \<or> lookup s q = None \<and> lookup s' q = Some DirNode) \<and>
    (os_Stat s path = Inr n \<longrightarrow> s' = s)"
proof (cases "os_Stat s path")
  case (Inr m)
  from LoadOrCreate_existing [OF this assms] show ?thesis using normalized_bind by auto
next
  case (Inl err)
  have "trim_space '':50051'' = '':50051''" by code_simp
  with LoadOrCreate_absent [OF Inl assms] show ?thesis
    using Inl os_MkdirAll_frame by (fastforce dest: os_WriteFile_ok simp: default_bind)
qed

text \<open>A tilde with a user name is taken for the own home directory; a tilde in the debug directory is not expanded at all.\<close>

lemma tilde_user_expanded: "expandPath ''/home/me'' ''~you/data'' = ''/home/me/you/data''"
  by code_simp

lemma log_directory_kept: "cf_Debug (normalize_config home cfg) = cf_Debug cfg"
  by (simp add: normalize_config_def Let_def)

end
