(* ===== verification/WebFetch.thy ===== *)
theory WebFetch
  imports Builtin Config AgentRegistry
begin

text \<open>
  internal/tool/builtin/web_fetch.go. The network is the parameter \<open>web\<close>: what the transport answers
  to one request, whether a URL can be requested at all, which headers a redirect keeps, and the
  order in which the header map is visited. The redirect loop of \<open>http.Client\<close>, canonical header
  names and the limited reader are those of the standard library; byte counts are 64-bit.
\<close>

section \<open>The standard library\<close>

record http_request =
  rq_Method :: string
  rq_URL :: string
  rq_Headers :: "(string \<times> string) list"

text \<open>A response; the body is what can be read, and \<open>hr_ReadError\<close> what reading ends with (\<open>None\<close> for EOF).\<close>

record http_response =
  hr_Status :: string
  hr_ContentType :: string
  hr_Body :: string
  hr_ReadError :: "go_error option"

datatype http_answer = SendFailed go_error | Redirect string | Answer http_response

record web =
  wb_invalid :: "string \<Rightarrow> string \<Rightarrow> go_error option"
  wb_send :: "int \<Rightarrow> http_request \<Rightarrow> http_answer"
  wb_redirected :: "http_request \<Rightarrow> string \<Rightarrow> (string \<times> string) list"
  wb_order :: "(string \<times> json) list \<Rightarrow> (string \<times> json) list"

definition is_token :: "char \<Rightarrow> bool" where
  "is_token c \<longleftrightarrow> (let n = (of_char c :: nat) in
     48 \<le> n \<and> n \<le> 57 \<or> 65 \<le> n \<and> n \<le> 90 \<or> 97 \<le> n \<and> n \<le> 122 \<or> c \<in> set ''!#$%&*+-.^_|~'' \<or> n = 39 \<or> n = 96)"

definition lower_char :: "char \<Rightarrow> char" where
  "lower_char c = (let n = (of_char c :: nat) in if 65 \<le> n \<and> n \<le> 90 then char_of (n + 32) else c)"

fun canonical_from :: "bool \<Rightarrow> string \<Rightarrow> string" where
  "canonical_from upper [] = []"
| "canonical_from upper (c # cs) = (if upper then upper_char c else lower_char c) # canonical_from (c = CHR ''-'') cs"

definition canonical_key :: "string \<Rightarrow> string" where
  "canonical_key key = (if list_all is_token key then canonical_from True key else key)"

definition header_Set :: "string \<Rightarrow> string \<Rightarrow> http_request \<Rightarrow> http_request" where
  "header_Set key value req = req\<lparr>rq_Headers := AList.update (canonical_key key) value (rq_Headers req)\<rparr>"

text \<open>\<open>io.ReadAll(io.LimitReader(body, n))\<close>: a limit that is not positive reads nothing.\<close>

definition read_limited :: "int \<Rightarrow> http_response \<Rightarrow> string result" where
  "read_limited n resp =
     (if n \<le> 0 then Inr []
      else if n \<le> int (length (hr_Body resp)) then Inr (take (nat n) (hr_Body resp))
      else case hr_ReadError resp of Some err \<Rightarrow> Inl err | None \<Rightarrow> Inr (hr_Body resp))"

section \<open>The tool\<close>

definition web_fetch_Name :: string where
  "web_fetch_Name = ''web_fetch''"

definition web_fetch_Description :: string where
  "web_fetch_Description = ''Fetches content from a URL using HTTP GET. Returns the response body as text.''"

definition web_fetch_Parameters :: json where
  "web_fetch_Parameters =
     JObj [(''type'', JStr ''object''),
           (''properties'', JObj
              [(''url'', JObj [(''type'', JStr ''string''), (''description'', JStr ''The URL to fetch'')]),
               (''method'', JObj [(''type'', JStr ''string''), (''description'', JStr ''HTTP method (default: GET)'')]),
               (''headers'', JObj [(''type'', JStr ''object''), (''description'', JStr ''Additional headers to include'')])]),
           (''required'', JArr [JStr ''url''])]"

text \<open>\<open>CheckRedirect\<close>: \<open>via\<close> are the requests already made.\<close>

definition checkRedirect :: "http_request list \<Rightarrow> go_error option" where
  "checkRedirect via = (if length via \<ge> 10 then Some (Errorf ''too many redirects'' []) else None)"

text \<open>\<open>client.Do\<close>: the answer that is no redirect, and the requests made on the way. A GET or HEAD keeps its method.\<close>

function client_Do :: "web \<Rightarrow> int \<Rightarrow> http_request list \<Rightarrow> http_request \<Rightarrow> http_response result \<times> http_request list" where
  "client_Do w timeout via req =
     (let made = via @ [req] in
      case wb_send w timeout req of
        SendFailed err \<Rightarrow> (Inl err, made)
      | Answer resp \<Rightarrow> (Inr resp, made)
      | Redirect target \<Rightarrow>
          (case checkRedirect made of
             Some err \<Rightarrow> (Inl (Errorf ''%s %q: %w'' [AStr (canonical_key (rq_Method req)), AQuote target, AErr err]), made)
           | None \<Rightarrow> client_Do w timeout made (req\<lparr>rq_URL := target, rq_Headers := wb_redirected w req target\<rparr>)))"
  by pat_completeness auto
termination
  by (relation "measure (\<lambda>(w, timeout, via, req). 10 - length via)") (auto simp: checkRedirect_def split: if_splits)

declare client_Do.simps [simp del]

fun set_headers :: "(string \<times> json) list \<Rightarrow> http_request \<Rightarrow> http_request" where
  "set_headers [] req = req"
| "set_headers ((key, value) # hs) req =
     set_headers hs (case value of JStr strValue \<Rightarrow> header_Set key strValue req | _ \<Rightarrow> req)"

definition fetch_timeout :: "WebToolsConfig \<Rightarrow> int" where
  "fetch_timeout cfg = (if seconds (wt_TimeoutSeconds cfg) \<le> 0 then seconds 30 else seconds (wt_TimeoutSeconds cfg))"

definition fetch_limit :: "WebToolsConfig \<Rightarrow> int" where
  "fetch_limit cfg = (if wt_MaxResponseBytes cfg \<le> 0 then 5 * 1024 * 1024 else wt_MaxResponseBytes cfg)"

definition format_response :: "http_response \<Rightarrow> string \<Rightarrow> bool \<Rightarrow> string" where
  "format_response resp body truncated =
     ''Status: '' @ hr_Status resp @ [nl] @ ''Content-Type: '' @ hr_ContentType resp @ [nl] @
     ''Content-Length: '' @ itoa (int (length body)) @ [nl] @
     (if truncated then ''(Response truncated due to size limit)'' @ [nl] else []) @ [nl] @ body"

definition receive_body :: "WebToolsConfig \<Rightarrow> http_response \<Rightarrow> string result" where
  "receive_body cfg resp =
     (let maxBytes = fetch_limit cfg in
      case read_limited (wrap64 (maxBytes + 1)) resp of
        Inl err \<Rightarrow> Inl (Errorf ''failed to read response: %w'' [AErr err])
      | Inr body \<Rightarrow>
          if int (length body) > maxBytes then Inr (format_response resp (take (nat maxBytes) body) True)
          else Inr (format_response resp body False))"

definition web_fetch_Execute :: "web \<Rightarrow> WebToolsConfig \<Rightarrow> json_object \<Rightarrow> string result \<times> http_request list" where
  "web_fetch_Execute w cfg args =
     (let url = str_or_empty (getStringArg ''url'' args) in
      if url = [] then (Inl (Errorf ''missing url'' []), [])
      else if \<not> has_prefix url ''http://'' \<and> \<not> has_prefix url ''https://''
      then (Inl (Errorf ''url must start with http:// or https://'' []), [])
      else let m = str_or_empty (getStringArg ''method'' args); verb = to_upper (if m = [] then ''GET'' else m) in
      if verb \<noteq> ''GET'' \<and> verb \<noteq> ''HEAD'' then (Inl (Errorf ''only GET and HEAD methods are supported'' []), [])
      else case wb_invalid w verb url of
        Some err \<Rightarrow> (Inl (Errorf ''failed to create request: %w'' [AErr err]), [])
      | None \<Rightarrow>
          let req = header_Set ''User-Agent'' ''kontekst/1.0'' \<lparr>rq_Method = verb, rq_URL = url, rq_Headers = []\<rparr>;
              req' = (case json_obj (map_of args ''headers'') of None \<Rightarrow> req | Some headers \<Rightarrow> set_headers (wb_order w headers) req)
          in (case client_Do w (fetch_timeout cfg) [] req' of
                (Inl err, made) \<Rightarrow> (Inl (Errorf ''request failed: %w'' [AErr err]), made)
              | (Inr resp, made) \<Rightarrow> (receive_body cfg resp, made)))"

section \<open>Requests\<close>

lemma client_Do_made:
  "client_Do w timeout via req = (r, made) \<Longrightarrow> length via < 10 \<Longrightarrow>
     \<exists>rest. made = via @ req # rest \<and> length made \<le> 10 \<and> list_all (\<lambda>q. rq_Method q = rq_Method req) rest"
proof (induction w timeout via req arbitrary: r made rule: client_Do.induct)
  case (1 w timeout via req)
  show ?case
  proof (cases "\<exists>target. wb_send w timeout req = Redirect target \<and> length via < 9")
    case False
    then show ?thesis
      using "1.prems" by (auto simp: client_Do.simps [of w timeout via req] checkRedirect_def Let_def split: http_answer.splits)
  next
    case True
    then obtain target where t: "wb_send w timeout req = Redirect target" "length via < 9" by blast
    then have c: "checkRedirect (via @ [req]) = None" by (simp add: checkRedirect_def)
    let ?req = "req\<lparr>rq_URL := target, rq_Headers := wb_redirected w req target\<rparr>"
    have "client_Do w timeout (via @ [req]) ?req = (r, made)"
      using "1.prems"(1) t(1) c by (simp add: client_Do.simps [of w timeout via req])
    from "1.IH" [OF refl t(1) c this] t(2) show ?thesis by auto
  qed
qed

lemma set_headers_url: "rq_Method (set_headers hs req) = rq_Method req \<and> rq_URL (set_headers hs req) = rq_URL req"
proof (induction hs arbitrary: req)
  case (Cons h hs)
  then show ?case by (cases h; cases "snd h") (auto simp: header_Set_def)
qed simp

lemma fetch_timeout_positive: "0 < fetch_timeout cfg"
  by (simp add: fetch_timeout_def seconds_def wrap64_def)

lemma receive_body_Inr:
  assumes "receive_body cfg resp = Inr out" and "wt_MaxResponseBytes cfg < 2 ^ 63 - 1"
  shows "out = format_response resp (take (nat (fetch_limit cfg)) (hr_Body resp)) (fetch_limit cfg < int (length (hr_Body resp)))"
proof -
  have l: "0 < fetch_limit cfg" "wrap64 (fetch_limit cfg + 1) = fetch_limit cfg + 1"
    using assms(2) by (auto simp: fetch_limit_def intro!: wrap64_id)
  show ?thesis
  proof (cases "fetch_limit cfg + 1 \<le> int (length (hr_Body resp))")
    case True
    have "read_limited (fetch_limit cfg + 1) resp = Inr (take (nat (fetch_limit cfg + 1)) (hr_Body resp))"
      using True l(1) by (simp add: read_limited_def)
    moreover have "int (length (take (nat (fetch_limit cfg + 1)) (hr_Body resp))) = fetch_limit cfg + 1" using True l(1) by simp
    moreover have "take (nat (fetch_limit cfg)) (take (nat (fetch_limit cfg + 1)) (hr_Body resp)) = take (nat (fetch_limit cfg)) (hr_Body resp)"
      by (simp add: min_def)
    ultimately show ?thesis using assms(1) l True by (simp add: receive_body_def Let_def)
  next
    case False
    then show ?thesis using assms(1) l by (auto simp: receive_body_def read_limited_def Let_def split: option.splits)
  qed
qed


definition mirror_web :: web where
  "mirror_web = \<lparr>wb_invalid = \<lambda>_ _. None,
     wb_send = \<lambda>_ q. if rq_URL q = ''http://a'' then Redirect ''http://b''
       else Answer \<lparr>hr_Status = ''200 OK'', hr_ContentType = ''text/plain'', hr_Body = ''hello'', hr_ReadError = None\<rparr>,
     wb_redirected = \<lambda>q _. rq_Headers q, wb_order = id\<rparr>"


text \<open>
  The reader is limited to one byte more than the maximum. For the largest 64-bit maximum this wraps
  around, nothing is read, and every response comes back empty and unmarked.
\<close>

theorem web_fetch_limit_overflow:
  "receive_body \<lparr>wt_TimeoutSeconds = 30, wt_MaxResponseBytes = 2 ^ 63 - 1\<rparr> resp = Inr (format_response resp [] False)"
  by (simp add: receive_body_def fetch_limit_def wrap64_def read_limited_def Let_def)

end
