(* ===== verification/Commands.thy ===== *)
theory Commands
  imports ToolRegistry
begin

text \<open>
  Package \<open>command\<close> (command.go, loader.go, registry.go) and the tool that runs commands
  (internal/tool/builtin/command.go): scripts described by a TOML manifest, stored by name and run
  as processes with a closed environment. The TOML parser, the variables of the process and the
  running of another process are libraries and the operating system: the parameters \<open>toml\<close>,
  \<open>environ\<close> and \<open>spawn\<close>. The lemmas show that every command that is stored is valid, and what the
  process of a command is given.
\<close>

section \<open>command.go\<close>

record Argument =
  ag_Name :: string
  ag_Type :: string
  ag_Description :: string
  ag_Required :: bool
  ag_Default :: string

record UserCommand =
  uc_Name :: string
  uc_Description :: string
  uc_Runtime :: string
  uc_WorkingDir :: string
  uc_Timeout :: int
  uc_Arguments :: "Argument list"
  uc_Dir :: string
  uc_ScriptPath :: string
  uc_RequirementsFile :: string

abbreviation quotation :: char where "quotation \<equiv> CHR 0x22"

definition runtime_error :: "string \<Rightarrow> go_error" where
  "runtime_error runtime =
     Errorf (''invalid runtime %q: must be '' @ quotation # ''bash'' @ quotation # '' or '' @ quotation # ''python'' @ [quotation])
       [AQuote runtime]"

definition working_dir_error :: "string \<Rightarrow> go_error" where
  "working_dir_error dir =
     Errorf (''invalid working_dir %q: must be '' @ quotation # ''command'' @ quotation # '' or '' @ quotation # ''agent'' @ [quotation])
       [AQuote dir]"

fun validate_each :: "Argument list \<Rightarrow> unit result" where
  "validate_each [] = Inr ()"
| "validate_each (arg # args) =
     (if ag_Name arg = [] then Inl (Errorf ''argument name is required'' [])
      else if ag_Type arg \<noteq> ''string''
      then Inl (Errorf (''argument %q has invalid type %q: only '' @ quotation # ''string'' @ quotation # '' is supported'')
                  [AQuote (ag_Name arg), AQuote (ag_Type arg)])
      else validate_each args)"

definition validate :: "UserCommand \<Rightarrow> unit result" where
  "validate c =
     (if uc_Name c = [] then Inl (Errorf ''command name is required'' [])
      else if uc_Runtime c \<noteq> ''bash'' \<and> uc_Runtime c \<noteq> ''python'' then Inl (runtime_error (uc_Runtime c))
      else if uc_WorkingDir c \<noteq> ''command'' \<and> uc_WorkingDir c \<noteq> ''agent'' then Inl (working_dir_error (uc_WorkingDir c))
      else if uc_RequirementsFile c \<noteq> [] \<and>
        (let clean = path_clean (uc_RequirementsFile c) in is_abs clean \<or> has_prefix clean ''..'')
      then Inl (Errorf ''requirements file %q must be a relative path within the command directory''
                  [AQuote (uc_RequirementsFile c)])
      else validate_each (uc_Arguments c))"

section \<open>loader.go\<close>

record manifestArgument =
  ma_Name :: string
  ma_Type :: string
  ma_Description :: string
  ma_Required :: bool
  ma_Default :: string

record manifest =
  mf_Name :: string
  mf_Description :: string
  mf_Runtime :: string
  mf_WorkingDir :: string
  mf_Timeout :: int
  mf_Arguments :: "manifestArgument list"
  mf_Requirements :: string

definition clamp_timeout :: "int \<Rightarrow> int" where
  "clamp_timeout t = (let t1 = (if t \<le> 0 then 60 else t) in if t1 > 300 then 300 else t1)"

definition script_name :: "string \<Rightarrow> string option" where
  "script_name runtime =
     (if runtime = ''bash'' then Some ''run.sh'' else if runtime = ''python'' then Some ''run.py'' else None)"

definition argument_of :: "manifestArgument \<Rightarrow> Argument" where
  "argument_of a =
     \<lparr>ag_Name = ma_Name a, ag_Type = ma_Type a, ag_Description = ma_Description a,
      ag_Required = ma_Required a, ag_Default = ma_Default a\<rparr>"

definition command_of :: "string \<Rightarrow> string \<Rightarrow> manifest \<Rightarrow> UserCommand" where
  "command_of dirPath scriptPath m =
     \<lparr>uc_Name = mf_Name m, uc_Description = mf_Description m, uc_Runtime = mf_Runtime m,
      uc_WorkingDir = (if mf_WorkingDir m = [] then ''command'' else mf_WorkingDir m),
      uc_Timeout = clamp_timeout (mf_Timeout m), uc_Arguments = map argument_of (mf_Arguments m),
      uc_Dir = dirPath, uc_ScriptPath = scriptPath, uc_RequirementsFile = mf_Requirements m\<rparr>"

definition loadCommandDir :: "(string \<Rightarrow> manifest result) \<Rightarrow> fs \<Rightarrow> string \<Rightarrow> UserCommand result" where
  "loadCommandDir toml s dirPath =
     result_bind (map_error (\<lambda>err. Errorf ''reading manifest: %w'' [AErr err]) (os_ReadFile s (path_join [dirPath, ''command.toml'']))) (\<lambda>data.
     result_bind (map_error (\<lambda>err. Errorf ''parsing manifest: %w'' [AErr err]) (toml data)) (\<lambda>m.
     result_bind (or_error (script_name (mf_Runtime m)) (runtime_error (mf_Runtime m))) (\<lambda>scriptName.
     let scriptPath = path_join [dirPath, scriptName]
     in result_bind (map_error (\<lambda>_. Errorf ''script %s not found in %s'' [AStr scriptName, AStr dirPath]) (os_Stat s scriptPath)) (\<lambda>_.
     let cmd = command_of dirPath scriptPath m
     in result_bind (map_error (\<lambda>err. Errorf ''invalid command %q: %w'' [AQuote dirPath, AErr err]) (validate cmd)) (\<lambda>_.
     Inr cmd)))))"

section \<open>registry.go\<close>

record CommandRegistry =
  cr_commandsDir :: string
  cr_commands :: "(string \<times> UserCommand) list"

definition NewCommandRegistry :: "string \<Rightarrow> CommandRegistry" where
  "NewCommandRegistry dir = \<lparr>cr_commandsDir = dir, cr_commands = []\<rparr>"

definition store_command :: "UserCommand \<Rightarrow> CommandRegistry \<Rightarrow> CommandRegistry" where
  "store_command cmd r = r\<lparr>cr_commands := AList.update (uc_Name cmd) cmd (cr_commands r)\<rparr>"

definition commands_Get :: "CommandRegistry \<Rightarrow> string \<Rightarrow> UserCommand option" where
  "commands_Get r name = map_of (cr_commands r) name"

definition load_entry :: "(string \<Rightarrow> manifest result) \<Rightarrow> fs \<Rightarrow> string \<Rightarrow> string \<times> node \<Rightarrow> UserCommand option" where
  "load_entry toml s dir entry =
     (case entry of (name, n) \<Rightarrow>
        if n \<noteq> DirNode then None
        else case loadCommandDir toml s (path_join [dir, name]) of Inl _ \<Rightarrow> None | Inr cmd \<Rightarrow> Some cmd)"

fun load_commands :: "(string \<Rightarrow> manifest result) \<Rightarrow> fs \<Rightarrow> (string \<times> node) list \<Rightarrow> CommandRegistry \<Rightarrow> CommandRegistry" where
  "load_commands toml s [] r = r"
| "load_commands toml s (entry # entries) r =
     load_commands toml s entries
       (case load_entry toml s (cr_commandsDir r) entry of None \<Rightarrow> r | Some cmd \<Rightarrow> store_command cmd r)"

definition commands_Load :: "(string \<Rightarrow> manifest result) \<Rightarrow> fs \<Rightarrow> CommandRegistry \<Rightarrow> unit result \<times> CommandRegistry" where
  "commands_Load toml s r =
     (let r1 = r\<lparr>cr_commands := []\<rparr>
      in if missing_dir s (cr_commandsDir r) then (Inr (), r1)
         else case os_ReadDir s (cr_commandsDir r) of
                Inl err \<Rightarrow> (Inl err, r1)
              | Inr entries \<Rightarrow> (Inr (), load_commands toml s entries r1))"

definition argument_text :: "Argument \<Rightarrow> string" where
  "argument_text arg =
     sprintf ''%s (%s'' [ag_Name arg, ag_Type arg] @ (if ag_Required arg then '', required'' else '', optional'') @
     (if ag_Default arg \<noteq> [] then sprintf '', default: %q'' [go_quote (ag_Default arg)] else []) @ '')''"

definition summary_text :: "UserCommand \<Rightarrow> string" where
  "summary_text cmd =
     sprintf (''- %s: %s'' @ [nl]) [uc_Name cmd, uc_Description cmd] @
     (if uc_Arguments cmd = [] then []
      else ''  Arguments: '' @ join '', '' (map argument_text (uc_Arguments cmd)) @ [nl])"

definition commands_Summaries :: "CommandRegistry \<Rightarrow> string" where
  "commands_Summaries r =
     concat (map (\<lambda>name. case commands_Get r name of None \<Rightarrow> [] | Some cmd \<Rightarrow> summary_text cmd)
       (sort (map fst (cr_commands r))))"

interpretation command_store: named_store store_command commands_Get uc_Name
  by unfold_locales (simp add: store_command_def commands_Get_def update_conv')

section \<open>builtin/command.go\<close>

abbreviation maxOutputBytes :: nat where "maxOutputBytes \<equiv> 128 * 1024"

text \<open>A process to be run: its environment, if one is set, and the time it may take, in seconds.\<close>

record process =
  ps_Path :: string
  ps_Args :: "string list"
  ps_Dir :: string
  ps_Env :: "string list option"
  ps_Timeout :: int

type_synonym spawn = "process \<Rightarrow> fs \<Rightarrow> (string \<times> go_error option) \<times> fs"

definition command_Description :: "CommandRegistry \<Rightarrow> string" where
  "command_Description r =
     ''Executes a user-defined command. Commands are curated scripts that perform actions.'' @ nl # nl #
     (let summaries = commands_Summaries r
      in if summaries \<noteq> []
         then ''<available_commands>'' @ nl # summaries @ ''</available_commands>'' @ nl # nl #
              ''Use the '' @ CHR 0x27 # ''name'' @ CHR 0x27 # '' parameter to select a command and pass values via '' @
              CHR 0x27 # ''arguments'' @ CHR 0x27 # ''.''
         else ''No commands are currently available.'')"

definition command_Parameters :: json where
  "command_Parameters =
     JObj [(''type'', JStr ''object''),
           (''properties'', JObj
             [(''name'', JObj [(''type'', JStr ''string''), (''description'', JStr ''Command name from available_commands list'')]),
              (''arguments'', JObj [(''type'', JStr ''object''),
                                    (''description'', JStr ''Arguments to pass to the command as key-value pairs'')])]),
           (''required'', JArr [JStr ''name''])]"

definition extractArgumentMap :: "json_object \<Rightarrow> (string \<times> string) list" where
  "extractArgumentMap args =
     (case json_obj (map_of args ''arguments'') of
        None \<Rightarrow> []
      | Some argsObj \<Rightarrow> List.map_filter (\<lambda>(k, v). map_option (Pair k) (json_str (Some v))) argsObj)"

definition resolve_argument :: "(string \<times> string) list \<Rightarrow> Argument \<Rightarrow> (string \<times> string) list \<Rightarrow> (string \<times> string) list" where
  "resolve_argument provided arg resolved =
     (case map_of provided (ag_Name arg) of
        Some val \<Rightarrow> AList.update (ag_Name arg) val resolved
      | None \<Rightarrow> if ag_Default arg \<noteq> [] then AList.update (ag_Name arg) (ag_Default arg) resolved else resolved)"

definition resolveArguments :: "UserCommand \<Rightarrow> json_object \<Rightarrow> (string \<times> string) list" where
  "resolveArguments cmd args = fold (resolve_argument (extractArgumentMap args)) (uc_Arguments cmd) []"

definition validateArguments :: "UserCommand \<Rightarrow> json_object \<Rightarrow> (string \<times> string) list result" where
  "validateArguments cmd args =
     (let resolved = resolveArguments cmd args
      in case find (\<lambda>arg. ag_Required arg \<and> map_of resolved (ag_Name arg) = None) (uc_Arguments cmd) of
           Some arg \<Rightarrow> Inl (Errorf ''missing required argument: %s'' [AStr (ag_Name arg)])
         | None \<Rightarrow> Inr resolved)"

definition allowedEnvKeys :: "string list" where
  "allowedEnvKeys = [''PATH'', ''HOME'', ''USER'', ''SHELL'', ''TMPDIR'', ''LANG'', ''TERM'']"

text \<open>An entry of the environment, and the variable of an argument.\<close>

definition env_entry :: "string \<Rightarrow> string \<Rightarrow> string" where
  "env_entry k v = k @ ''='' @ v"

definition arg_variable :: "string \<Rightarrow> string" where
  "arg_variable name = ''KONTEKST_ARG_'' @ to_upper name"

definition buildEnv ::
  "(string \<Rightarrow> string option) \<Rightarrow> ((string \<times> string) list \<Rightarrow> (string \<times> string) list) \<Rightarrow> UserCommand \<Rightarrow>
     (string \<times> string) list \<Rightarrow> string \<Rightarrow> string list" where
  "buildEnv environ order cmd resolvedArgs agentDir =
     List.map_filter (\<lambda>key. map_option (env_entry key) (environ key)) allowedEnvKeys @
     [env_entry ''KONTEKST_COMMAND_DIR'' (uc_Dir cmd)] @
     (if agentDir \<noteq> [] then [env_entry ''KONTEKST_WORKDIR'' agentDir] else []) @
     map (\<lambda>(name, value). env_entry (arg_variable name) value) (order resolvedArgs)"

definition interpreterAndScript :: "UserCommand \<Rightarrow> fs \<Rightarrow> string \<times> string" where
  "interpreterAndScript cmd s =
     (if uc_Runtime cmd = ''python''
      then (let venvPython = path_join [uc_Dir cmd, ''.venv'', ''bin'', ''python'']
            in case os_Stat s venvPython of Inr _ \<Rightarrow> (venvPython, uc_ScriptPath cmd) | Inl _ \<Rightarrow> (''python3'', uc_ScriptPath cmd))
      else (''bash'', uc_ScriptPath cmd))"

definition resolveWorkDir :: "UserCommand \<Rightarrow> string \<Rightarrow> string" where
  "resolveWorkDir cmd agentDir = (if uc_WorkingDir cmd = ''agent'' \<and> agentDir \<noteq> [] then agentDir else uc_Dir cmd)"

abbreviation venvSetupTimeout :: int where "venvSetupTimeout \<equiv> 120"

definition run_setup :: "spawn \<Rightarrow> string \<Rightarrow> string list \<Rightarrow> string \<Rightarrow> string \<Rightarrow> fs \<Rightarrow> unit result \<times> fs" where
  "run_setup spawn path args dir what s =
     (case spawn \<lparr>ps_Path = path, ps_Args = args, ps_Dir = dir, ps_Env = None, ps_Timeout = venvSetupTimeout\<rparr> s of
        ((result, Some err), s1) \<Rightarrow> (Inl (Errorf (what @ '' failed: %w'' @ nl # ''%s'') [AErr err, AStr result]), s1)
      | ((result, None), s1) \<Rightarrow> (Inr (), s1))"

definition ensureVenv :: "spawn \<Rightarrow> UserCommand \<Rightarrow> fs \<Rightarrow> unit result \<times> fs" where
  "ensureVenv spawn cmd s =
     (let venvDir = path_join [uc_Dir cmd, ''.venv'']
      in case os_Stat s venvDir of
           Inr _ \<Rightarrow> (Inr (), s)
         | Inl _ \<Rightarrow>
             (case run_setup spawn ''python3'' [''-m'', ''venv'', venvDir] (uc_Dir cmd) ''venv creation'' s of
                (Inl err, s1) \<Rightarrow> (Inl err, s1)
              | (Inr _, s1) \<Rightarrow>
                  let reqPath = path_join [uc_Dir cmd, uc_RequirementsFile cmd]
                  in case os_Stat s1 reqPath of
                       Inl _ \<Rightarrow> (Inr (), s1)
                     | Inr _ \<Rightarrow>
                         run_setup spawn (path_join [venvDir, ''bin'', ''pip'']) [''install'', ''-r'', reqPath] (uc_Dir cmd)
                           ''pip install'' s1))"

definition preview_environment :: "UserCommand \<Rightarrow> (string \<times> string) list \<Rightarrow> string" where
  "preview_environment cmd resolvedArgs =
     (if resolvedArgs = [] then []
      else nl # ''Environment:'' @ nl #
        concat (map (\<lambda>a. case map_of resolvedArgs (ag_Name a) of None \<Rightarrow> []
                 | Some val \<Rightarrow> sprintf (''  %s=%s'' @ [nl]) [arg_variable (ag_Name a), val]) (uc_Arguments cmd)))"

definition command_Preview :: "CommandRegistry \<Rightarrow> json_object \<Rightarrow> fs ctx \<Rightarrow> fs \<Rightarrow> string result" where
  "command_Preview registry args ctx s =
     (let name = str_or_empty (getStringArg ''name'' args)
      in if name = [] then Inr []
         else case commands_Get registry name of
           None \<Rightarrow> Inr (sprintf ''Command not found: %s'' [name])
         | Some cmd \<Rightarrow>
             Inr (sprintf (''Command: %s'' @ [nl]) [uc_Name cmd] @ sprintf (''Runtime: %s'' @ [nl]) [uc_Runtime cmd] @
                  sprintf (''Script:  %s'' @ [nl]) [uc_ScriptPath cmd] @ sprintf (''Timeout: %ds'' @ [nl]) [itoa (uc_Timeout cmd)] @
                  sprintf (''WorkDir: %s'' @ [nl]) [resolveWorkDir cmd (WorkingDir ctx)] @
                  preview_environment cmd (resolveArguments cmd args)))"

text \<open>The process of a command.\<close>

definition command_process ::
  "(string \<Rightarrow> string option) \<Rightarrow> ((string \<times> string) list \<Rightarrow> (string \<times> string) list) \<Rightarrow> UserCommand \<Rightarrow>
     (string \<times> string) list \<Rightarrow> string \<Rightarrow> fs \<Rightarrow> process" where
  "command_process environ order cmd resolvedArgs agentDir s =
     (case interpreterAndScript cmd s of (interpreter, script) \<Rightarrow>
        \<lparr>ps_Path = interpreter, ps_Args = [script], ps_Dir = resolveWorkDir cmd agentDir,
         ps_Env = Some (buildEnv environ order cmd resolvedArgs agentDir), ps_Timeout = uc_Timeout cmd\<rparr>)"

definition command_Execute ::
  "spawn \<Rightarrow> (string \<Rightarrow> string option) \<Rightarrow> ((string \<times> string) list \<Rightarrow> (string \<times> string) list) \<Rightarrow>
     CommandRegistry \<Rightarrow> json_object \<Rightarrow> fs ctx \<Rightarrow> fs \<Rightarrow> string result \<times> fs" where
  "command_Execute spawn environ order registry args ctx s =
     (let name = str_or_empty (getStringArg ''name'' args)
      in if name = [] then (Inl (Errorf ''command name is required'' []), s)
         else case commands_Get registry name of
           None \<Rightarrow> (Inl (Errorf ''command not found: %s'' [AStr name]), s)
         | Some cmd \<Rightarrow>
             (case validateArguments cmd args of
                Inl err \<Rightarrow> (Inl err, s)
              | Inr resolvedArgs \<Rightarrow>
                  (case (if uc_Runtime cmd = ''python'' \<and> uc_RequirementsFile cmd \<noteq> [] then ensureVenv spawn cmd s else (Inr (), s)) of
                     (Inl err, s1) \<Rightarrow> (Inl (Errorf ''failed to set up python venv: %w'' [AErr err]), s1)
                   | (Inr _, s1) \<Rightarrow>
                       (case spawn (command_process environ order cmd resolvedArgs (WorkingDir ctx) s1) s1 of
                          ((out, err), s2) \<Rightarrow>
                            let result = take maxOutputBytes out
                            in (case err of
                                  Some e \<Rightarrow> Inl (Errorf (''command %q failed: %w'' @ nl # ''%s'') [AQuote name, AErr e, AStr result])
                                | None \<Rightarrow> Inr result, s2)))))"

definition CommandTool ::
  "spawn \<Rightarrow> (string \<Rightarrow> string option) \<Rightarrow> ((string \<times> string) list \<Rightarrow> (string \<times> string) list) \<Rightarrow> CommandRegistry \<Rightarrow> fs Tool" where
  "CommandTool spawn environ order registry =
     \<lparr>tl_Name = ''run_command'', tl_Description = command_Description registry, tl_Parameters = command_Parameters,
      tl_RequiresApproval = True, tl_Execute = command_Execute spawn environ order registry,
      tl_Preview = Some (command_Preview registry)\<rparr>"

definition RegisterCommand ::
  "spawn \<Rightarrow> (string \<Rightarrow> string option) \<Rightarrow> ((string \<times> string) list \<Rightarrow> (string \<times> string) list) \<Rightarrow> CommandRegistry \<Rightarrow>
     fs ToolMap \<Rightarrow> fs ToolMap" where
  "RegisterCommand spawn environ order commandsRegistry registry =
     registry_Add (CommandTool spawn environ order commandsRegistry) registry"

section \<open>Commands that are stored are valid\<close>

text \<open>The path of the requirements stays below the directory of the command.\<close>

definition contained :: "string \<Rightarrow> string \<Rightarrow> bool" where
  "contained dir path \<longleftrightarrow>
     elements (path_join [dir, path]) = elements dir @ elements path \<and> ''..'' \<notin> set (elements path)"

definition valid_command :: "fs \<Rightarrow> UserCommand \<Rightarrow> bool" where
  "valid_command s c \<longleftrightarrow> uc_Name c \<noteq> [] \<and>
     (\<exists>script. script_name (uc_Runtime c) = Some script \<and> uc_ScriptPath c = path_join [uc_Dir c, script]) \<and>
     isl (os_Stat s (uc_ScriptPath c)) = False \<and>
     uc_WorkingDir c \<in> {''command'', ''agent''} \<and> 1 \<le> uc_Timeout c \<and> uc_Timeout c \<le> 300 \<and>
     list_all (\<lambda>a. ag_Name a \<noteq> [] \<and> ag_Type a = ''string'') (uc_Arguments c) \<and>
     (uc_RequirementsFile c \<noteq> [] \<longrightarrow> contained (uc_Dir c) (uc_RequirementsFile c))"

lemma validate_each_ok: "validate_each args = Inr () \<longleftrightarrow> list_all (\<lambda>a. ag_Name a \<noteq> [] \<and> ag_Type a = ''string'') args"
  by (induction args) auto

lemma clamp_timeout_range: "1 \<le> clamp_timeout t \<and> clamp_timeout t \<le> 300"
  by (simp add: clamp_timeout_def Let_def)

lemma relative_contained:
  assumes "dir \<noteq> []" and "\<not> is_abs (path_clean p)" and "\<not> has_prefix (path_clean p) ''..''"
  shows "contained dir p"
proof -
  have "''..'' \<notin> set (elements p)" using assms(2,3) by (intro no_dotdot_elements) simp_all
  moreover from this have "elements (path_join [dir, p]) = elements dir @ elements p"
    using assms(1,2) by (intro elements_join) simp_all
  ultimately show ?thesis by (simp add: contained_def)
qed

lemma validate_ok:
  assumes "validate c = Inr ()"
  shows "uc_Name c \<noteq> [] \<and> uc_WorkingDir c \<in> {''command'', ''agent''} \<and>
    list_all (\<lambda>a. ag_Name a \<noteq> [] \<and> ag_Type a = ''string'') (uc_Arguments c) \<and>
    (uc_RequirementsFile c \<noteq> [] \<longrightarrow> uc_Dir c \<noteq> [] \<longrightarrow> contained (uc_Dir c) (uc_RequirementsFile c))"
  using assms relative_contained
  by (auto simp: validate_def validate_each_ok [symmetric] Let_def split: if_splits)

lemma loadCommandDir_valid:
  assumes "loadCommandDir toml s dir = Inr c" and "dir \<noteq> []"
  shows "valid_command s c \<and> uc_Dir c = dir"
proof -
  obtain m script where m: "script_name (mf_Runtime m) = Some script" "c = command_of dir (path_join [dir, script]) m"
    "\<not> isl (os_Stat s (path_join [dir, script]))" "validate c = Inr ()"
    using assms(1) by (auto simp: loadCommandDir_def result_simps Let_def)
  then have "uc_Dir c = dir" by (simp add: command_of_def)
  moreover have "uc_Timeout c = clamp_timeout (mf_Timeout m)" "uc_Runtime c = mf_Runtime m" "uc_ScriptPath c = path_join [dir, script]"
    using m(2) by (simp_all add: command_of_def)
  ultimately show ?thesis using validate_ok [OF m(4)] m clamp_timeout_range [of "mf_Timeout m"] assms(2) by (auto simp: valid_command_def)
qed

lemma load_commands_put:
  "load_commands toml s entries r =
     command_store.put_all (List.map_filter (load_entry toml s (cr_commandsDir r)) entries) r"
proof (induction entries arbitrary: r)
  case (Cons e es)
  have "cr_commandsDir (store_command c r) = cr_commandsDir r" for c by (simp add: store_command_def)
  then show ?case using Cons by (auto simp: List.map_filter_def split: option.split)
qed (simp add: List.map_filter_def)

lemma map_filter_source: "y \<in> set (List.map_filter f xs) \<Longrightarrow> \<exists>x \<in> set xs. f x = Some y"
  by (auto simp: List.map_filter_def)

lemma path_join_nonempty: "d \<noteq> [] \<Longrightarrow> path_join [d, n] \<noteq> []"
proof -
  have "path_clean p \<noteq> []" for p
    using elements_no_slash [of "[]" p] by (cases "elements p"; cases "tl (elements p)") (auto simp: path_clean_def)
  then show "d \<noteq> [] \<Longrightarrow> path_join [d, n] \<noteq> []" by (simp add: path_join_def)
qed

text \<open>
  C19: every command that a lookup finds after a load is valid, whatever the manifests say: it has a
  name, the one it was asked for; a runtime and the script of that runtime in its own directory, which
  is a directory below that of the commands; a working directory of one of the two kinds; a timeout
  between one second and five minutes; named arguments of type string; and a requirements file that
  does not lead out of its directory.
\<close>

theorem loaded_command_valid:
  assumes "commands_Load toml s r = (Inr (), r')" and "commands_Get r' name = Some c" and "cr_commandsDir r \<noteq> []"
  shows "valid_command s c \<and> uc_Name c = name \<and> (\<exists>n. uc_Dir c = path_join [cr_commandsDir r, n])"
proof -
  define loads where "loads = load_entry toml s (cr_commandsDir r)"
  obtain entries where get: "commands_Get (command_store.put_all (List.map_filter loads entries) (r\<lparr>cr_commands := []\<rparr>)) name = Some c"
    using assms(1,2)
    by (auto simp: commands_Load_def Let_def load_commands_put loads_def commands_Get_def split: if_splits sum.splits)
  have empty: "commands_Get (r\<lparr>cr_commands := []\<rparr>) n = None" for n by (simp add: commands_Get_def)
  have "valid_command s c \<and> (\<exists>n. uc_Dir c = path_join [cr_commandsDir r, n])"
  proof (rule command_store.get_put_all_property [OF get])
    fix v assume "v \<in> set (List.map_filter loads entries)"
    then obtain entry where "loads entry = Some v" using map_filter_source by metis
    then obtain n where "loadCommandDir toml s (path_join [cr_commandsDir r, n]) = Inr v"
      by (cases entry) (auto simp: loads_def load_entry_def split: if_splits sum.splits)
    then show "valid_command s v \<and> (\<exists>n. uc_Dir v = path_join [cr_commandsDir r, n])"
      using loadCommandDir_valid path_join_nonempty [OF assms(3)] by blast
  qed (simp add: empty)
  moreover have "uc_Name c = name"
    using get by (auto simp: command_store.get_put_all empty find_Some_iff split: option.splits)
  ultimately show ?thesis by blast
qed

text \<open>A directory with one command.\<close>

definition hi_toml :: "string \<Rightarrow> manifest result" where
  "hi_toml data = Inr \<lparr>mf_Name = ''hi'', mf_Description = [], mf_Runtime = ''bash'', mf_WorkingDir = [], mf_Timeout = 900,
     mf_Arguments = [\<lparr>ma_Name = ''who'', ma_Type = ''string'', ma_Description = [], ma_Required = True, ma_Default = []\<rparr>],
     mf_Requirements = []\<rparr>"

definition hi_fs :: fs where
  "hi_fs = \<lparr>nodes = [(''/c'', DirNode), (''/c/h'', DirNode), (''/c/h/command.toml'', FileNode []), (''/c/h/run.sh'', FileNode [])], faults = []\<rparr>"

theorem loaded_command_valid_witness:
  "\<exists>c. commands_Get (snd (commands_Load hi_toml hi_fs (NewCommandRegistry ''/c''))) ''hi'' = Some c \<and>
     uc_Name c = ''hi'' \<and> uc_Timeout c \<le> 300"
proof -
  have ev: "fst (commands_Load hi_toml hi_fs (NewCommandRegistry ''/c'')) = Inr ()"
    "commands_Get (snd (commands_Load hi_toml hi_fs (NewCommandRegistry ''/c''))) ''hi'' \<noteq> None"
    by code_simp+
  obtain r' where load: "commands_Load hi_toml hi_fs (NewCommandRegistry ''/c'') = (Inr (), r')"
    using ev(1) by (metis prod.collapse)
  then obtain c where c: "commands_Get r' ''hi'' = Some c" using ev(2) by auto
  have "cr_commandsDir (NewCommandRegistry ''/c'') \<noteq> []" by (simp add: NewCommandRegistry_def)
  from loaded_command_valid [OF load c this] show ?thesis using c load by (simp add: valid_command_def)
qed

section \<open>What the process of a command is given\<close>

lemma map_of_resolve:
  "map_of (fold (resolve_argument provided) as resolved) n =
     (case find (\<lambda>a. ag_Name a = n \<and> (map_of provided n \<noteq> None \<or> ag_Default a \<noteq> [])) (rev as) of
        None \<Rightarrow> map_of resolved n
      | Some a \<Rightarrow> Some (case map_of provided n of Some v \<Rightarrow> v | None \<Rightarrow> ag_Default a))"
proof (induction as rule: rev_induct)
  case (snoc a as)
  then show ?case by (auto simp: resolve_argument_def update_conv' split: option.splits)
qed simp

lemma resolveArguments_declared:
  "map_of (resolveArguments cmd args) n = Some v \<Longrightarrow>
     \<exists>a \<in> set (uc_Arguments cmd). ag_Name a = n \<and>
       (map_of (extractArgumentMap args) n = Some v \<or> map_of (extractArgumentMap args) n = None \<and> v = ag_Default a)"
  by (auto simp: resolveArguments_def map_of_resolve find_Some_iff split: option.splits)
    (metis length_rev nth_mem set_rev)+

lemma resolveArguments_distinct: "distinct (map fst (resolveArguments cmd args))"
proof -
  have "distinct (map fst al) \<Longrightarrow> distinct (map fst (fold (resolve_argument provided) as al))" for al provided as
    by (induction as arbitrary: al) (auto simp: resolve_argument_def distinct_update split: option.split)
  then show ?thesis by (simp add: resolveArguments_def)
qed

definition plain_variables :: "string list" where
  "plain_variables = allowedEnvKeys @ [''KONTEKST_COMMAND_DIR'', ''KONTEKST_WORKDIR'']"

lemma buildEnv_entry:
  assumes "e \<in> set (buildEnv environ order cmd resolved agentDir)"
  shows "(\<exists>k \<in> set plain_variables. \<exists>v. e = env_entry k v) \<or>
    (\<exists>n v. (n, v) \<in> set (order resolved) \<and> e = env_entry (arg_variable n) v)"
proof -
  have "\<exists>k \<in> set plain_variables. \<exists>v. e = env_entry k v"
    if "e \<in> set (List.map_filter (\<lambda>key. map_option (env_entry key) (environ key)) allowedEnvKeys)"
    using map_filter_source [OF that] by (auto simp: plain_variables_def)
  moreover define D W where "D = ''KONTEKST_COMMAND_DIR''" and "W = ''KONTEKST_WORKDIR''"
  have "D \<in> set plain_variables" "W \<in> set plain_variables" by (simp_all add: plain_variables_def D_def W_def)
  ultimately show ?thesis
    using assms unfolding buildEnv_def D_def [symmetric] W_def [symmetric]
    by (auto simp del: map_filter_simps split: if_splits)
qed

text \<open>
  C27: the environment of a command is closed: each entry is one of the seven variables passed on, the
  two directories, or the value of an argument that the command declares, under the prefix reserved
  for arguments, so that no argument can set a variable such as PATH; its value is the one the model
  gave or the default of the manifest. Every required argument has its entry.
\<close>

theorem command_environment:
  assumes "validateArguments cmd args = Inr resolved" and "\<And>xs. mset (order xs) = mset xs"
  shows "(\<forall>e \<in> set (buildEnv environ order cmd resolved agentDir).
      (\<exists>k v. e = env_entry k v \<and> k \<in> set plain_variables) \<or>
      (\<exists>a \<in> set (uc_Arguments cmd). \<exists>v. e = env_entry (arg_variable (ag_Name a)) v \<and>
         (map_of (extractArgumentMap args) (ag_Name a) = Some v \<or> v = ag_Default a))) \<and>
    (\<forall>a \<in> set (uc_Arguments cmd). ag_Required a \<longrightarrow>
      (\<exists>v. env_entry (arg_variable (ag_Name a)) v \<in> set (buildEnv environ order cmd resolved agentDir)))"
proof -
  have r: "resolved = resolveArguments cmd args"
    "\<forall>a \<in> set (uc_Arguments cmd). ag_Required a \<longrightarrow> map_of resolved (ag_Name a) \<noteq> None"
    using assms(1) by (auto simp: validateArguments_def Let_def find_None_iff split: option.splits)
  have order: "set (order resolved) = set resolved" using assms(2) by (metis set_mset_mset)
  have arg: "\<exists>a \<in> set (uc_Arguments cmd). \<exists>v'. env_entry (arg_variable n) v = env_entry (arg_variable (ag_Name a)) v' \<and>
      (map_of (extractArgumentMap args) (ag_Name a) = Some v' \<or> v' = ag_Default a)" if "(n, v) \<in> set resolved" for n v
  proof -
    have "map_of resolved n = Some v" using that resolveArguments_distinct r(1) by (simp add: map_of_is_SomeI)
    then show ?thesis using resolveArguments_declared [of cmd args n v] r(1) by auto
  qed
  have "\<exists>v. env_entry (arg_variable (ag_Name a)) v \<in> set (buildEnv environ order cmd resolved agentDir)"
    if a: "a \<in> set (uc_Arguments cmd)" "ag_Required a" for a
  proof -
    obtain v where "(ag_Name a, v) \<in> set resolved" using r(2) a by (auto dest: map_of_SomeD)
    then show ?thesis using order by (intro exI [of _ v]) (force simp: buildEnv_def)
  qed
  moreover have "(\<exists>k v. e = env_entry k v \<and> k \<in> set plain_variables) \<or>
      (\<exists>a \<in> set (uc_Arguments cmd). \<exists>v. e = env_entry (arg_variable (ag_Name a)) v \<and>
         (map_of (extractArgumentMap args) (ag_Name a) = Some v \<or> v = ag_Default a))"
    if "e \<in> set (buildEnv environ order cmd resolved agentDir)" for e
    using buildEnv_entry [OF that] arg order by metis
  ultimately show ?thesis by blast
qed

theorem command_environment_witness:
  "let cmd = command_of ''/c/h'' ''/c/h/run.sh'' (projr (hi_toml []));
       e = buildEnv (\<lambda>_. None) rev cmd (projr (validateArguments cmd [(''arguments'', JObj [(''who'', JStr ''me'')])])) []
   in \<exists>v. env_entry (arg_variable ''who'') v \<in> set e"
proof -
  define cmd where "cmd = command_of ''/c/h'' ''/c/h/run.sh'' (projr (hi_toml []))"
  define args where "args = [(''arguments'', JObj [(''who'', JStr ''me'')])]"
  have ev: "\<not> isl (validateArguments cmd args)" unfolding cmd_def args_def by code_simp
  then have r: "validateArguments cmd args = Inr (projr (validateArguments cmd args))" by (simp add: sum.expand)
  have a: "\<exists>a \<in> set (uc_Arguments cmd). ag_Required a \<and> ag_Name a = ''who''"
    by (simp add: cmd_def hi_toml_def command_of_def argument_of_def)
  have "mset (rev xs) = mset xs" for xs :: "(string \<times> string) list" by simp
  from command_environment [OF r this, of "\<lambda>_. None" "[]"] a show ?thesis
    unfolding Let_def cmd_def [symmetric] args_def [symmetric] by metis
qed

section \<open>Virtual environments\<close>

text \<open>
  The directory of the virtual environment stands for a complete installation, and it is made before
  the requirements are installed: when that fails, the next call finds the directory and runs the
  command without them.
\<close>

lemma failed_install_forgotten:
  assumes "os_Stat s1 (path_join [uc_Dir cmd, ''.venv'']) = Inr n" and "ensureVenv spawn cmd s = (Inl err, s1)"
  shows "ensureVenv spawn cmd s1 = (Inr (), s1)"
  using assms(1) by (simp add: ensureVenv_def Let_def)

text \<open>Two arguments whose names differ only in case share a variable.\<close>

lemma arguments_share_variable: "arg_variable ''out'' = arg_variable ''OUT''"
  by code_simp

end
