(* ===== verification/BuiltinTools.thy ===== *)
theory BuiltinTools
  imports Runner EditFile FileTools ListFiles WebFetch Commands ProtocolTypes
begin

text \<open>
  The built-in tools as the model and the agent see them: names, descriptions and parameter schemas
  (internal/tool/builtin), and \<open>RegisterAll\<close>. A file tool works on the files of the session's
  state; \<open>on_files\<close> makes it a tool of the whole state, whose window it cannot reach. Whatever
  the arguments, a file tool changes files below the base directory only, and of the tools of the
  registry only write_file, edit_file, commands and skills change anything.
\<close>

section \<open>Tools on the state of a session\<close>

definition file_ctx :: "'w ctx \<Rightarrow> fs ctx" where
  "file_ctx ctx = \<lparr>cx_workingDir = cx_workingDir ctx, cx_skill = None\<rparr>"

definition on_files :: "fs Tool \<Rightarrow> world Tool" where
  "on_files t =
     \<lparr>tl_Name = tl_Name t, tl_Description = tl_Description t, tl_Parameters = tl_Parameters t,
      tl_RequiresApproval = tl_RequiresApproval t,
      tl_Execute = (\<lambda>args ctx w. case tl_Execute t args (file_ctx ctx) (wd_fs w) of (r, s) \<Rightarrow> (r, w\<lparr>wd_fs := s\<rparr>)),
      tl_Preview = map_option (\<lambda>preview args ctx w. preview args (file_ctx ctx) (wd_fs w)) (tl_Preview t)\<rparr>"

text \<open>A property of a schema: its type and its description.\<close>

definition described :: "string \<Rightarrow> string \<Rightarrow> json" where
  "described type text = JObj [(''type'', JStr type), (''description'', JStr text)]"

definition object_schema :: "(string \<times> json) list \<Rightarrow> string list \<Rightarrow> json" where
  "object_schema properties required =
     JObj [(''type'', JStr ''object''), (''properties'', JObj properties), (''required'', JArr (map JStr required))]"

definition quoted_name :: "string \<Rightarrow> string" where
  "quoted_name name = CHR 0x27 # name @ [CHR 0x27]"

section \<open>The file tools\<close>

definition read_file_Description :: string where
  "read_file_Description =
     ''Reads a file and returns its content with line numbers and hashes. Format: '' @ quoted_name ''linenum:hash|content'' @
     ''. Supports optional line range (1-indexed, inclusive). Use the hash values when editing files with edit_file.''"

definition read_file_Parameters :: json where
  "read_file_Parameters =
     object_schema
       [(''path'', described ''string'' ''Relative path to the file to read''),
        (''start_line'', described ''integer'' ''First line to read (1-indexed, default: 1)''),
        (''end_line'', described ''integer'' ''Last line to read (inclusive, default: end of file)'')]
       [''path'']"

definition ReadFileTool :: "string \<Rightarrow> fs Tool" where
  "ReadFileTool BaseDir =
     \<lparr>tl_Name = ''read_file'', tl_Description = read_file_Description, tl_Parameters = read_file_Parameters,
      tl_RequiresApproval = True, tl_Execute = (\<lambda>args ctx s. (read_file_Execute BaseDir args (WorkingDir ctx) s, s)),
      tl_Preview = None\<rparr>"

definition list_files_Parameters :: json where
  "list_files_Parameters = object_schema [(''pattern'', JObj [(''type'', JStr ''string'')])] [''pattern'']"

definition ListFilesTool :: "string \<Rightarrow> fs Tool" where
  "ListFilesTool BaseDir =
     \<lparr>tl_Name = ''list_files'',
      tl_Description = ''Lists files matching a glob pattern. Returns relative paths, excludes directories.'',
      tl_Parameters = list_files_Parameters, tl_RequiresApproval = True,
      tl_Execute = (\<lambda>args ctx s. (list_files_Execute (WorkingDir ctx) BaseDir args s, s)), tl_Preview = None\<rparr>"

definition write_file_Parameters :: json where
  "write_file_Parameters =
     object_schema
       [(''path'', described ''string'' ''Relative path to the file to write''),
        (''content'', described ''string'' ''Content to write to the file'')]
       [''path'', ''content'']"

definition write_file_tool :: "WriteFileTool \<Rightarrow> fs Tool" where
  "write_file_tool tool =
     \<lparr>tl_Name = ''write_file'', tl_Description = ''Creates or overwrites a file with the given content.'',
      tl_Parameters = write_file_Parameters, tl_RequiresApproval = True,
      tl_Execute = (\<lambda>args ctx s. write_file_Execute tool args (WorkingDir ctx) s),
      tl_Preview = Some (\<lambda>args ctx s. write_file_Preview tool args (WorkingDir ctx) s)\<rparr>"

definition edit_file_Description :: string where
  "edit_file_Description =
     ''Edits a file using hashline references. Operations: '' @ quoted_name ''replace'' @ '' (replace line content), '' @
     quoted_name ''insert_after'' @ '' (insert new line after specified line), '' @
     quoted_name ''insert_before'' @ '' (insert new line before specified line), '' @
     quoted_name ''delete'' @ '' (delete line). All operations validate the hash before applying changes. '' @
     ''Use hashes from read_file output.''"

definition edit_file_Parameters :: json where
  "edit_file_Parameters =
     object_schema
       [(''path'', described ''string'' ''Relative path to the file to edit''),
        (''edits'', JObj
          [(''type'', JStr ''array''), (''description'', JStr ''Array of edit operations to apply atomically''),
           (''items'', object_schema
              [(''operation'', JObj
                 [(''type'', JStr ''string''),
                  (''description'', JStr (''Edit operation: '' @ quoted_name ''replace'' @ '', '' @ quoted_name ''insert_after'' @ '', '' @
                                        quoted_name ''insert_before'' @ '', or '' @ quoted_name ''delete'')),
                  (''enum'', JArr (map JStr [''replace'', ''insert_after'', ''insert_before'', ''delete'']))]),
               (''line'', described ''integer'' ''Line number (1-indexed) to edit or use as anchor''),
               (''hash'', described ''string'' ''Hash of the line for validation (from read_file output)''),
               (''content'', described ''string'' ''New content (required for replace/insert operations, omitted for delete)'')]
              [''operation'', ''line'', ''hash''])])]
       [''path'', ''edits'']"

text \<open>\<open>Preview\<close> is the structured preview as JSON text.\<close>

definition edit_file_Preview :: "(DiffPreview \<Rightarrow> string result) \<Rightarrow> EditFileTool \<Rightarrow> json_object \<Rightarrow> string \<Rightarrow> fs \<Rightarrow> string result" where
  "edit_file_Preview marshal tool args workingDir s =
     result_bind (PreviewStructured tool args workingDir s) (\<lambda>preview.
       map_error (\<lambda>err. Errorf ''edit_file: marshal preview: %w'' [AErr err]) (marshal preview))"

definition edit_file_tool :: "(DiffPreview \<Rightarrow> string result) \<Rightarrow> EditFileTool \<Rightarrow> fs Tool" where
  "edit_file_tool marshal tool =
     \<lparr>tl_Name = ''edit_file'', tl_Description = edit_file_Description, tl_Parameters = edit_file_Parameters,
      tl_RequiresApproval = True, tl_Execute = (\<lambda>args ctx s. edit_file_Execute tool args (WorkingDir ctx) s),
      tl_Preview = Some (\<lambda>args ctx s. edit_file_Preview marshal tool args (WorkingDir ctx) s)\<rparr>"

definition WebFetchTool :: "web \<Rightarrow> WebToolsConfig \<Rightarrow> fs Tool" where
  "WebFetchTool w cfg =
     \<lparr>tl_Name = web_fetch_Name, tl_Description = web_fetch_Description, tl_Parameters = web_fetch_Parameters,
      tl_RequiresApproval = True, tl_Execute = (\<lambda>args ctx s. (fst (web_fetch_Execute w cfg args), s)), tl_Preview = None\<rparr>"

section \<open>RegisterAll\<close>

definition RegisterReadFile :: "string \<Rightarrow> world ToolMap \<Rightarrow> world ToolMap" where
  "RegisterReadFile baseDir registry = registry_Add (on_files (ReadFileTool baseDir)) registry"

definition RegisterListFiles :: "string \<Rightarrow> world ToolMap \<Rightarrow> world ToolMap" where
  "RegisterListFiles baseDir registry = registry_Add (on_files (ListFilesTool baseDir)) registry"

definition RegisterWriteFile :: "string \<Rightarrow> FileToolsConfig \<Rightarrow> world ToolMap \<Rightarrow> world ToolMap" where
  "RegisterWriteFile baseDir cfg registry =
     registry_Add (on_files (write_file_tool \<lparr>wf_BaseDir = baseDir, wf_MaxSizeBytes = ft_MaxSizeBytes cfg\<rparr>)) registry"

definition RegisterEditFile :: "(DiffPreview \<Rightarrow> string result) \<Rightarrow> string \<Rightarrow> FileToolsConfig \<Rightarrow> world ToolMap \<Rightarrow> world ToolMap" where
  "RegisterEditFile marshal baseDir cfg registry =
     registry_Add (on_files (edit_file_tool marshal \<lparr>ef_BaseDir = baseDir, ef_MaxSizeBytes = ft_MaxSizeBytes cfg\<rparr>)) registry"

definition RegisterWebFetch :: "web \<Rightarrow> WebToolsConfig \<Rightarrow> world ToolMap \<Rightarrow> world ToolMap" where
  "RegisterWebFetch w cfg registry = registry_Add (on_files (WebFetchTool w cfg)) registry"

definition RegisterAll :: "web \<Rightarrow> (DiffPreview \<Rightarrow> string result) \<Rightarrow> string \<Rightarrow> ToolsConfig \<Rightarrow> world ToolMap \<Rightarrow> world ToolMap" where
  "RegisterAll w marshal baseDir cfg registry =
     RegisterWebFetch w (tg_Web cfg)
       (RegisterEditFile marshal baseDir (tg_File cfg)
         (RegisterWriteFile baseDir (tg_File cfg)
           (RegisterListFiles baseDir (RegisterReadFile baseDir registry))))"

section \<open>What the registered tools are\<close>

lemma on_files_name [simp]: "tl_Name (on_files t) = tl_Name t"
  by (simp add: on_files_def)

lemma on_files_run:
  "tl_Execute (on_files t) args ctx w = (case tl_Execute t args (file_ctx ctx) (wd_fs w) of (r, s) \<Rightarrow> (r, w\<lparr>wd_fs := s\<rparr>))"
  by (simp add: on_files_def)

definition file_tools :: "web \<Rightarrow> (DiffPreview \<Rightarrow> string result) \<Rightarrow> string \<Rightarrow> ToolsConfig \<Rightarrow> fs Tool list" where
  "file_tools w marshal baseDir cfg =
     [ReadFileTool baseDir, ListFilesTool baseDir,
      write_file_tool \<lparr>wf_BaseDir = baseDir, wf_MaxSizeBytes = ft_MaxSizeBytes (tg_File cfg)\<rparr>,
      edit_file_tool marshal \<lparr>ef_BaseDir = baseDir, ef_MaxSizeBytes = ft_MaxSizeBytes (tg_File cfg)\<rparr>,
      WebFetchTool w (tg_Web cfg)]"

lemma RegisterAll_put: "RegisterAll w marshal baseDir cfg registry = tool_store.put_all (map on_files (file_tools w marshal baseDir cfg)) registry"
  by (simp add: RegisterAll_def RegisterReadFile_def RegisterListFiles_def RegisterWriteFile_def RegisterEditFile_def
      RegisterWebFetch_def file_tools_def)

lemma tool_names:
  "map tl_Name (file_tools w marshal baseDir cfg) = [''read_file'', ''list_files'', ''write_file'', ''edit_file'', ''web_fetch'']"
  by (simp add: file_tools_def ReadFileTool_def ListFilesTool_def write_file_tool_def edit_file_tool_def WebFetchTool_def web_fetch_Name_def)

lemma find_member: "find P xs = Some v \<Longrightarrow> v \<in> set xs \<and> P v"
  by (induction xs) (auto split: if_splits)

text \<open>A tool that the registry finds after \<open>RegisterAll\<close> is one of the five, under its own name, or was there before.\<close>

lemma RegisterAll_found:
  assumes "registry_GetTool (RegisterAll w marshal baseDir cfg registry) name = Some t"
  shows "(\<exists>f. f \<in> set (file_tools w marshal baseDir cfg) \<and> t = on_files f \<and> tl_Name f = name) \<or> registry_GetTool registry name = Some t"
proof (cases "find (\<lambda>v. tl_Name v = name) (rev (map on_files (file_tools w marshal baseDir cfg)))")
  case None
  then show ?thesis using assms by (simp add: RegisterAll_put tool_store.get_put_all)
next
  case (Some v)
  from find_member [OF this] have "v \<in> set (map on_files (file_tools w marshal baseDir cfg)) \<and> tl_Name v = name" by simp
  then show ?thesis using assms Some by (auto simp: RegisterAll_put tool_store.get_put_all)
qed

section \<open>Where files change\<close>

definition below :: "string \<Rightarrow> string \<Rightarrow> bool" where
  "below base q \<longleftrightarrow> is_abs q = is_abs base \<and> take (length (elements base)) (elements q) = elements base \<and>
     ''..'' \<notin> set (drop (length (elements base)) (elements q))"

definition changes_below :: "string \<Rightarrow> fs \<Rightarrow> fs \<Rightarrow> bool" where
  "changes_below base s s' \<longleftrightarrow>
     (\<forall>q. lookup s' q = lookup s q \<or> lookup s q = None \<and> lookup s' q = Some DirNode \<or> below base q)"

lemma valid_path_below:
  assumes "validatePath args = Inr path" and "base \<noteq> []"
  shows "below base (path_join [base, path])"
proof -
  have safe: "isRelativePathSafe path" using assms(1) by (simp add: validatePath_Inr)
  have "path_join [base, path] = path_clean (base @ slash # path)" using assms(2) by (simp add: path_join_def)
  moreover have "is_abs (base @ slash # path) = is_abs base" using assms(2) by (cases base) (auto simp: is_abs_def has_prefix_def)
  moreover have "elements (path_join [base, path]) = elements base @ elements path"
    by (rule elements_join [OF assms(2) safe_path_relative [OF safe] safe_path_no_dotdot [OF safe]])
  ultimately show ?thesis using safe_path_no_dotdot [OF safe] by (simp add: below_def)
qed

lemma changes_below_refl: "changes_below base s s"
  by (simp add: changes_below_def)

lemma changes_below_put: "changes_below base s s1 \<Longrightarrow> below base p \<Longrightarrow> changes_below base s (put_node p n s1)"
  unfolding changes_below_def by (metis lookup_put)

lemma write_file_below:
  assumes "write_file_Execute tool args workingDir s = (r, s')" and "resolveBaseDir workingDir (wf_BaseDir tool) \<noteq> []"
  shows "changes_below (resolveBaseDir workingDir (wf_BaseDir tool)) s s'"
proof (cases "s' = s")
  case False
  define base where "base = resolveBaseDir workingDir (wf_BaseDir tool)"
  obtain path content where p: "validatePath args = Inr path" "getStringArg ''content'' args = Some content"
    using assms(1) False by (auto simp: write_file_Execute_def split: sum.splits option.splits)
  obtain m s1 where m: "os_MkdirAll s (path_dir (path_join [base, path])) = (m, s1)" by force
  have "s' = s1 \<or> os_WriteFile s1 (path_join [base, path]) content = Inr s'"
    using assms(1) False p m by (auto simp: write_file_Execute_def base_def Let_def split: sum.splits if_splits)
  then have "s' = s1 \<or> s' = put_node (path_join [base, path]) (FileNode content) s1" by (auto dest: os_WriteFile_ok)
  moreover have "changes_below base s s1" using os_MkdirAll_frame [OF m] unfolding changes_below_def by blast
  moreover have "below base (path_join [base, path])" using valid_path_below [OF p(1)] assms(2) by (simp add: base_def)
  ultimately show ?thesis unfolding base_def [symmetric] by (auto intro: changes_below_put)
qed (simp add: changes_below_refl)

lemma edit_file_below:
  assumes "edit_file_Execute tool args workingDir s = (r, s')" and "resolveBaseDir workingDir (ef_BaseDir tool) \<noteq> []"
  shows "changes_below (resolveBaseDir workingDir (ef_BaseDir tool)) s s'"
proof (cases "s' = s")
  case False
  then obtain plan d where plan: "prepareEdits tool args workingDir s = Inr plan" "os_WriteFile s (ep_fullPath plan) d = Inr s'"
    using assms(1) by (auto simp: edit_file_Execute_def Let_def split: sum.splits if_splits)
  have "validatePath args = Inr (ep_path plan) \<and> ep_fullPath plan = path_join [resolveBaseDir workingDir (ef_BaseDir tool), ep_path plan]"
    using prepareEdits_Inr [OF plan(1)] by metis
  then show ?thesis
    using os_WriteFile_ok [OF plan(2)] valid_path_below assms(2) by (auto intro: changes_below_put changes_below_refl)
qed (simp add: changes_below_refl)

text \<open>
  C4: whatever arguments the model gives, a call of a built-in tool leaves the window alone and changes
  files below the working directory only, apart from making missing directories; only write_file and
  edit_file change any.
\<close>

theorem tools_confined:
  assumes "registry_Execute (RegisterAll w marshal baseDir cfg NewToolRegistry) name args ctx wd = (r, wd')"
    and "resolveBaseDir (WorkingDir ctx) baseDir \<noteq> []"
  shows "wd_window wd' = wd_window wd \<and> changes_below (resolveBaseDir (WorkingDir ctx) baseDir) (wd_fs wd) (wd_fs wd') \<and>
    (wd' = wd \<or> name \<in> {''write_file'', ''edit_file''})"
proof (cases "registry_GetTool (RegisterAll w marshal baseDir cfg NewToolRegistry) name")
  case None
  then show ?thesis using assms(1) by (simp add: registry_Execute_def changes_below_refl)
next
  case (Some t)
  then obtain f where f: "f \<in> set (file_tools w marshal baseDir cfg)" "t = on_files f" "tl_Name f = name"
    using RegisterAll_found [OF Some] by (auto simp: NewToolRegistry_def registry_GetTool_def)
  have run: "(case tl_Execute f args (file_ctx ctx) (wd_fs wd) of (r, s) \<Rightarrow> (r, wd\<lparr>wd_fs := s\<rparr>)) = (r, wd')"
    using assms(1) Some by (simp add: registry_Execute_def f(2) on_files_run)
  have dir: "WorkingDir (file_ctx ctx) = WorkingDir ctx" by (simp add: WorkingDir_def file_ctx_def)
  consider "f = ReadFileTool baseDir \<or> f = ListFilesTool baseDir \<or> f = WebFetchTool w (tg_Web cfg)"
    | "f = write_file_tool \<lparr>wf_BaseDir = baseDir, wf_MaxSizeBytes = ft_MaxSizeBytes (tg_File cfg)\<rparr>"
    | "f = edit_file_tool marshal \<lparr>ef_BaseDir = baseDir, ef_MaxSizeBytes = ft_MaxSizeBytes (tg_File cfg)\<rparr>"
    using f(1) by (auto simp: file_tools_def)
  then show ?thesis
  proof cases
    case 1
    then have "wd' = wd" using run by (auto simp: ReadFileTool_def ListFilesTool_def WebFetchTool_def)
    then show ?thesis by (simp add: changes_below_refl)
  next
    case 2
    obtain s' where x: "write_file_Execute \<lparr>wf_BaseDir = baseDir, wf_MaxSizeBytes = ft_MaxSizeBytes (tg_File cfg)\<rparr> args (WorkingDir ctx) (wd_fs wd) = (r, s')"
      "wd' = wd\<lparr>wd_fs := s'\<rparr>" using run 2 by (auto simp: write_file_tool_def dir split: prod.splits)
    show ?thesis using write_file_below [OF x(1)] assms(2) x(2) f(3) 2 by (simp add: write_file_tool_def)
  next
    case 3
    obtain s' where x: "edit_file_Execute \<lparr>ef_BaseDir = baseDir, ef_MaxSizeBytes = ft_MaxSizeBytes (tg_File cfg)\<rparr> args (WorkingDir ctx) (wd_fs wd) = (r, s')"
      "wd' = wd\<lparr>wd_fs := s'\<rparr>" using run 3 by (auto simp: edit_file_tool_def dir split: prod.splits)
    show ?thesis using edit_file_below [OF x(1)] assms(2) x(2) f(3) 3 by (simp add: edit_file_tool_def)
  qed
qed

definition silent_web :: web where
  "silent_web = \<lparr>wb_invalid = \<lambda>_ _. None, wb_send = \<lambda>_ _. SendFailed (Errorf ''no network'' []),
     wb_redirected = \<lambda>q _. rq_Headers q, wb_order = id\<rparr>"

definition small_tools :: ToolsConfig where
  "small_tools = \<lparr>tg_WorkingDir = [], tg_File = \<lparr>ft_MaxSizeBytes = 100\<rparr>, tg_Web = \<lparr>wt_TimeoutSeconds = 1, wt_MaxResponseBytes = 1\<rparr>\<rparr>"

theorem tools_confined_witness:
  "\<exists>r wd'. registry_Execute (RegisterAll silent_web (\<lambda>_. Inr []) ''/data'' small_tools NewToolRegistry) ''write_file''
       [(''path'', JStr ''a/b''), (''content'', JStr ''x'')] (WithWorkingDir Background ''/w'') sample_world = (r, wd') \<and>
     wd_window wd' = wd_window sample_world \<and> changes_below ''/w'' (wd_fs sample_world) (wd_fs wd')"
proof -
  define reg where "reg = RegisterAll silent_web (\<lambda>_. Inr []) ''/data'' small_tools NewToolRegistry"
  define args ctx where "args = [(''path'', JStr ''a/b''), (''content'', JStr ''x'')]" and "ctx = WithWorkingDir (Background :: world ctx) ''/w''"
  obtain r wd' where x: "registry_Execute reg ''write_file'' args ctx sample_world = (r, wd')" by force
  have d: "WorkingDir ctx = ''/w''" by (simp add: ctx_def WithWorkingDir_def WorkingDir_def str_or_empty_def)
  have "wd_window wd' = wd_window sample_world \<and> changes_below ''/w'' (wd_fs sample_world) (wd_fs wd')"
    using tools_confined [OF x [unfolded reg_def]] by (simp add: d resolveBaseDir_def)
  then show ?thesis using x unfolding reg_def args_def ctx_def by blast
qed

section \<open>Schemas\<close>

text \<open>What a parameter schema must be for the model: an object whose required members are among its properties.\<close>

definition schema_ok :: "json \<Rightarrow> bool" where
  "schema_ok schema =
     (case schema of
        JObj kvs \<Rightarrow>
          map_of kvs ''type'' = Some (JStr ''object'') \<and>
          (case (map_of kvs ''properties'', map_of kvs ''required'') of
             (Some (JObj props), Some (JArr names)) \<Rightarrow>
               list_all (\<lambda>n. case n of JStr name \<Rightarrow> map_of props name \<noteq> None | _ \<Rightarrow> False) names
           | _ \<Rightarrow> False)
      | _ \<Rightarrow> False)"

lemma tools_described:
  "list_all (\<lambda>t. schema_ok (tl_Parameters t) \<and> tl_RequiresApproval t \<and> map_of toolKindMap (tl_Name t) \<noteq> None)
     (file_tools w marshal baseDir cfg)"
proof -
  have "schema_ok read_file_Parameters" "schema_ok list_files_Parameters" "schema_ok write_file_Parameters"
    "schema_ok edit_file_Parameters" "schema_ok web_fetch_Parameters" by code_simp+
  then show ?thesis
    by (simp add: file_tools_def ReadFileTool_def ListFilesTool_def write_file_tool_def edit_file_tool_def WebFetchTool_def
        web_fetch_Name_def toolKindMap_def)
qed

end
