(* ===== verification/Defaults.thy ===== *)
theory Defaults
  imports FileSystem
begin

text \<open>
  internal/config/agent/defaults.go, internal/config/command/defaults.go and
  internal/config/skill/defaults.go: the agents, commands and skills that come with the program are
  written to the data directory when their directory is missing. The texts are embedded when the
  program is built and are a parameter, \<open>embedded\<close>, by file name. Installing keeps every file that
  is there, does nothing the second time, and leaves each bundled item complete unless a write
  fails; an item whose files could not all be written is never completed.
\<close>

section \<open>Installing a directory of files\<close>

text \<open>The loop over the bundled items stops at the first error.\<close>

fun ensure_each :: "('a \<Rightarrow> fs \<Rightarrow> unit result \<times> fs) \<Rightarrow> 'a list \<Rightarrow> fs \<Rightarrow> unit result \<times> fs" where
  "ensure_each ensure [] s = (Inr (), s)"
| "ensure_each ensure (x # xs) s =
     (case ensure x s of (Inl err, s1) \<Rightarrow> (Inl err, s1) | (Inr _, s1) \<Rightarrow> ensure_each ensure xs s1)"

fun write_files :: "string \<Rightarrow> (string \<times> string) list \<Rightarrow> fs \<Rightarrow> unit result \<times> fs" where
  "write_files dir [] s = (Inr (), s)"
| "write_files dir ((name, content) # files) s =
     (case os_WriteFile s (path_join [dir, name]) content of
        Inl err \<Rightarrow> (Inl err, s)
      | Inr s1 \<Rightarrow> write_files dir files s1)"

definition ensure_dir :: "string \<Rightarrow> (string \<times> string) list \<Rightarrow> fs \<Rightarrow> unit result \<times> fs" where
  "ensure_dir dir files s =
     (case os_Stat s dir of
        Inr _ \<Rightarrow> (Inr (), s)
      | Inl _ \<Rightarrow>
          (case os_MkdirAll s dir of
             (Inl err, s1) \<Rightarrow> (Inl err, s1)
           | (Inr _, s1) \<Rightarrow> write_files dir files s1))"

section \<open>Agents\<close>

record bundledAgent =
  ba_name :: string
  ba_config :: string
  ba_prompt :: string

definition DefaultAgentName :: string where
  "DefaultAgentName = ''default''"

definition InitAgentName :: string where
  "InitAgentName = ''init''"

definition bundledAgents :: "(string \<Rightarrow> string) \<Rightarrow> bundledAgent list" where
  "bundledAgents embedded =
     [\<lparr>ba_name = ''default'', ba_config = embedded ''configs/default.toml'', ba_prompt = embedded ''prompts/system-prompt.md''\<rparr>,
      \<lparr>ba_name = ''coder'', ba_config = embedded ''configs/coder.toml'', ba_prompt = embedded ''prompts/coder-prompt.md''\<rparr>,
      \<lparr>ba_name = ''fantasy'', ba_config = embedded ''configs/fantasy.toml'', ba_prompt = embedded ''prompts/fantasy-prompt.md''\<rparr>,
      \<lparr>ba_name = InitAgentName, ba_config = embedded ''configs/init.toml'', ba_prompt = embedded ''prompts/init-prompt.md''\<rparr>]"

definition ensureAgent :: "string \<Rightarrow> bundledAgent \<Rightarrow> fs \<Rightarrow> unit result \<times> fs" where
  "ensureAgent baseDir a =
     ensure_dir (path_join [baseDir, ''agents'', ba_name a]) [(''config.toml'', ba_config a), (''agent.md'', ba_prompt a)]"

definition agents_EnsureDefaults :: "(string \<Rightarrow> string) \<Rightarrow> string \<Rightarrow> fs \<Rightarrow> unit result \<times> fs" where
  "agents_EnsureDefaults embedded baseDir = ensure_each (ensureAgent baseDir) (bundledAgents embedded)"

section \<open>Commands and skills\<close>

record bundledCommand =
  bc_name :: string
  bc_config :: string
  bc_script :: string
  bc_scriptName :: string

definition bundledCommands :: "(string \<Rightarrow> string) \<Rightarrow> bundledCommand list" where
  "bundledCommands embedded =
     [\<lparr>bc_name = ''grep'', bc_config = embedded ''content/grep-command.toml'', bc_script = embedded ''content/grep-run.sh'',
       bc_scriptName = ''run.sh''\<rparr>]"

definition ensureCommand :: "string \<Rightarrow> bundledCommand \<Rightarrow> fs \<Rightarrow> unit result \<times> fs" where
  "ensureCommand commandsDir c =
     ensure_dir (path_join [commandsDir, bc_name c]) [(''command.toml'', bc_config c), (bc_scriptName c, bc_script c)]"

definition commands_EnsureDefaults :: "(string \<Rightarrow> string) \<Rightarrow> string \<Rightarrow> fs \<Rightarrow> unit result \<times> fs" where
  "commands_EnsureDefaults embedded commandsDir = ensure_each (ensureCommand commandsDir) (bundledCommands embedded)"

record bundledSkill =
  bs_name :: string
  bs_content :: string

definition bundledSkills :: "(string \<Rightarrow> string) \<Rightarrow> bundledSkill list" where
  "bundledSkills embedded = [\<lparr>bs_name = ''kontekst'', bs_content = embedded ''content/kontekst-skill.md''\<rparr>]"

definition ensureSkill :: "string \<Rightarrow> bundledSkill \<Rightarrow> fs \<Rightarrow> unit result \<times> fs" where
  "ensureSkill skillsDir k = ensure_dir (path_join [skillsDir, bs_name k]) [(''SKILL.md'', bs_content k)]"

definition skills_EnsureDefaults :: "(string \<Rightarrow> string) \<Rightarrow> string \<Rightarrow> fs \<Rightarrow> unit result \<times> fs" where
  "skills_EnsureDefaults embedded skillsDir = ensure_each (ensureSkill skillsDir) (bundledSkills embedded)"

section \<open>One directory\<close>

lemma write_files_frame:
  "write_files dir files s = (r, s') \<Longrightarrow> q \<notin> (\<lambda>f. path_join [dir, fst f]) ` set files \<Longrightarrow> lookup s' q = lookup s q"
proof (induction files arbitrary: s)
  case (Cons f files)
  obtain name content where f: "f = (name, content)" by (cases f)
  show ?case
  proof (cases "os_WriteFile s (path_join [dir, name]) content")
    case (Inr s1)
    from os_WriteFile_ok [OF Inr] show ?thesis using Cons Inr f by simp
  qed (use Cons f in simp)
qed simp

lemma write_files_written:
  "write_files dir files s = (Inr (), s') \<Longrightarrow> dir \<noteq> [] \<Longrightarrow> distinct (map fst files) \<Longrightarrow> list_all (\<lambda>f. plain_name (fst f)) files \<Longrightarrow>
     (name, content) \<in> set files \<Longrightarrow> lookup s' (path_join [dir, name]) = Some (FileNode content)"
proof (induction files arbitrary: s)
  case (Cons f files)
  obtain n c where f: "f = (n, c)" by (cases f)
  obtain s1 where s1: "os_WriteFile s (path_join [dir, n]) c = Inr s1" "write_files dir files s1 = (Inr (), s')"
    using Cons.prems(1) by (auto simp: f split: sum.splits)
  show ?case
  proof (cases "(name, content) \<in> set files")
    case True
    then show ?thesis using Cons s1 by simp
  next
    case False
    then have nc: "name = n" "content = c" using Cons.prems(5) f by auto
    have other: "path_join [dir, n] \<notin> (\<lambda>f. path_join [dir, fst f]) ` set files"
      using Cons.prems(2,3,4) f path_join_inj by (auto simp: list_all_iff) (metis fst_conv image_eqI)
    have "lookup s1 (path_join [dir, n]) = Some (FileNode c)" using os_WriteFile_ok [OF s1(1)] by simp
    then show ?thesis using write_files_frame [OF s1(2) other] by (simp add: nc)
  qed
qed simp

text \<open>What was there stays, as long as a missing directory has no files of these names.\<close>

lemma ensure_dir_keeps:
  assumes "ensure_dir dir files s = (r, s')" and "lookup s q = Some n"
    and "lookup s dir = None \<Longrightarrow> list_all (\<lambda>f. lookup s (path_join [dir, fst f]) = None) files" and "fault s ''stat'' dir = None"
  shows "lookup s' q = Some n"
proof (cases "lookup s dir")
  case (Some m)
  then show ?thesis using assms(1,2,4) by (simp add: ensure_dir_def os_Stat_def)
next
  case None
  obtain r1 s1 where m: "os_MkdirAll s dir = (r1, s1)" by (cases "os_MkdirAll s dir")
  have q: "lookup s1 q = Some n" using os_MkdirAll_frame [OF m, of q] assms(2) by auto
  have "q \<notin> (\<lambda>f. path_join [dir, fst f]) ` set files" using assms(2,3) None by (auto simp: list_all_iff)
  then show ?thesis
    using assms(1,4) None m q write_files_frame [of dir files s1] by (auto simp: ensure_dir_def os_Stat_def split: sum.splits)
qed

section \<open>The directories of siblings\<close>

lemma split_chain:
  assumes "p \<in> set (dir_chain d)"
  obtains n where "1 \<le> n" "n \<le> length (elements d)" "split_byte slash p = (if is_abs d then [[]] else []) @ take n (elements d)"
proof -
  obtain n where n: "1 \<le> n" "n \<le> length (elements d)" "p = render_path (is_abs d) (take n (elements d))"
    using assms by (auto simp: dir_chain_def)
  have "split_byte slash (join [slash] (take n (elements d))) = take n (elements d)"
    using n by (intro split_byte_join) (auto dest: in_set_takeD elements_no_slash)
  then show thesis using that n by (auto simp: render_path_def)
qed

lemma join_name:
  assumes "d \<noteq> []" and "plain_name n"
  shows "elements (path_join [d, n]) = elements d @ [n]" and "is_abs (path_join [d, n]) = is_abs d"
    and "path_clean (path_join [d, n]) = path_join [d, n]" and "path_join [d, n] \<noteq> []"
proof -
  have j: "path_join [d, n] = path_clean (d @ slash # n)" using assms by (simp add: path_join_def plain_name_def)
  show e: "elements (path_join [d, n]) = elements d @ [n]" by (rule elements_join_name [OF assms])
  have "is_abs (d @ slash # n) = is_abs d" using assms(1) by (cases d) (auto simp: is_abs_def has_prefix_def)
  then show "is_abs (path_join [d, n]) = is_abs d" unfolding j by simp
  show "path_clean (path_join [d, n]) = path_join [d, n]" by (simp add: j)
  have "elements [] = []" by code_simp
  then show "path_join [d, n] \<noteq> []" using e by auto
qed

lemma chain_siblings:
  assumes "P \<noteq> []" and "plain_name x" and "plain_name y"
  shows "path_join [P, y] \<in> set (dir_chain (path_join [P, x])) \<longleftrightarrow> y = x"
    and "plain_name f \<Longrightarrow> path_join [path_join [P, y], f] \<notin> set (dir_chain (path_join [P, x]))"
proof -
  note e = join_name [OF assms(1)]
  show "path_join [P, y] \<in> set (dir_chain (path_join [P, x])) \<longleftrightarrow> y = x"
  proof
    assume "path_join [P, y] \<in> set (dir_chain (path_join [P, x]))"
    then obtain n where n: "n \<le> length (elements P @ [x])"
      "split_byte slash (path_join [P, y]) = (if is_abs P then [[]] else []) @ take n (elements P @ [x])"
      by (rule split_chain) (simp only: e [OF assms(2)])
    then have t: "elements P @ [y] = take n (elements P @ [x])" unfolding split_join_name [OF assms(1,3)] by (simp only: same_append_eq)
    have "length (elements P @ [y]) = min (length (elements P @ [x])) n" unfolding t by (rule length_take)
    then have "length (elements P @ [x]) \<le> n" by simp
    then have "take n (elements P @ [x]) = elements P @ [x]" by (rule take_all)
    with t show "y = x" by (metis last_snoc)
  next
    assume "y = x"
    have "path_clean (path_join [P, x]) \<in> set (dir_chain (path_join [P, x]))"
      using e(1) [OF assms(2)]
      by (auto simp: dir_chain_def path_clean_def render_path_def Suc_le_eq intro!: image_eqI [of _ _ "length (elements (path_join [P, x]))"])
    then show "path_join [P, y] \<in> set (dir_chain (path_join [P, x]))" using e(3) [OF assms(2)] \<open>y = x\<close> by simp
  qed
  assume f: "plain_name f"
  show "path_join [path_join [P, y], f] \<notin> set (dir_chain (path_join [P, x]))"
  proof
    assume "path_join [path_join [P, y], f] \<in> set (dir_chain (path_join [P, x]))"
    then obtain n where n: "split_byte slash (path_join [path_join [P, y], f]) = (if is_abs P then [[]] else []) @ take n (elements P @ [x])"
      by (rule split_chain) (simp only: e [OF assms(2)])
    then have "elements P @ [y, f] = take n (elements P @ [x])"
      unfolding split_join_name [OF e(4) [OF assms(3)] f] e(1,2) [OF assms(3)] by (simp only: same_append_eq append_assoc append_Cons append_Nil)
    then have "length (elements P @ [y, f]) = min (length (elements P @ [x])) n" by (metis length_take)
    then show False by simp
  qed
qed

lemma write_files_faults: "write_files dir files s = (r, s') \<Longrightarrow> faults s' = faults s"
proof (induction files arbitrary: s)
  case (Cons f files)
  then show ?case by (cases f) (auto dest: os_WriteFile_ok split: sum.splits)
qed simp

lemma ensure_dir_faults: "ensure_dir dir files s = (r, s') \<Longrightarrow> faults s' = faults s"
  by (auto simp: ensure_dir_def dest!: write_files_faults os_MkdirAll_faults split: sum.splits prod.splits)

section \<open>Installing one item, and a list of siblings\<close>

definition files_ok :: "(string \<times> string) list \<Rightarrow> bool" where
  "files_ok files \<longleftrightarrow> distinct (map fst files) \<and> list_all (\<lambda>f. plain_name (fst f)) files"

definition installed :: "string \<Rightarrow> (string \<times> string) list \<Rightarrow> fs \<Rightarrow> bool" where
  "installed dir files s \<longleftrightarrow> list_all (\<lambda>(name, content). lookup s (path_join [dir, name]) = Some (FileNode content)) files"

definition no_leftovers :: "string \<Rightarrow> (string \<times> string) list \<Rightarrow> fs \<Rightarrow> bool" where
  "no_leftovers dir files s \<longleftrightarrow>
     lookup s dir \<noteq> None \<or> list_all (\<lambda>f. lookup s (path_join [dir, fst f]) = None) files"

lemma ensure_dir_there: "faults s = [] \<Longrightarrow> lookup s dir = Some n \<Longrightarrow> ensure_dir dir files s = (Inr (), s)"
  by (simp add: ensure_dir_def os_Stat_def fault_def)

lemma ensure_dir_installs:
  assumes "ensure_dir (path_join [P, x]) files s = (Inr (), s')" and "faults s = []" and "P \<noteq> []" and "plain_name x"
    and "files_ok files" and "lookup s (path_join [P, x]) = None"
  shows "lookup s' (path_join [P, x]) = Some DirNode" and "installed (path_join [P, x]) files s'"
proof -
  define D where "D = path_join [P, x]"
  note D = join_name [OF assms(3,4), folded D_def]
  obtain s1 where s1: "os_MkdirAll s D = (Inr (), s1)" "write_files D files s1 = (Inr (), s')"
    using assms(1,2,6) by (auto simp: D_def [symmetric] ensure_dir_def os_Stat_def fault_def split: sum.splits prod.splits)
  have "D \<in> set (dir_chain D)" using chain_siblings(1) [OF assms(3,4,4)] by (simp add: D_def)
  then have "lookup s1 D = Some DirNode" using s1(1) mkdir_each_made by (simp add: os_MkdirAll_def)
  moreover have "D \<notin> (\<lambda>f. path_join [D, fst f]) ` set files"
    using join_name(1) [OF D(4)] assms(5) by (auto simp: files_ok_def list_all_iff) (metis append_self_conv fst_conv list.distinct(1))
  ultimately show "lookup s' (path_join [P, x]) = Some DirNode"
    using write_files_frame [OF s1(2)] by (simp add: D_def)
  show "installed (path_join [P, x]) files s'"
    using write_files_written [OF s1(2) D(4)] assms(5) by (auto simp: installed_def files_ok_def list_all_iff D_def)
qed

lemma ensure_dir_siblings:
  assumes "ensure_dir (path_join [P, x]) files s = (r, s')" and "P \<noteq> []" and "plain_name x" and "plain_name y" and "y \<noteq> x" and "files_ok files"
  shows "lookup s' (path_join [P, y]) = lookup s (path_join [P, y])"
    and "plain_name f \<Longrightarrow> lookup s' (path_join [path_join [P, y], f]) = lookup s (path_join [path_join [P, y], f])"
proof -
  define D where "D = path_join [P, x]"
  note D = join_name [OF assms(2,3), folded D_def] and Y = join_name [OF assms(2,4)]
  have same: "lookup s' q = lookup s q" if "q \<notin> set (dir_chain D)" "q \<notin> (\<lambda>f. path_join [D, fst f]) ` set files" for q
    using assms(1) that mkdir_each_only [of s "dir_chain D" _ _ q] write_files_frame [of D files _ _ _ q]
    by (fastforce simp: D_def [symmetric] ensure_dir_def os_MkdirAll_def split: sum.splits prod.splits)
  have e: "elements (path_join [D, fst f]) = elements P @ [x, fst f]" if "f \<in> set files" for f
    using join_name(1) [OF D(4)] D(1) that assms(6) by (auto simp: files_ok_def list_all_iff)
  have "path_join [P, y] \<notin> (\<lambda>f. path_join [D, fst f]) ` set files" using Y(1) e by force
  then show "lookup s' (path_join [P, y]) = lookup s (path_join [P, y])"
    using same chain_siblings(1) [OF assms(2,3,4)] assms(5) by (simp add: D_def)
  assume f: "plain_name f"
  have "elements (path_join [path_join [P, y], f]) = elements P @ [y, f]" using join_name(1) [OF Y(4) f] Y(1) by simp
  then have "path_join [path_join [P, y], f] \<notin> (\<lambda>f. path_join [D, fst f]) ` set files" using e assms(5) by force
  then show "lookup s' (path_join [path_join [P, y], f]) = lookup s (path_join [path_join [P, y], f])"
    using same chain_siblings(2) [OF assms(2,3,4) f] by (simp add: D_def)
qed

lemma ensure_each_installs:
  assumes "ensure_each (\<lambda>x. ensure_dir (path_join [P, N x]) (F x)) xs s = (Inr (), s')" and "faults s = []" and "P \<noteq> []"
    and "list_all (\<lambda>x. plain_name (N x) \<and> files_ok (F x) \<and> no_leftovers (path_join [P, N x]) (F x) s) xs" and "distinct (map N xs)"
  shows "(\<forall>q n. lookup s q = Some n \<longrightarrow> lookup s' q = Some n) \<and> faults s' = [] \<and>
    list_all (\<lambda>x. lookup s' (path_join [P, N x]) \<noteq> None \<and>
      (lookup s (path_join [P, N x]) = None \<longrightarrow> lookup s' (path_join [P, N x]) = Some DirNode \<and> installed (path_join [P, N x]) (F x) s')) xs"
  using assms(1,2,4,5)
proof (induction xs arbitrary: s)
  case (Cons x xs)
  define D where "D = (\<lambda>x. path_join [P, N x])"
  obtain s1 where s1: "ensure_dir (D x) (F x) s = (Inr (), s1)"
    "ensure_each (\<lambda>x. ensure_dir (D x) (F x)) xs s1 = (Inr (), s')"
    using Cons.prems(1) by (auto simp: D_def split: sum.splits prod.splits)
  have x: "plain_name (N x)" "files_ok (F x)" "no_leftovers (D x) (F x) s" using Cons.prems(3) by (simp_all add: D_def)
  have f1: "faults s1 = []" using ensure_dir_faults [OF s1(1)] Cons.prems(2) by simp
  have keep: "lookup s q = Some n \<Longrightarrow> lookup s1 q = Some n" for q n
    using ensure_dir_keeps [OF s1(1)] x(3) Cons.prems(2) by (auto simp: no_leftovers_def fault_def)
  have sib: "lookup s1 (D y) = lookup s (D y)" "plain_name f \<Longrightarrow> lookup s1 (path_join [D y, f]) = lookup s (path_join [D y, f])"
    if "y \<in> set xs" for y f
    using ensure_dir_siblings [OF s1(1) [unfolded D_def] assms(3) x(1) _ _ x(2), of "N y"] that Cons.prems(3,4)
    by (auto simp: D_def list_all_iff image_iff)
  have "list_all (\<lambda>x. plain_name (N x) \<and> files_ok (F x) \<and> no_leftovers (D x) (F x) s1) xs"
    using Cons.prems(3) sib by (auto simp: D_def list_all_iff no_leftovers_def files_ok_def)
  then have IH: "(\<forall>q n. lookup s1 q = Some n \<longrightarrow> lookup s' q = Some n) \<and> faults s' = [] \<and>
      list_all (\<lambda>x. lookup s' (D x) \<noteq> None \<and>
        (lookup s1 (D x) = None \<longrightarrow> lookup s' (D x) = Some DirNode \<and> installed (D x) (F x) s')) xs"
    using Cons.IH [OF s1(2) [unfolded D_def] f1] Cons.prems(4) by (simp add: D_def)
  have here: "lookup s' (D x) \<noteq> None \<and> (lookup s (D x) = None \<longrightarrow> lookup s' (D x) = Some DirNode \<and> installed (D x) (F x) s')"
  proof (cases "lookup s (D x)")
    case None
    from ensure_dir_installs [OF s1(1) [unfolded D_def] Cons.prems(2) assms(3) x(1,2)] None
    have "lookup s1 (D x) = Some DirNode" "installed (D x) (F x) s1" by (simp_all add: D_def)
    then show ?thesis using IH by (auto simp: installed_def list_all_iff)
  next
    case (Some n)
    then have "lookup s' (D x) = Some n" using IH keep [OF Some] by simp
    then show ?thesis using Some by simp
  qed
  show ?case using IH here keep sib(1) by (auto simp: D_def list_all_iff)
next
  case Nil
  then have "s' = s" by simp
  then show ?case using assms(2) Nil.prems(2) by simp
qed

lemma ensure_each_again:
  "faults s = [] \<Longrightarrow> list_all (\<lambda>x. lookup s (D x) \<noteq> None) xs \<Longrightarrow> ensure_each (\<lambda>x. ensure_dir (D x) (F x)) xs s = (Inr (), s)"
  by (induction xs) (auto simp: ensure_dir_there)

section \<open>The bundled items\<close>

lemma path_join_three:
  assumes "b \<noteq> []" and "plain_name x" and "plain_name n"
  shows "path_join [b, x, n] = path_join [path_join [b, x], n]"
proof -
  define c where "c = b @ slash # x"
  have c: "c \<noteq> []" "path_join [b, x] = path_clean c" using assms by (simp_all add: c_def path_join_def plain_name_def)
  have "path_join [b, x, n] = path_join [c, n]" using assms by (simp add: c_def path_join_def plain_name_def)
  also have "\<dots> = (if is_abs c then [slash] else []) @ join [slash] (elements c @ [n])" by (rule path_join_name [OF c(1) assms(3)])
  also have "\<dots> = (if is_abs (path_clean c) then [slash] else []) @ join [slash] (elements (path_clean c) @ [n])" by simp
  also have "\<dots> = path_join [path_clean c, n]"
    using path_join_name [OF _ assms(3)] join_name(4) [OF assms(1,2)] c(2) by metis
  finally show ?thesis by (simp add: c(2))
qed

definition agent_dir :: "string \<Rightarrow> bundledAgent \<Rightarrow> string" where
  "agent_dir baseDir a = path_join [path_join [baseDir, ''agents''], ba_name a]"

definition agent_files :: "bundledAgent \<Rightarrow> (string \<times> string) list" where
  "agent_files a = [(''config.toml'', ba_config a), (''agent.md'', ba_prompt a)]"

lemma bundled_names: "map ba_name (bundledAgents embedded) = [''default'', ''coder'', ''fantasy'', ''init'']"
  by (simp add: bundledAgents_def InitAgentName_def)

lemma bundled_plain: "list_all (\<lambda>a. plain_name (ba_name a)) (bundledAgents embedded)"
proof -
  have "list_all plain_name (map ba_name (bundledAgents embedded))" unfolding bundled_names by code_simp
  then show ?thesis by (simp add: list.pred_map comp_def)
qed

lemma agents_ensure:
  assumes "baseDir \<noteq> []"
  shows "agents_EnsureDefaults embedded baseDir =
    ensure_each (\<lambda>a. ensure_dir (agent_dir baseDir a) (agent_files a)) (bundledAgents embedded)"
proof
  fix s
  have p: "plain_name ''agents''" by code_simp
  have "ensureAgent baseDir a = ensure_dir (agent_dir baseDir a) (agent_files a)" if "plain_name (ba_name a)" for a
    unfolding ensureAgent_def agent_dir_def agent_files_def path_join_three [OF assms p that] ..
  then have "list_all (\<lambda>a. plain_name (ba_name a)) as \<Longrightarrow> ensure_each (ensureAgent baseDir) as s =
      ensure_each (\<lambda>a. ensure_dir (agent_dir baseDir a) (agent_files a)) as s" for as
    by (induction as arbitrary: s) (simp_all split: prod.split sum.split)
  then show "agents_EnsureDefaults embedded baseDir s =
      ensure_each (\<lambda>a. ensure_dir (agent_dir baseDir a) (agent_files a)) (bundledAgents embedded) s"
    using bundled_plain by (simp add: agents_EnsureDefaults_def)
qed

lemma agents_all_installed:
  assumes "agents_EnsureDefaults embedded baseDir s = (Inr (), s')" and "baseDir \<noteq> []" and "faults s = []"
    and "list_all (\<lambda>a. no_leftovers (agent_dir baseDir a) (agent_files a) s) (bundledAgents embedded)"
  shows "(\<forall>q n. lookup s q = Some n \<longrightarrow> lookup s' q = Some n) \<and> faults s' = [] \<and>
    list_all (\<lambda>a. lookup s' (agent_dir baseDir a) \<noteq> None \<and>
      (lookup s (agent_dir baseDir a) = None \<longrightarrow> lookup s' (agent_dir baseDir a) = Some DirNode \<and>
         installed (agent_dir baseDir a) (agent_files a) s')) (bundledAgents embedded)"
proof -
  have p: "plain_name ''agents''" "plain_name ''config.toml''" "plain_name ''agent.md''" by code_simp+
  have P: "path_join [baseDir, ''agents''] \<noteq> []" by (rule join_name(4) [OF assms(2) p(1)])
  have run: "ensure_each (\<lambda>a. ensure_dir (path_join [path_join [baseDir, ''agents''], ba_name a]) (agent_files a)) (bundledAgents embedded) s = (Inr (), s')"
    using assms(1) by (simp add: agents_ensure [OF assms(2)] agent_dir_def)
  have ok: "list_all (\<lambda>a. plain_name (ba_name a) \<and> files_ok (agent_files a) \<and>
      no_leftovers (path_join [path_join [baseDir, ''agents''], ba_name a]) (agent_files a) s) (bundledAgents embedded)"
    using assms(4) bundled_plain p(2,3) by (auto simp: list_all_iff agent_dir_def files_ok_def agent_files_def)
  have distinct: "distinct (map ba_name (bundledAgents embedded))" unfolding bundled_names by simp
  show ?thesis by (rule ensure_each_installs [OF run assms(3) P ok distinct, folded agent_dir_def])
qed

text \<open>
  Installing the bundled agents keeps every file and directory that is there, writes the
  configuration and the prompt of each agent whose directory is missing, and changes nothing when it
  is run again.
\<close>

theorem agents_installed:
  assumes "agents_EnsureDefaults embedded baseDir s = (Inr (), s')" and "baseDir \<noteq> []" and "faults s = []"
    and "list_all (\<lambda>a. no_leftovers (agent_dir baseDir a) (agent_files a) s) (bundledAgents embedded)"
  shows "(\<forall>q n. lookup s q = Some n \<longrightarrow> lookup s' q = Some n) \<and>
    list_all (\<lambda>a. lookup s (agent_dir baseDir a) = None \<longrightarrow> installed (agent_dir baseDir a) (agent_files a) s') (bundledAgents embedded) \<and>
    agents_EnsureDefaults embedded baseDir s' = (Inr (), s')"
proof -
  note all = agents_all_installed [OF assms]
  have "agents_EnsureDefaults embedded baseDir s' = (Inr (), s')"
    unfolding agents_ensure [OF assms(2)] using all by (intro ensure_each_again) (auto simp: list_all_iff)
  then show ?thesis using all by (auto simp: list_all_iff)
qed

theorem agents_installed_witness:
  "\<exists>s'. agents_EnsureDefaults (\<lambda>f. f) ''/d'' \<lparr>nodes = [(''/d/agents/coder'', DirNode)], faults = []\<rparr> = (Inr (), s') \<and>
     lookup s' ''/d/agents/coder'' = Some DirNode \<and> agents_EnsureDefaults (\<lambda>f. f) ''/d'' s' = (Inr (), s')"
proof -
  define s where "s = \<lparr>nodes = [(''/d/agents/coder'', DirNode)], faults = [] :: ((string \<times> string) \<times> go_error) list\<rparr>"
  have ok: "fst (agents_EnsureDefaults (\<lambda>f. f) ''/d'' s) = Inr ()"
    "list_all (\<lambda>a. no_leftovers (agent_dir ''/d'' a) (agent_files a) s) (bundledAgents (\<lambda>f. f))"
    "lookup s ''/d/agents/coder'' = Some DirNode" "faults s = []"
    unfolding s_def by code_simp+
  obtain s' where s': "agents_EnsureDefaults (\<lambda>f. f) ''/d'' s = (Inr (), s')" using ok(1) by (metis prod.collapse)
  have "lookup s' ''/d/agents/coder'' = Some DirNode \<and> agents_EnsureDefaults (\<lambda>f. f) ''/d'' s' = (Inr (), s')"
    using agents_installed [OF s' _ ok(4,2)] ok(3) by simp
  then show ?thesis using s' unfolding s_def by blast
qed

text \<open>
  An item whose files could not be written is taken for installed from then on: the directory is
  there, so that the next start leaves it without its files.
\<close>

theorem install_never_completed:
  assumes "skills_EnsureDefaults embedded skillsDir s = (Inl err, s1)" and "os_MkdirAll s (path_join [skillsDir, ''kontekst'']) = (Inr (), s2)"
    and "skillsDir \<noteq> []" and "lookup s (path_join [path_join [skillsDir, ''kontekst''], ''SKILL.md'']) = None"
  shows "skills_EnsureDefaults embedded skillsDir (s1\<lparr>faults := []\<rparr>) = (Inr (), s1\<lparr>faults := []\<rparr>) \<and>
    lookup s1 (path_join [path_join [skillsDir, ''kontekst''], ''SKILL.md'']) = None"
proof -
  define D where "D = path_join [skillsDir, ''kontekst'']"
  have p: "plain_name ''kontekst''" "plain_name ''SKILL.md''" by code_simp+
  have run: "ensure_dir D [(''SKILL.md'', embedded ''content/kontekst-skill.md'')] s = (Inl err, s1)"
    using assms(1) by (auto simp: skills_EnsureDefaults_def bundledSkills_def ensureSkill_def D_def split: sum.splits prod.splits)
  then have s1: "s1 = s2" using assms(2) by (auto simp: ensure_dir_def D_def split: sum.splits)
  have "D \<in> set (dir_chain D)" using chain_siblings(1) [OF assms(3) p(1,1)] by (simp add: D_def)
  then have d: "lookup s1 D = Some DirNode"
    using assms(2) mkdir_each_made s1 by (simp add: os_MkdirAll_def D_def)
  have "path_join [D, ''SKILL.md''] \<notin> set (dir_chain D)" using chain_siblings(2) [OF assms(3) p(1,1,2)] by (simp add: D_def)
  then have "lookup s1 (path_join [D, ''SKILL.md'']) = None"
    using mkdir_each_only assms(2,4) s1 by (simp add: os_MkdirAll_def D_def)
  moreover have "lookup (s1\<lparr>faults := []\<rparr>) D = Some DirNode" using d by (simp add: lookup_def)
  from ensure_dir_there [OF _ this] have "skills_EnsureDefaults embedded skillsDir (s1\<lparr>faults := []\<rparr>) = (Inr (), s1\<lparr>faults := []\<rparr>)"
    by (simp add: skills_EnsureDefaults_def bundledSkills_def ensureSkill_def D_def)
  ultimately show ?thesis by (simp add: D_def)
qed

theorem install_never_completed_witness:
  "\<exists>s1. skills_EnsureDefaults (\<lambda>f. f) ''/k'' (s1\<lparr>faults := []\<rparr>) = (Inr (), s1\<lparr>faults := []\<rparr>) \<and> lookup s1 ''/k/kontekst/SKILL.md'' = None"
proof -
  define s where "s = \<lparr>nodes = [], faults = [((''write'', ''/k/kontekst/SKILL.md''), Errorf ''no space left on device'' [])]\<rparr>"
  have p: "path_join [path_join [''/k'', ''kontekst''], ''SKILL.md''] = ''/k/kontekst/SKILL.md''" by code_simp
  have ok: "isl (fst (skills_EnsureDefaults (\<lambda>f. f) ''/k'' s))" "\<not> isl (fst (os_MkdirAll s (path_join [''/k'', ''kontekst''])))"
    "lookup s ''/k/kontekst/SKILL.md'' = None" unfolding s_def by code_simp+
  obtain err s1 where e: "skills_EnsureDefaults (\<lambda>f. f) ''/k'' s = (Inl err, s1)"
    using ok(1) by (cases "skills_EnsureDefaults (\<lambda>f. f) ''/k'' s") (auto simp: isl_def)
  obtain s2 where m: "os_MkdirAll s (path_join [''/k'', ''kontekst'']) = (Inr (), s2)"
    using ok(2) by (cases "os_MkdirAll s (path_join [''/k'', ''kontekst''])"; cases "fst (os_MkdirAll s (path_join [''/k'', ''kontekst'']))") auto
  show ?thesis using install_never_completed [OF e m, unfolded p] ok(3) by auto
qed

end
