(* ===== verification/RequestLog.thy ===== *)
theory RequestLog
  imports Provider Config SessionFile Defaults
begin

text \<open>
  internal/provider/logger.go and the use \<open>openai.go\<close> makes of it: the requests to the model, its
  responses and its errors are appended to a file per day, one JSON document per line. The time
  (\<open>now\<close> in RFC 3339, \<open>day\<close> as a date) and the JSON text of an entry (\<open>enc\<close>, empty when it cannot
  be marshalled) are parameters. A log that cannot be written is given up silently; one that can is
  a message log: each call adds its lines at the end.
\<close>

record LogEntry =
  le_Timestamp :: string
  le_RequestID :: string
  le_Type :: string
  le_Messages :: "Message list"
  le_Tools :: "ToolDef list"
  le_Sampling :: "SamplingConfig option"
  le_Payload :: "json_object option"
  le_Response :: "Response option"
  le_Duration :: string
  le_Error :: string
  le_StatusCode :: int

definition blank_entry :: "string \<Rightarrow> string \<Rightarrow> string \<Rightarrow> LogEntry" where
  "blank_entry now requestID type =
     \<lparr>le_Timestamp = now, le_RequestID = requestID, le_Type = type, le_Messages = [], le_Tools = [], le_Sampling = None,
      le_Payload = None, le_Response = None, le_Duration = [], le_Error = [], le_StatusCode = 0\<rparr>"

record RequestLogger =
  rl_logDir :: string
  rl_logRequests :: bool
  rl_logResponses :: bool

definition NewRequestLogger :: "string \<Rightarrow> bool \<Rightarrow> bool \<Rightarrow> RequestLogger" where
  "NewRequestLogger logDir logRequests logResponses =
     \<lparr>rl_logDir = logDir, rl_logRequests = logRequests, rl_logResponses = logResponses\<rparr>"

definition log_file :: "string \<Rightarrow> string \<Rightarrow> string" where
  "log_file logDir day = path_join [logDir, sprintf ''provider_%s.jsonl'' [day]]"

text \<open>\<open>writeLog\<close> with the marshalled entry; both writes go to the file that was opened.\<close>

definition write_line :: "string \<Rightarrow> RequestLogger \<Rightarrow> string \<Rightarrow> fs \<Rightarrow> fs" where
  "write_line day l data s =
     (if rl_logDir l = [] then s
      else case os_MkdirAll s (rl_logDir l) of
        (Inl err, s1) \<Rightarrow> s1
      | (Inr _, s1) \<Rightarrow>
          (case os_AppendFile s1 (log_file (rl_logDir l) day) (data @ [nl]) of Inl err \<Rightarrow> s1 | Inr s2 \<Rightarrow> s2))"

definition writeLog :: "(LogEntry \<Rightarrow> string) \<Rightarrow> string \<Rightarrow> RequestLogger \<Rightarrow> LogEntry \<Rightarrow> fs \<Rightarrow> fs" where
  "writeLog enc day l entry s = write_line day l (enc entry) s"

text \<open>The entries of each call; a call that is switched off has none.\<close>

definition LogRequest ::
  "string \<Rightarrow> RequestLogger \<Rightarrow> string \<Rightarrow> Message list \<Rightarrow> ToolDef list \<Rightarrow> SamplingConfig option \<Rightarrow> json_object \<Rightarrow> LogEntry list" where
  "LogRequest now l requestID messages tools sampling payload =
     (if \<not> rl_logRequests l then []
      else [(blank_entry now requestID ''request'')
              \<lparr>le_Messages := messages, le_Tools := tools, le_Sampling := sampling, le_Payload := Some payload\<rparr>])"

definition LogResponse :: "string \<Rightarrow> RequestLogger \<Rightarrow> string \<Rightarrow> Response \<Rightarrow> string \<Rightarrow> LogEntry list" where
  "LogResponse now l requestID response duration =
     (if \<not> rl_logResponses l then []
      else [(blank_entry now requestID ''response'')\<lparr>le_Response := Some response, le_Duration := duration\<rparr>])"

definition LogError ::
  "string \<Rightarrow> RequestLogger \<Rightarrow> string \<Rightarrow> int \<Rightarrow> string \<Rightarrow> Message list \<Rightarrow> json_object option \<Rightarrow> LogEntry list" where
  "LogError now l requestID statusCode errorBody messages payload =
     [(blank_entry now requestID ''error'')
        \<lparr>le_StatusCode := statusCode, le_Error := errorBody, le_Messages := messages, le_Payload := payload\<rparr>]"

text \<open>What \<open>LogError\<close> reports on the console: the last five messages, each cut to 50 bytes.\<close>

definition summary_line :: "Message \<Rightarrow> string" where
  "summary_line msg =
     (let content = (if length (msg_Content msg) > 50 then take 50 (msg_Content msg) @ ''...'' else msg_Content msg)
      in sprintf ''[%s] %s'' [msg_Role msg, content])"

definition recent_messages :: "Message list \<Rightarrow> string list" where
  "recent_messages messages = map summary_line (drop (length messages - 5) messages)"

section \<open>The provider with its log\<close>

record OpenAIProvider =
  op_endpoint :: string
  op_timeout :: int
  op_requestLogger :: "RequestLogger option"
  op_validateRoles :: bool

definition NewOpenAIProvider :: "string \<Rightarrow> int \<Rightarrow> DebugConfig \<Rightarrow> OpenAIProvider" where
  "NewOpenAIProvider endpoint httpTimeout debugCfg =
     \<lparr>op_endpoint = endpoint, op_timeout = (if httpTimeout = 0 then 300 * 1000000000 else httpTimeout),
      op_requestLogger =
        (if dg_LogRequests debugCfg \<or> dg_LogResponses debugCfg
         then Some (NewRequestLogger (dg_LogDirectory debugCfg) (dg_LogRequests debugCfg) (dg_LogResponses debugCfg)) else None),
      op_validateRoles = dg_ValidateRoles debugCfg\<rparr>"

text \<open>
  What a call of \<open>GenerateChat\<close> logs, next to the result it has (Provider): nothing without a logger;
  the request and then the response or the error with it. A role error is logged before any request,
  and a reply that cannot be decoded is not logged at all.
\<close>

definition chat_log ::
  "(json_object \<Rightarrow> http_reply) \<Rightarrow> (json \<Rightarrow> string) \<Rightarrow> (string \<Rightarrow> json_object option) \<Rightarrow> (string \<Rightarrow> json_object result) \<Rightarrow> string \<Rightarrow> string \<Rightarrow>
     OpenAIProvider \<Rightarrow> string \<Rightarrow> Message list \<Rightarrow> ToolDef list \<Rightarrow> SamplingConfig option \<Rightarrow> string \<Rightarrow> bool \<Rightarrow> LogEntry list" where
  "chat_log post marshal unmarshal decode now duration p requestID messages0 tools sampling model useToolRole =
     (case op_requestLogger p of None \<Rightarrow> []
      | Some l \<Rightarrow>
          let messages = normalizeMessages messages0 useToolRole;
              payload = chat_payload marshal messages tools sampling model useToolRole
          in case (if op_validateRoles p then validateRoleAlternation messages useToolRole else Inr ()) of
               Inl err \<Rightarrow> LogError now l requestID 0 (error_text err) messages None
             | Inr _ \<Rightarrow>
                 LogRequest now l requestID messages tools sampling payload @
                 (case post payload of
                    TransportError err \<Rightarrow> LogError now l requestID 0 (error_text err) messages (Some payload)
                  | HttpReply code status body \<Rightarrow>
                      if code < 200 \<or> code \<ge> 300 then LogError now l requestID code body messages (Some payload)
                      else (case decode body of Inl err \<Rightarrow> []
                            | Inr responsePayload \<Rightarrow>
                                (case parseResponsePayload unmarshal responsePayload of Inl err \<Rightarrow> []
                                 | Inr response \<Rightarrow> LogResponse now l requestID response duration))))"

definition write_entries :: "(LogEntry \<Rightarrow> string) \<Rightarrow> string \<Rightarrow> RequestLogger \<Rightarrow> LogEntry list \<Rightarrow> fs \<Rightarrow> fs" where
  "write_entries enc day l entries s = fold (writeLog enc day l) entries s"

section \<open>A log that can be written\<close>

definition log_ready :: "string \<Rightarrow> RequestLogger \<Rightarrow> fs \<Rightarrow> bool" where
  "log_ready day l s \<longleftrightarrow>
     rl_logDir l \<noteq> [] \<and> fault s ''write'' (log_file (rl_logDir l) day) = None \<and>
     lookup s (log_file (rl_logDir l) day) \<noteq> Some DirNode \<and>
     list_all (\<lambda>p. fault s ''mkdir'' p = None \<and> (lookup s p = None \<or> lookup s p = Some DirNode)) (dir_chain (rl_logDir l))"

lemma mkdir_each_ready:
  "list_all (\<lambda>p. fault s ''mkdir'' p = None \<and> (lookup s p = None \<or> lookup s p = Some DirNode)) ps \<Longrightarrow>
     \<exists>s'. mkdir_each s ps = (Inr (), s')"
proof (induction ps arbitrary: s)
  case (Cons p ps)
  show ?case
  proof (cases "lookup s p")
    case None
    have "list_all (\<lambda>q. fault (put_node p DirNode s) ''mkdir'' q = None \<and>
        (lookup (put_node p DirNode s) q = None \<or> lookup (put_node p DirNode s) q = Some DirNode)) ps"
      using Cons.prems by (auto simp: list_all_iff)
    then show ?thesis using Cons None by auto
  next
    case (Some n)
    then show ?thesis using Cons by auto
  qed
qed simp

lemma chain_dir: "d \<noteq> [] \<Longrightarrow> plain_name n \<Longrightarrow> path_join [d, n] \<notin> set (dir_chain d)"
proof
  assume d: "d \<noteq> []" and n: "plain_name n" and "path_join [d, n] \<in> set (dir_chain d)"
  then obtain k where "split_byte slash (path_join [d, n]) = (if is_abs d then [[]] else []) @ take k (elements d)"
    by (elim split_chain) blast
  then have "elements d @ [n] = take k (elements d)" unfolding split_join_name [OF d n] by (simp only: same_append_eq)
  then have "length (elements d @ [n]) = min (length (elements d)) k" by (metis length_take)
  then show False by simp
qed

lemma chain_clean: "elements d \<noteq> [] \<Longrightarrow> path_clean d \<in> set (dir_chain d)"
  by (auto simp: dir_chain_def path_clean_def render_path_def Suc_le_eq intro!: image_eqI [of _ _ "length (elements d)"])

definition good_day :: "string \<Rightarrow> bool" where
  "good_day day \<longleftrightarrow> slash \<notin> set day"

lemma log_name_plain: "good_day day \<Longrightarrow> plain_name (sprintf ''provider_%s.jsonl'' [day])"
  by (auto simp: plain_name_def good_day_def)

lemma write_line_ready:
  assumes "log_ready day l s" and "good_day day"
  shows "file_text (write_line day l data s) (log_file (rl_logDir l) day) = file_text s (log_file (rl_logDir l) day) @ data @ [nl] \<and>
    log_ready day l (write_line day l data s) \<and>
    (\<forall>q. q \<noteq> log_file (rl_logDir l) day \<longrightarrow> lookup (write_line day l data s) q = lookup s q \<or>
       lookup s q = None \<and> lookup (write_line day l data s) q = Some DirNode)"
proof -
  define D F where "D = rl_logDir l" and "F = log_file D day"
  have D: "D \<noteq> []" using assms(1) by (simp add: log_ready_def D_def)
  note n = log_name_plain [OF assms(2)]
  obtain s1 where s1: "os_MkdirAll s D = (Inr (), s1)"
    using mkdir_each_ready assms(1) by (auto simp: log_ready_def os_MkdirAll_def D_def)
  have F: "F \<notin> set (dir_chain D)" unfolding F_def log_file_def by (rule chain_dir [OF D n])
  then have F1: "lookup s1 F = lookup s F" using mkdir_each_only s1 by (simp add: os_MkdirAll_def)
  have faults1: "faults s1 = faults s" by (rule os_MkdirAll_faults [OF s1])
  have "is_dir s1 (path_dir F)"
  proof (cases "elements D = []")
    case True
    then show ?thesis using path_dir_join [OF D n] by (simp add: F_def log_file_def is_dir_def path_clean_def)
  next
    case False
    then have "lookup s1 (path_clean D) = Some DirNode" using chain_clean mkdir_each_made s1 by (simp add: os_MkdirAll_def)
    then show ?thesis using path_dir_join [OF D n] by (simp add: F_def log_file_def is_dir_def)
  qed
  moreover have "fault s1 ''write'' F = None" "lookup s1 F \<noteq> Some DirNode"
    using assms(1) F1 faults1 by (simp_all add: log_ready_def fault_def F_def D_def)
  ultimately have opened: "open_write s1 F = None" by (simp add: open_write_def)
  have "\<exists>s2. os_AppendFile s1 F (data @ [nl]) = Inr s2"
  proof (cases "lookup s1 F")
    case (Some n)
    then show ?thesis using opened by (cases n) (simp_all add: os_AppendFile_def)
  qed (use opened in \<open>simp add: os_AppendFile_def\<close>)
  then obtain s2 where s2: "os_AppendFile s1 F (data @ [nl]) = Inr s2" by (elim exE)
  have w: "write_line day l data s = s2" using D s1 s2 by (simp add: write_line_def D_def F_def)
  have put: "s2 = put_node F (FileNode ((case lookup s1 F of Some (FileNode old) \<Rightarrow> old | _ \<Rightarrow> []) @ data @ [nl])) s1"
    by (rule os_AppendFile_ok [OF s2])
  have "file_text s2 F = file_text s F @ data @ [nl]" by (simp add: put file_text_def F1)
  moreover have "log_ready day l s2"
    using assms(1) faults1 F os_MkdirAll_frame [OF s1]
    unfolding log_ready_def D_def [symmetric] F_def [symmetric]
    by (auto simp: put fault_def list_all_iff) metis
  ultimately show ?thesis
    unfolding w D_def [symmetric] F_def [symmetric] using os_MkdirAll_frame [OF s1] by (auto simp: put)
qed

text \<open>The lines of the log.\<close>

definition log_lines :: "string \<Rightarrow> RequestLogger \<Rightarrow> fs \<Rightarrow> string list" where
  "log_lines day l s = butlast (split_byte nl (file_text s (log_file (rl_logDir l) day)))"

lemma log_lines_append:
  "whole_lines text \<Longrightarrow> nl \<notin> set data \<Longrightarrow> butlast (split_byte nl (text @ data @ [nl])) = butlast (split_byte nl text) @ [data]"
proof (cases "text = []")
  case True
  assume "nl \<notin> set data"
  then show ?thesis using True split_byte_append_sep [of nl data "[]"] by (simp add: split_byte_absent)
next
  case False
  assume "whole_lines text" and d: "nl \<notin> set data"
  then obtain t where t: "text = t @ [nl]" using False unfolding whole_lines_def by (metis append_butlast_last_id)
  have "split_byte nl (t @ nl # data @ [nl]) = split_byte nl t @ [data, []]"
    using d split_byte_append_sep [of nl t "data @ [nl]"] split_byte_append_sep [of nl data "[]"] by (simp add: split_byte_absent)
  moreover have "split_byte nl (t @ [nl]) = split_byte nl t @ [[]]" using split_byte_append_sep [of nl t "[]"] by simp
  ultimately show ?thesis by (simp add: t butlast_append)
qed

lemma log_lines_first: "nl \<notin> set data \<Longrightarrow> butlast (split_byte nl (data @ [nl])) = [data]"
  using log_lines_append [of "[]" data] by (simp add: whole_lines_def)

interpretation request_log: message_log "\<lambda>s data. Inr (write_line day l data s)" "log_lines day l"
  "\<lambda>s. good_day day \<and> log_ready day l s \<and> whole_lines (file_text s (log_file (rl_logDir l) day))" "\<lambda>data. nl \<notin> set data"
  for day l
  by unfold_locales (auto simp: log_lines_def write_line_ready log_lines_append log_lines_first whole_lines_def)

text \<open>Writing entries, one after the other, is the log's own \<open>add_all\<close> of their JSON lines.\<close>

lemma write_entries_all:
  "request_log.add_all day l s (map enc entries) = Inr (write_entries enc day l entries s)"
  by (induction entries arbitrary: s) (simp_all add: write_entries_def writeLog_def result_bind_def)

lemma chat_log_shape:
  "chat_log post marshal unmarshal decode now duration p requestID messages tools sampling model useToolRole = es \<Longrightarrow>
     length es \<le> 2 \<and> list_all (\<lambda>e. le_RequestID e = requestID \<and> le_Timestamp e = now) es \<and>
     (\<forall>l. op_requestLogger p = Some l \<longrightarrow> \<not> rl_logRequests l \<longrightarrow> ''request'' \<notin> set (map le_Type es)) \<and>
     (\<forall>l. op_requestLogger p = Some l \<longrightarrow> \<not> rl_logResponses l \<longrightarrow> ''response'' \<notin> set (map le_Type es))"
  by (elim subst)
    (simp add: chat_log_def LogError_def LogRequest_def LogResponse_def blank_entry_def Let_def
      split: option.split sum.split http_reply.split)

lemma write_entries_frame:
  "log_ready day l s \<Longrightarrow> good_day day \<Longrightarrow> q \<noteq> log_file (rl_logDir l) day \<Longrightarrow>
     lookup (write_entries enc day l es s) q = lookup s q \<or>
     lookup s q = None \<and> lookup (write_entries enc day l es s) q = Some DirNode"
proof (induction es arbitrary: s)
  case (Cons e es)
  note line = write_line_ready [OF Cons.prems(1,2), of "enc e"]
  then show ?case using Cons.IH [of "write_line day l (enc e) s"] Cons.prems by (fastforce simp: write_entries_def writeLog_def)
qed (simp add: write_entries_def)



end
