(* ===== verification/Services.thy ===== *)
theory Services
  imports BuiltinTools Defaults AgentRegistry RequestLog
begin

text \<open>
  internal/app/setup.go and pid.go: how the services of the server are put together from the data
  directory, and the file that names the running process. The texts that are built in, the parsers,
  the network, the processes and the iteration orders are the fields of a \<open>platform\<close>. The lemmas
  show which tools the server offers and that each of them but \<open>skill\<close> says it needs approval, that
  the data directory has its agents afterwards, that the context size handed to the model server is
  the largest one configured, and that a process finds itself by the file it wrote.
\<close>

record platform =
  pf_embedded :: "string \<Rightarrow> string"
  pf_skill_toml :: "string \<Rightarrow> skillFrontmatter result"
  pf_command_toml :: "string \<Rightarrow> manifest result"
  pf_agent_toml :: "string \<Rightarrow> AgentTOML result"
  pf_web :: web
  pf_marshal :: "DiffPreview \<Rightarrow> string result"
  pf_spawn :: spawn
  pf_environ :: "string \<Rightarrow> string option"
  pf_env_order :: "(string \<times> string) list \<Rightarrow> (string \<times> string) list"
  pf_skill_order :: "(string \<times> Skill) list \<Rightarrow> (string \<times> Skill) list"

section \<open>setup.go\<close>

text \<open>
  \<open>Services\<close> with its runner: the tools, the directory of the windows and the sessions, and the debug
  configuration; the directory of the agents; the skills.
\<close>

record Services =
  se_Tools :: "world ToolMap"
  se_DataDir :: string
  se_Debug :: DebugConfig
  se_Agents :: string
  se_Skills :: SkillRegistry

definition factory_NewWindow :: "string \<Rightarrow> string \<Rightarrow> fs \<Rightarrow> Window result \<times> fs" where
  "factory_NewWindow dataDir sessionID s = service_NewWindow dataDir sessionID s"

definition RegisterUserCommands :: "platform \<Rightarrow> CommandRegistry \<Rightarrow> world ToolMap \<Rightarrow> world ToolMap" where
  "RegisterUserCommands pf commands tools =
     registry_Add (on_files (CommandTool (pf_spawn pf) (pf_environ pf) (pf_env_order pf) commands)) tools"

text \<open>An error of any of the steps is reported and passed over.\<close>

definition load_skills :: "platform \<Rightarrow> string \<Rightarrow> fs \<Rightarrow> SkillRegistry \<times> fs" where
  "load_skills pf dataDir s =
     (let skillsDir = path_join [dataDir, ''skills''];
          s1 = snd (os_MkdirAll s skillsDir);
          s2 = snd (skills_EnsureDefaults (pf_embedded pf) skillsDir s1)
      in (snd (skills_Load (pf_skill_toml pf) s2 (NewSkillRegistry skillsDir)), s2))"

definition load_user_commands :: "platform \<Rightarrow> string \<Rightarrow> fs \<Rightarrow> CommandRegistry \<times> fs" where
  "load_user_commands pf dataDir s =
     (let commandsDir = path_join [dataDir, ''commands''];
          s1 = snd (os_MkdirAll s commandsDir);
          s2 = snd (commands_EnsureDefaults (pf_embedded pf) commandsDir s1)
      in (snd (commands_Load (pf_command_toml pf) s2 (NewCommandRegistry commandsDir)), s2))"

definition service_tools :: "platform \<Rightarrow> Config \<Rightarrow> SkillRegistry \<Rightarrow> CommandRegistry \<Rightarrow> world ToolMap" where
  "service_tools pf cfg skills commands =
     RegisterUserCommands pf commands
       (RegisterSkill (pf_skill_order pf) skills
         (RegisterAll (pf_web pf) (pf_marshal pf) (cf_DataDir cfg) (cf_Tools cfg) NewToolRegistry))"

definition NewServices :: "platform \<Rightarrow> Config \<Rightarrow> fs \<Rightarrow> Services \<times> fs" where
  "NewServices pf cfg s =
     (let s1 = snd (agents_EnsureDefaults (pf_embedded pf) (cf_DataDir cfg) s);
          (skills, s2) = load_skills pf (cf_DataDir cfg) s1;
          (commands, s3) = load_user_commands pf (cf_DataDir cfg) s2
      in (\<lparr>se_Tools = service_tools pf cfg skills commands, se_DataDir = cf_DataDir cfg, se_Debug = cf_Debug cfg,
           se_Agents = NewAgentRegistry (cf_DataDir cfg), se_Skills = skills\<rparr>, s3))"

section \<open>MaxAgentContextSize (server.go)\<close>

text \<open>The loop over the agents; one that cannot be loaded is passed over.\<close>

fun max_context :: "(string \<Rightarrow> AgentConfig result) \<Rightarrow> string list \<Rightarrow> int \<Rightarrow> int" where
  "max_context load [] maxSize = maxSize"
| "max_context load (name # names) maxSize =
     max_context load names
       (case load name of Inl _ \<Rightarrow> maxSize | Inr cfg \<Rightarrow> if ac_ContextSize cfg > maxSize then ac_ContextSize cfg else maxSize)"

definition MaxAgentContextSize :: "platform \<Rightarrow> string \<Rightarrow> fs \<Rightarrow> int \<times> fs" where
  "MaxAgentContextSize pf dataDir s =
     (let s1 = snd (agents_EnsureDefaults (pf_embedded pf) dataDir s);
          registry = NewAgentRegistry dataDir
      in (case agent_List (pf_agent_toml pf) registry s1 of
            Inl _ \<Rightarrow> 0
          | Inr agents \<Rightarrow> max_context (agent_Load (pf_agent_toml pf) registry s1) (map sm_AgentName agents) 0, s1))"

section \<open>pid.go\<close>

text \<open>\<open>strconv.Atoi\<close>: an optional sign, then digits, in 64 bits; the value and whether there was no error.
  The value is 0 when the text is no number and the bound when it is out of range.\<close>

definition strconv_Atoi :: "string \<Rightarrow> int \<times> bool" where
  "strconv_Atoi t =
     (case sign_of t of (neg, ds) \<Rightarrow>
        if ds = [] then (0, False)
        else case number_of ds of None \<Rightarrow> (0, False)
        | Some n \<Rightarrow>
            let i = (if neg then - int n else int n)
            in if i < - (2 ^ 63) then (- (2 ^ 63), False) else if i \<ge> 2 ^ 63 then (2 ^ 63 - 1, False) else (i, True))"

text \<open>\<open>alive pid\<close>: the process is found and takes the signal 0.\<close>

definition ReadPID :: "(int \<Rightarrow> bool) \<Rightarrow> string \<Rightarrow> fs \<Rightarrow> int" where
  "ReadPID alive pidFile s =
     (case os_ReadFile s pidFile of Inl _ \<Rightarrow> 0
      | Inr data \<Rightarrow> (case strconv_Atoi (trim_space data) of (pid, ok) \<Rightarrow> if \<not> ok then 0 else if alive pid then pid else 0))"

text \<open>\<open>strings.Fields\<close> on text whose spaces are the ASCII ones.\<close>

function strings_Fields :: "string \<Rightarrow> string list" where
  "strings_Fields t =
     (case dropWhile is_space t of [] \<Rightarrow> []
      | c # cs \<Rightarrow> takeWhile (\<lambda>x. \<not> is_space x) (c # cs) # strings_Fields (dropWhile (\<lambda>x. \<not> is_space x) (c # cs)))"
  by pat_completeness auto
termination
proof (relation "measure length", goal_cases)
  case (2 t c cs)
  then have "\<not> is_space c" by (metis hd_dropWhile list.sel(1) list.discI)
  then have "length (dropWhile (\<lambda>x. \<not> is_space x) (c # cs)) \<le> length cs" by (simp add: length_dropWhile_le)
  also have "\<dots> < length (dropWhile is_space t)" using 2 by simp
  also have "\<dots> \<le> length t" by (rule length_dropWhile_le)
  finally show ?case by simp
qed simp

declare strings_Fields.simps [simp del]

text \<open>\<open>pidof\<close> is the output of \<open>pgrep -f\<close>; an error of \<open>Atoi\<close> is passed over.\<close>

definition FindProcessPID :: "(string \<Rightarrow> string result) \<Rightarrow> string \<Rightarrow> int" where
  "FindProcessPID pidof name =
     (case pidof name of Inl _ \<Rightarrow> 0
      | Inr out \<Rightarrow> (case strings_Fields (trim_space out) of [] \<Rightarrow> 0 | field # _ \<Rightarrow> fst (strconv_Atoi field)))"

definition writePIDFile :: "int \<Rightarrow> string \<Rightarrow> fs \<Rightarrow> unit result \<times> fs" where
  "writePIDFile pid path s =
     (case os_MkdirAll s (path_dir path) of
        (Inl err, s1) \<Rightarrow> (Inl (Errorf ''write pid file: mkdir: %w'' [AErr err]), s1)
      | (Inr _, s1) \<Rightarrow>
          (case os_WriteFile s1 path (itoa pid) of
             Inl err \<Rightarrow> (Inl (Errorf ''write pid file: %w'' [AErr err]), s1)
           | Inr s2 \<Rightarrow> (Inr (), s2)))"

section \<open>Numbers that were printed\<close>

lemma Atoi_itoa: "- (2 ^ 63) \<le> i \<Longrightarrow> i < 2 ^ 63 \<Longrightarrow> strconv_Atoi (itoa i) = (i, True)"
proof -
  assume i: "- (2 ^ 63) \<le> i" "i < 2 ^ 63"
  have s: "sign_of (nat_digits n) = (False, nat_digits n)" for n
    using digits_plain [of "hd (nat_digits n)" n] number_digits [of n] not_digit
    by (cases "nat_digits n") (auto simp: sign_of_def)
  show ?thesis
  proof (cases "i < 0")
    case True
    then have "sign_of (itoa i) = (True, nat_digits (nat (- i)))" by (simp add: itoa_def sign_of_def)
    then show ?thesis using i True number_digits [of "nat (- i)"] by (simp add: strconv_Atoi_def)
  next
    case False
    then have "sign_of (itoa i) = (False, nat_digits (nat i))" by (simp add: itoa_def s)
    then show ?thesis using i False number_digits [of "nat i"] by (simp add: strconv_Atoi_def)
  qed
qed

lemma trim_no_space: "(\<And>c. c \<in> set t \<Longrightarrow> \<not> is_space c) \<Longrightarrow> trim_space t = t"
proof -
  assume t: "\<And>c. c \<in> set t \<Longrightarrow> \<not> is_space c"
  have plain: "dropWhile is_space u = u" if "\<And>c. c \<in> set u \<Longrightarrow> \<not> is_space c" for u using that by (cases u) auto
  show ?thesis using plain [of t] plain [of "rev t"] t by (simp add: trim_space_def)
qed

lemma trim_itoa: "trim_space (itoa i) = itoa i"
proof (rule trim_no_space)
  fix c
  assume "c \<in> set (itoa i)"
  then have "c = CHR ''-'' \<or> is_digit c" using digits_plain by (auto simp: itoa_def split: if_splits)
  then show "\<not> is_space c" using not_digit(3) by (auto simp: is_space_def)
qed

text \<open>
  A process that wrote its number to the PID file is found by it as long as it is alive, and not
  any more afterwards.
\<close>

theorem pid_file_roundtrip:
  assumes "writePIDFile pid path s = (Inr (), s')" and "- (2 ^ 63) \<le> pid" and "pid < 2 ^ 63" and "fault s ''open'' path = None"
  shows "ReadPID alive path s' = (if alive pid then pid else 0)"
proof -
  obtain s1 where s1: "os_MkdirAll s (path_dir path) = (Inr (), s1)" "os_WriteFile s1 path (itoa pid) = Inr s'"
    using assms(1) by (auto simp: writePIDFile_def split: sum.splits prod.splits)
  have "os_ReadFile s' path = Inr (itoa pid)"
    using os_WriteFile_ok [OF s1(2)] os_MkdirAll_faults [OF s1(1)] assms(4) by (simp add: os_ReadFile_def fault_def)
  then show ?thesis by (simp add: ReadPID_def trim_itoa Atoi_itoa [OF assms(2,3)])
qed

theorem pid_file_roundtrip_witness:
  "\<exists>s'. writePIDFile 4711 ''/d/server.pid'' \<lparr>nodes = [], faults = []\<rparr> = (Inr (), s') \<and>
     ReadPID (\<lambda>p. p = 4711) ''/d/server.pid'' s' = 4711 \<and> ReadPID (\<lambda>p. False) ''/d/server.pid'' s' = 0"
proof -
  have "path_dir ''/d/server.pid'' = ''/d''" "dir_chain ''/d'' = [''/d'']" by code_simp+
  then have "fst (writePIDFile 4711 ''/d/server.pid'' \<lparr>nodes = [], faults = []\<rparr>) = Inr ()"
    by (simp add: writePIDFile_def os_MkdirAll_def os_WriteFile_def open_write_def is_dir_def fault_def lookup_def put_node_def)
  then obtain s' where s': "writePIDFile 4711 ''/d/server.pid'' \<lparr>nodes = [], faults = []\<rparr> = (Inr (), s')" by (metis prod.collapse)
  have "ReadPID a ''/d/server.pid'' s' = (if a 4711 then 4711 else 0)" for a
    by (rule pid_file_roundtrip [OF s']) (simp_all add: fault_def)
  then show ?thesis using s' by auto
qed

section \<open>The tools of the server\<close>

lemma NewServices_parts:
  "se_Tools (fst (NewServices pf cfg s)) = service_tools pf cfg
     (fst (load_skills pf (cf_DataDir cfg) (snd (agents_EnsureDefaults (pf_embedded pf) (cf_DataDir cfg) s))))
     (fst (load_user_commands pf (cf_DataDir cfg)
        (snd (load_skills pf (cf_DataDir cfg) (snd (agents_EnsureDefaults (pf_embedded pf) (cf_DataDir cfg) s))))))"
  "se_Agents (fst (NewServices pf cfg s)) = NewAgentRegistry (cf_DataDir cfg)"
  "snd (NewServices pf cfg s) = snd (load_user_commands pf (cf_DataDir cfg)
     (snd (load_skills pf (cf_DataDir cfg) (snd (agents_EnsureDefaults (pf_embedded pf) (cf_DataDir cfg) s)))))"
  by (simp_all add: NewServices_def Let_def case_prod_unfold)

lemma service_tools_put:
  "service_tools pf cfg skills commands = tool_store.put_all
     (map on_files (file_tools (pf_web pf) (pf_marshal pf) (cf_DataDir cfg) (cf_Tools cfg)) @
      [SkillTool (pf_skill_order pf) skills, on_files (CommandTool (pf_spawn pf) (pf_environ pf) (pf_env_order pf) commands)])
     NewToolRegistry"
  by (simp add: service_tools_def RegisterUserCommands_def RegisterSkill_def RegisterAll_put tool_store.put_all_append)

lemma named_tools:
  "map (\<lambda>t. (tl_Name t, tl_RequiresApproval t))
     (map on_files (file_tools w marshal baseDir cfg) @
      [SkillTool order skills, on_files (CommandTool spawn environ order' commands)]) =
   [(''read_file'', True), (''list_files'', True), (''write_file'', True), (''edit_file'', True), (''web_fetch'', True),
    (''skill'', False), (''run_command'', True)]"
  by (simp add: file_tools_def on_files_def ReadFileTool_def ListFilesTool_def write_file_tool_def edit_file_tool_def
      WebFetchTool_def web_fetch_Name_def SkillTool_def CommandTool_def)

definition server_tool_names :: "string list" where
  "server_tool_names = [''read_file'', ''list_files'', ''write_file'', ''edit_file'', ''web_fetch'', ''skill'', ''run_command'']"

lemma no_tools: "registry_GetTool NewToolRegistry name = None"
  by (simp add: registry_GetTool_def NewToolRegistry_def)

lemma find_named:
  "map (\<lambda>t. (f t, g t)) ts = kvs \<Longrightarrow> map_option (\<lambda>t. (f t, g t)) (find (\<lambda>t. f t = n) ts) = find (\<lambda>kv. fst kv = n) kvs"
  by (induction ts arbitrary: kvs) auto

text \<open>
  Whatever the configuration, the platform and the state of the disk are, the server offers
  exactly seven tools, each under its own name and once, and of these only \<open>skill\<close> says that it
  needs no approval.
\<close>

theorem server_tools:
  "wf_tools (se_Tools (fst (NewServices pf cfg s))) \<and>
   map_option (\<lambda>t. (tl_Name t, tl_RequiresApproval t)) (registry_GetTool (se_Tools (fst (NewServices pf cfg s))) name) =
     (if name \<in> set server_tool_names then Some (name, name \<noteq> ''skill'') else None)"
proof -
  obtain skills commands where T: "se_Tools (fst (NewServices pf cfg s)) = service_tools pf cfg skills commands"
    using NewServices_parts(1) by metis
  define ts where "ts = map on_files (file_tools (pf_web pf) (pf_marshal pf) (cf_DataDir cfg) (cf_Tools cfg)) @
      [SkillTool (pf_skill_order pf) skills, on_files (CommandTool (pf_spawn pf) (pf_environ pf) (pf_env_order pf) commands)]"
  have S: "service_tools pf cfg skills commands = tool_store.put_all ts NewToolRegistry" by (simp add: service_tools_put ts_def)
  have kvs: "map (\<lambda>t. (tl_Name t, tl_RequiresApproval t)) (rev ts) =
      [(''run_command'', True), (''skill'', False), (''web_fetch'', True), (''edit_file'', True), (''write_file'', True),
       (''list_files'', True), (''read_file'', True)]"
    unfolding rev_map [symmetric] ts_def named_tools by simp
  have "registry_GetTool (service_tools pf cfg skills commands) name = find (\<lambda>t. tl_Name t = name) (rev ts)"
    by (simp add: S tool_store.get_put_all no_tools split: option.split)
  then have "map_option (\<lambda>t. (tl_Name t, tl_RequiresApproval t)) (registry_GetTool (service_tools pf cfg skills commands) name) =
      (if name \<in> set server_tool_names then Some (name, name \<noteq> ''skill'') else None)"
    by (auto simp: find_named [OF kvs] server_tool_names_def)
  moreover have "wf_tools (service_tools pf cfg skills commands)" unfolding S by (rule registry_wf)
  ultimately show ?thesis by (simp add: T)
qed

section \<open>The agents after a start\<close>

lemma names_differ: "d \<noteq> [] \<Longrightarrow> d' \<noteq> [] \<Longrightarrow> plain_name n \<Longrightarrow> plain_name n' \<Longrightarrow> n \<noteq> n' \<Longrightarrow> path_join [d, n] \<noteq> path_join [d', n']"
proof
  assume a: "d \<noteq> []" "d' \<noteq> []" "plain_name n" "plain_name n'" "n \<noteq> n'" and "path_join [d, n] = path_join [d', n']"
  then have "last (split_byte slash (path_join [d, n])) = last (split_byte slash (path_join [d', n']))" by simp
  then show False using a by (simp add: split_join_name)
qed

lemma ensure_dir_frame:
  assumes "ensure_dir dir files s = (r, s')" and "q \<notin> (\<lambda>f. path_join [dir, fst f]) ` set files" and "lookup s q = Some n"
  shows "lookup s' q = Some n"
proof -
  have "s' = s \<or> (\<exists>e s1. os_MkdirAll s dir = (e, s1) \<and> (s' = s1 \<or> (\<exists>r. write_files dir files s1 = (r, s'))))"
    using assms(1) by (auto simp: ensure_dir_def split: sum.splits prod.splits)
  moreover have "lookup s1 q = Some n" if "os_MkdirAll s dir = (e, s1)" for e s1
    using os_MkdirAll_frame [OF that, of q] assms(3) by auto
  moreover have "lookup s2 q = lookup s1 q" if "write_files dir files s1 = (e, s2)" for e s1 s2
    using write_files_frame [OF that assms(2)] .
  ultimately show ?thesis using assms(3) by metis
qed

text \<open>What is not written stays, through the loading of the skills and the commands.\<close>

lemma load_skills_keeps:
  assumes "dataDir \<noteq> []" and "dir \<noteq> []" and "plain_name n" and "n \<noteq> ''SKILL.md''" and "lookup s (path_join [dir, n]) = Some c"
  shows "lookup (snd (load_skills pf dataDir s)) (path_join [dir, n]) = Some c"
proof -
  have p: "plain_name ''skills''" "plain_name ''kontekst''" "plain_name ''SKILL.md''" by code_simp+
  define D where "D = path_join [path_join [dataDir, ''skills''], ''kontekst'']"
  have D: "D \<noteq> []" unfolding D_def by (intro join_name(4) assms(1) p)
  define s1 where "s1 = snd (os_MkdirAll s (path_join [dataDir, ''skills'']))"
  have s1: "lookup s1 (path_join [dir, n]) = Some c"
    unfolding s1_def using os_MkdirAll_frame [of s "path_join [dataDir, ''skills'']" "fst (os_MkdirAll s (path_join [dataDir, ''skills'']))" _ "path_join [dir, n]"] assms(5) by auto
  have "snd (load_skills pf dataDir s) = snd (ensure_dir D [(''SKILL.md'', pf_embedded pf ''content/kontekst-skill.md'')] s1)"
    by (simp add: load_skills_def Let_def skills_EnsureDefaults_def bundledSkills_def ensureSkill_def D_def s1_def split: prod.split sum.split)
  then show ?thesis
    using ensure_dir_frame [OF surjective_pairing _ s1] names_differ [OF assms(2) D assms(3) p(3) assms(4)] by simp
qed

lemma load_commands_keeps:
  assumes "dataDir \<noteq> []" and "dir \<noteq> []" and "plain_name n" and "n \<noteq> ''command.toml''" and "n \<noteq> ''run.sh''"
    and "lookup s (path_join [dir, n]) = Some c"
  shows "lookup (snd (load_user_commands pf dataDir s)) (path_join [dir, n]) = Some c"
proof -
  have p: "plain_name ''commands''" "plain_name ''grep''" "plain_name ''command.toml''" "plain_name ''run.sh''" by code_simp+
  define D where "D = path_join [path_join [dataDir, ''commands''], ''grep'']"
  have D: "D \<noteq> []" unfolding D_def by (intro join_name(4) assms(1) p)
  define s1 where "s1 = snd (os_MkdirAll s (path_join [dataDir, ''commands'']))"
  have s1: "lookup s1 (path_join [dir, n]) = Some c"
    unfolding s1_def using os_MkdirAll_frame [of s "path_join [dataDir, ''commands'']" "fst (os_MkdirAll s (path_join [dataDir, ''commands'']))" _ "path_join [dir, n]"] assms(6) by auto
  have "snd (load_user_commands pf dataDir s) = snd (ensure_dir D [(''command.toml'', pf_embedded pf ''content/grep-command.toml''),
      (''run.sh'', pf_embedded pf ''content/grep-run.sh'')] s1)"
    by (simp add: load_user_commands_def Let_def commands_EnsureDefaults_def bundledCommands_def ensureCommand_def D_def s1_def split: prod.split sum.split)
  then show ?thesis
    using ensure_dir_frame [OF surjective_pairing _ s1] names_differ [OF assms(2) D assms(3) p(3) assms(4)]
      names_differ [OF assms(2) D assms(3) p(4) assms(5)] by simp
qed

lemma load_keeps_faults:
  "faults (snd (load_skills pf dataDir s)) = faults s" "faults (snd (load_user_commands pf dataDir s)) = faults s"
proof -
  have m: "faults (snd (os_MkdirAll s d)) = faults s" for s d using os_MkdirAll_faults [OF surjective_pairing] .
  have e: "faults (snd (ensure_each (\<lambda>x. ensure_dir (D x) (F x)) xs s)) = faults s" for D F s and xs :: "'a list"
  proof (induction xs arbitrary: s)
    case (Cons x xs)
    have "faults (snd (ensure_dir (D x) (F x) s)) = faults s" using ensure_dir_faults [OF surjective_pairing] .
    then show ?case using Cons by (simp add: split_beta split: sum.split)
  qed simp
  have "skills_EnsureDefaults emb d = ensure_each (\<lambda>k. ensure_dir (path_join [d, bs_name k]) [(''SKILL.md'', bs_content k)]) (bundledSkills emb)" for emb d
    by (rule ext) (simp add: skills_EnsureDefaults_def ensureSkill_def [abs_def])
  moreover have "commands_EnsureDefaults emb d = ensure_each (\<lambda>c. ensure_dir (path_join [d, bc_name c])
      [(''command.toml'', bc_config c), (bc_scriptName c, bc_script c)]) (bundledCommands emb)" for emb d
    by (rule ext) (simp add: commands_EnsureDefaults_def ensureCommand_def [abs_def])
  ultimately show "faults (snd (load_skills pf dataDir s)) = faults s" "faults (snd (load_user_commands pf dataDir s)) = faults s"
    by (simp_all add: load_skills_def load_user_commands_def Let_def e m)
qed

text \<open>
  C22: after the services are made, each bundled agent whose directory was missing is loaded by the
  registry with the built-in prompt and the configuration that the built-in text gives, even though
  the skills and the commands are installed after the agents.
\<close>

theorem bundled_agent_loads:
  assumes "NewServices pf cfg s = (sv, s')" and "cf_DataDir cfg \<noteq> []" and "faults s = []"
    and "fst (agents_EnsureDefaults (pf_embedded pf) (cf_DataDir cfg) s) = Inr ()"
    and "list_all (\<lambda>a. no_leftovers (agent_dir (cf_DataDir cfg) a) (agent_files a) s) (bundledAgents (pf_embedded pf))"
    and "a \<in> set (bundledAgents (pf_embedded pf))" and "lookup s (agent_dir (cf_DataDir cfg) a) = None"
    and "toml (ba_config a) = Inr t"
  shows "agent_Load toml (se_Agents sv) s' (ba_name a) =
    Inr ((apply_toml t (bare_config (ba_name a)))\<lparr>ac_SystemPrompt := ba_prompt a\<rparr>)"
proof -
  define D where "D = cf_DataDir cfg"
  obtain s1 where s1: "agents_EnsureDefaults (pf_embedded pf) D s = (Inr (), s1)" using assms(4) unfolding D_def by (metis prod.collapse)
  have p: "plain_name ''agents''" "plain_name (ba_name a)" "plain_name ''config.toml''" "plain_name ''agent.md''"
    using bundled_plain assms(6) by (code_simp, simp add: list_all_iff, code_simp, code_simp)
  have D: "D \<noteq> []" using assms(2) by (simp add: D_def)
  have D1: "path_join [D, ''agents''] \<noteq> []" by (rule join_name(4) [OF D p(1)])
  have D2: "agent_dir D a \<noteq> []" unfolding agent_dir_def by (rule join_name(4) [OF D1 p(2)])
  have inst: "installed (agent_dir D a) (agent_files a) s1"
    using agents_all_installed [OF s1 D assms(3)] assms(5,6,7) by (simp add: D_def list_all_iff)
  have s': "s' = snd (load_user_commands pf D (snd (load_skills pf D s1)))" and sv: "se_Agents sv = path_join [D, ''agents'']"
    using NewServices_parts(2,3) [of pf cfg s] assms(1) s1 by (simp_all add: D_def NewAgentRegistry_def)
  have "lookup s' (path_join [agent_dir D a, ''config.toml'']) = Some (FileNode (ba_config a))"
    "lookup s' (path_join [agent_dir D a, ''agent.md'']) = Some (FileNode (ba_prompt a))"
    using inst unfolding s' by (auto intro!: load_commands_keeps load_skills_keeps D D2 p simp: installed_def agent_files_def)
  moreover have "faults s1 = []" using agents_all_installed [OF s1 D assms(3)] assms(5) by (simp add: D_def)
  then have "fault s' op q = None" for op q by (simp add: s' fault_def load_keeps_faults)
  ultimately show ?thesis
    using assms(8)
    by (simp add: agent_Load_def fileExists_def os_Stat_def configPath_def promptPath_def sv agent_dir_def LoadTOML_def LoadPrompt_def
        os_ReadFile_def Let_def result_bind_def map_error_def)
qed

theorem bundled_agent_loads_witness:
  "\<forall>pf cfg t. \<exists>sv s'. NewServices (pf\<lparr>pf_embedded := \<lambda>f. f\<rparr>) (cfg\<lparr>cf_DataDir := ''/d''\<rparr>) \<lparr>nodes = [], faults = []\<rparr> = (sv, s') \<and>
     agent_Load (\<lambda>_. Inr t) (se_Agents sv) s' ''default'' =
       Inr ((apply_toml t (bare_config ''default''))\<lparr>ac_SystemPrompt := ''prompts/system-prompt.md''\<rparr>)"
proof (intro allI, goal_cases)
  case (1 pf cfg t)
  define s where "s = \<lparr>nodes = [], faults = [] :: ((string \<times> string) \<times> go_error) list\<rparr>"
  define a where "a = hd (bundledAgents (\<lambda>f. f))"
  have a: "a \<in> set (bundledAgents (\<lambda>f. f))" "ba_name a = ''default''" "ba_prompt a = ''prompts/system-prompt.md''"
    by (simp_all add: a_def bundledAgents_def)
  have ok: "fst (agents_EnsureDefaults (\<lambda>f. f) ''/d'' s) = Inr ()" unfolding s_def by code_simp
  have s: "faults s = []" "lookup s q = None" for q by (simp_all add: s_def lookup_def)
  obtain sv s' where n: "NewServices (pf\<lparr>pf_embedded := \<lambda>f. f\<rparr>) (cfg\<lparr>cf_DataDir := ''/d''\<rparr>) s = (sv, s')" by force
  have "agent_Load (\<lambda>_. Inr t) (se_Agents sv) s' (ba_name a) = Inr ((apply_toml t (bare_config (ba_name a)))\<lparr>ac_SystemPrompt := ba_prompt a\<rparr>)"
    by (rule bundled_agent_loads [OF n]) (use ok s a(1) in \<open>simp_all add: no_leftovers_def list_all_iff\<close>)
  then show ?case using n unfolding a(2,3) s_def by blast
qed

section \<open>The context size of the model server\<close>

definition context_sizes :: "(string \<Rightarrow> AgentConfig result) \<Rightarrow> string list \<Rightarrow> int list" where
  "context_sizes load names = List.map_filter (\<lambda>name. case load name of Inl _ \<Rightarrow> None | Inr cfg \<Rightarrow> Some (ac_ContextSize cfg)) names"

lemma max_context_Max: "max_context load names m = Max (set (m # context_sizes load names))"
proof (induction names arbitrary: m)
  case (Cons name names)
  have step: "Max (insert (if c > m then c else m) S) = Max (insert m (insert c S))" if "finite S" for c m :: int and S
    using that by (cases "S = {}") (simp_all add: max_def)
  show ?case
  proof (cases "load name")
    case (Inr cfg)
    have "context_sizes load (name # names) = ac_ContextSize cfg # context_sizes load names"
      using Inr by (simp add: context_sizes_def map_filter_simps)
    then have sizes: "set (m # context_sizes load (name # names)) = insert m (insert (ac_ContextSize cfg) (set (context_sizes load names)))" by simp
    have "max_context load (name # names) m =
        Max (insert (if ac_ContextSize cfg > m then ac_ContextSize cfg else m) (set (context_sizes load names)))"
      using Inr Cons by simp
    also have "\<dots> = Max (insert m (insert (ac_ContextSize cfg) (set (context_sizes load names))))" by (rule step) simp
    finally show ?thesis unfolding sizes .
  qed (use Cons in \<open>simp add: context_sizes_def map_filter_simps\<close>)
qed (simp add: context_sizes_def map_filter_simps)

lemma max_agent_context:
  assumes "MaxAgentContextSize pf dataDir s = (n, s')" and "agent_List (pf_agent_toml pf) (NewAgentRegistry dataDir) s' = Inr agents"
    and "a \<in> set agents" and "agent_Load (pf_agent_toml pf) (NewAgentRegistry dataDir) s' (sm_AgentName a) = Inr cfg"
  shows "ac_ContextSize cfg \<le> n"
proof -
  have n: "n = max_context (agent_Load (pf_agent_toml pf) (NewAgentRegistry dataDir) s') (map sm_AgentName agents) 0"
    using assms(1,2) by (auto simp: MaxAgentContextSize_def Let_def)
  have "ac_ContextSize cfg \<in> set (context_sizes (agent_Load (pf_agent_toml pf) (NewAgentRegistry dataDir) s') (map sm_AgentName agents))"
    using assms(3,4) by (auto simp: context_sizes_def map_filter_def intro!: image_eqI [of _ _ "sm_AgentName a"])
  then show ?thesis by (simp add: n max_context_Max)
qed

end
