(* ===== verification/AppServer.thy ===== *)
theory AppServer
  imports Services Client
begin

text \<open>
  internal/app/server.go: the dispatch that a connection of the daemon gets, and the life of the
  server as a state machine: its main goroutine, the goroutine that accepts, the connections that
  are counted, the goroutine that waits for them, and one goroutine per shutdown request. A step is
  a receive, a send, or a call of the code that blocks or takes effect. The lemmas show that the
  server reports its own configuration, when a shutdown request ends it, and in which states one is
  lost.
\<close>

section \<open>handleConnection\<close>

definition enc_StatusResponse :: "StatusResponse \<Rightarrow> json" where
  "enc_StatusResponse r =
     JObj [(''bind'', JStr (st_Bind r)), (''uptime'', JStr (st_Uptime r)),
           (''startedAt'', JStr (st_StartedAt r)), (''dataDir'', JStr (st_DataDir r))]"

text \<open>\<open>uptime\<close> is the time since the start, rounded and printed; \<open>started\<close> the start in RFC 3339.\<close>

definition server_status :: "string \<Rightarrow> string \<Rightarrow> Config \<Rightarrow> StatusResponse" where
  "server_status uptime started cfg =
     \<lparr>st_Bind = cf_Bind cfg, st_Uptime = uptime, st_StartedAt = started, st_DataDir = cf_DataDir cfg\<rparr>"

type_synonym dispatched = "json result option \<times> Handler \<times> request list \<times> Command list"

text \<open>The last component says that a goroutine was started that asks the server to shut down.\<close>

definition connection_dispatch ::
  "string \<Rightarrow> string \<Rightarrow> Config \<Rightarrow> (string \<Rightarrow> json option \<Rightarrow> Handler \<Rightarrow> request list \<Rightarrow> dispatched) \<Rightarrow>
     string \<Rightarrow> json option \<Rightarrow> Handler \<Rightarrow> request list \<Rightarrow> dispatched \<times> bool" where
  "connection_dispatch uptime started cfg handler_Dispatch method params h made =
     (if method = ''_kontekst/status''
      then ((Some (Inr (enc_StatusResponse (server_status uptime started cfg))), h, made, []), False)
      else if method = ''_kontekst/shutdown''
      then ((Some (Inr (JObj [(''message'', JStr ''shutting down'')])), h, made, []), True)
      else (handler_Dispatch method params h made, False))"

text \<open>A call of a client: the request through the connection, and the result it sees.\<close>

definition over_server :: "(string \<Rightarrow> json option \<Rightarrow> json result) \<Rightarrow> server" where
  "over_server h method params = call_result (response_of (handleRequest (Some h) (request_message 1 method params)))"

definition daemon :: "string \<Rightarrow> string \<Rightarrow> Config \<Rightarrow> (string \<Rightarrow> json option \<Rightarrow> Handler \<Rightarrow> request list \<Rightarrow> dispatched) \<Rightarrow> Handler \<Rightarrow>
     string \<Rightarrow> json option \<Rightarrow> json result" where
  "daemon uptime started cfg handler_Dispatch h method params =
     (case fst (fst (connection_dispatch uptime started cfg handler_Dispatch method params h [])) of
        None \<Rightarrow> Inl (Errorf ''no answer yet'' []) | Some r \<Rightarrow> r)"

section \<open>RunServer\<close>

datatype main_state = Preparing | Selecting | Woken | Draining | Returned

text \<open>The phases in the order in which the main goroutine goes through them.\<close>

primrec phase :: "main_state \<Rightarrow> nat" where
  "phase Preparing = 0"
| "phase Selecting = 1"
| "phase Woken = 2"
| "phase Draining = 3"
| "phase Returned = 4"

lemma phase_inj: "phase a = phase b \<longleftrightarrow> a = b"
  by (cases a; cases b) simp_all

instantiation main_state :: linorder
begin

definition less_eq_main_state :: "main_state \<Rightarrow> main_state \<Rightarrow> bool" where
  "less_eq_main_state a b \<longleftrightarrow> phase a \<le> phase b"

definition less_main_state :: "main_state \<Rightarrow> main_state \<Rightarrow> bool" where
  "less_main_state a b \<longleftrightarrow> phase a < phase b"

instance
  by intro_classes (auto simp: less_eq_main_state_def less_main_state_def phase_inj [symmetric])

end

datatype acceptor = Accepting | Holding | Gone

text \<open>
  \<open>lc_open\<close> is the counter of the wait group, \<open>lc_senders\<close> the goroutines that still have to send on
  the shutdown channel, \<open>lc_done\<close> says that the channel \<open>done\<close> is closed, \<open>lc_pidfile\<close> that the PID file
  is there. \<open>lc_asked\<close> and \<open>lc_dropped\<close> count the shutdown requests answered and those whose send
  found the server not yet waiting; no step reads them.
\<close>

record lifecycle =
  lc_main :: main_state
  lc_listening :: bool
  lc_acceptor :: acceptor
  lc_open :: nat
  lc_senders :: nat
  lc_signalled :: bool
  lc_done :: bool
  lc_pidfile :: bool
  lc_asked :: nat
  lc_dropped :: nat

definition server_pid_file :: "Config \<Rightarrow> string" where
  "server_pid_file cfg = path_join [cf_DataDir cfg, ''server.pid'']"

text \<open>Up to the select: the services, the listener, and the PID file; a file that cannot be written is passed over.\<close>

definition RunServer_start ::
  "platform \<Rightarrow> (string \<Rightarrow> go_error option) \<Rightarrow> int \<Rightarrow> Config \<Rightarrow> fs \<Rightarrow> (Services \<times> lifecycle) result \<times> fs" where
  "RunServer_start pf listen pid cfg s =
     (let (services, s1) = NewServices pf cfg s
      in case listen (cf_Bind cfg) of
           Some err \<Rightarrow> (Inl (Errorf ''server: listen %s: %w'' [AStr (cf_Bind cfg), AErr err]), s1)
         | None \<Rightarrow>
             (case writePIDFile pid (server_pid_file cfg) s1 of (r, s2) \<Rightarrow>
                (Inr (services, \<lparr>lc_main = Preparing, lc_listening = True, lc_acceptor = Accepting, lc_open = 0, lc_senders = 0,
                      lc_signalled = False, lc_done = False, lc_pidfile = (r = Inr ()), lc_asked = 0, lc_dropped = 0\<rparr>), s2)))"

definition ask_shutdown :: "lifecycle \<Rightarrow> lifecycle" where
  "ask_shutdown l = l\<lparr>lc_senders := Suc (lc_senders l), lc_asked := Suc (lc_asked l)\<rparr>"

text \<open>The send with a default branch: it is received where the main goroutine waits, and nothing happens elsewhere.\<close>

definition try_send :: "lifecycle \<Rightarrow> lifecycle" where
  "try_send l =
     (let l1 = l\<lparr>lc_senders := lc_senders l - 1\<rparr>
      in if lc_main l = Selecting then l1\<lparr>lc_main := Woken\<rparr>
         else if lc_main l = Preparing then l1\<lparr>lc_dropped := Suc (lc_dropped l)\<rparr> else l1)"

definition close_listener :: "lifecycle \<Rightarrow> lifecycle" where
  "close_listener l = l\<lparr>lc_main := Draining, lc_listening := False\<rparr>"

definition return_from_run :: "lifecycle \<Rightarrow> lifecycle" where
  "return_from_run l = l\<lparr>lc_main := Returned, lc_pidfile := False\<rparr>"

inductive serving :: "lifecycle \<Rightarrow> lifecycle \<Rightarrow> bool" where
  waits: "lc_main l = Preparing \<Longrightarrow> serving l (l\<lparr>lc_main := Selecting\<rparr>)"
| accepts: "lc_acceptor l = Accepting \<Longrightarrow> lc_listening l \<Longrightarrow> serving l (l\<lparr>lc_acceptor := Holding\<rparr>)"
| counts: "lc_acceptor l = Holding \<Longrightarrow> serving l (l\<lparr>lc_acceptor := Accepting, lc_open := Suc (lc_open l)\<rparr>)"
| accept_error: "lc_acceptor l = Accepting \<Longrightarrow> serving l (l\<lparr>lc_acceptor := Gone\<rparr>)"
| asked: "lc_open l > 0 \<Longrightarrow> serving l (ask_shutdown l)"
| sends: "lc_senders l > 0 \<Longrightarrow> serving l (try_send l)"
| hangs_up: "lc_open l > 0 \<Longrightarrow> serving l (l\<lparr>lc_open := lc_open l - 1\<rparr>)"
| signalled: "serving l (l\<lparr>lc_signalled := True\<rparr>)"
| wakes: "lc_main l = Selecting \<Longrightarrow> lc_signalled l \<Longrightarrow> serving l (l\<lparr>lc_main := Woken\<rparr>)"
| closes: "lc_main l = Woken \<Longrightarrow> serving l (close_listener l)"
| all_gone: "lc_main l = Draining \<Longrightarrow> lc_open l = 0 \<Longrightarrow> serving l (l\<lparr>lc_done := True\<rparr>)"
| drained: "lc_main l = Draining \<Longrightarrow> lc_done l \<Longrightarrow> serving l (return_from_run l)"
| timeout: "lc_main l = Draining \<Longrightarrow> serving l (return_from_run l)"

inductive_simps serving_iff: "serving l l'"
inductive_cases serving_cases: "serving l l'"

definition runs :: "lifecycle \<Rightarrow> lifecycle \<Rightarrow> bool" where
  "runs l l' \<longleftrightarrow> serving\<^sup>*\<^sup>* l l'"

section \<open>The invariant\<close>

definition life_inv :: "lifecycle \<Rightarrow> bool" where
  "life_inv l \<longleftrightarrow>
     (lc_listening l \<longleftrightarrow> lc_main l \<in> {Preparing, Selecting, Woken}) \<and>
     (lc_main l \<in> {Preparing, Selecting} \<longrightarrow> lc_asked l = lc_senders l + lc_dropped l) \<and>
     lc_dropped l + lc_senders l \<le> lc_asked l \<and>
     (lc_done l \<longrightarrow> lc_main l \<in> {Draining, Returned}) \<and>
     (lc_main l = Returned \<longrightarrow> \<not> lc_pidfile l)"

lemma life_inv_step: "serving l l' \<Longrightarrow> life_inv l \<Longrightarrow> life_inv l'"
  by (induction rule: serving.induct)
    (auto simp: life_inv_def ask_shutdown_def try_send_def close_listener_def return_from_run_def Let_def)

lemma life_inv_start: "RunServer_start pf listen pid cfg s = (Inr (services, l), s') \<Longrightarrow> life_inv l"
  by (auto simp: RunServer_start_def life_inv_def split: prod.splits option.splits)

lemma life_inv_runs: "runs l l' \<Longrightarrow> life_inv l \<Longrightarrow> life_inv l'"
  unfolding runs_def by (induction rule: rtranclp_induct) (auto intro: life_inv_step)

text \<open>The main goroutine only goes forward: once it has been woken it never waits again.\<close>

lemma phase_grows: "serving l l' \<Longrightarrow> lc_main l \<le> lc_main l'"
  by (induction rule: serving.induct)
    (auto simp: less_eq_main_state_def ask_shutdown_def try_send_def close_listener_def return_from_run_def Let_def)

lemma phase_grows_runs: "runs l l' \<Longrightarrow> lc_main l \<le> lc_main l'"
  unfolding runs_def by (induction rule: rtranclp_induct) (use phase_grows order_trans in blast)+

lemma woken_iff: "lc_main l \<notin> {Preparing, Selecting} \<longleftrightarrow> Woken \<le> lc_main l"
  by (cases "lc_main l") (simp_all add: less_eq_main_state_def)

text \<open>Without an acceptor no connection is added.\<close>

lemma deaf_step: "serving l l' \<Longrightarrow> lc_acceptor l = Gone \<Longrightarrow> lc_acceptor l' = Gone \<and> lc_open l' \<le> lc_open l"
  by (induction rule: serving.induct)
    (auto simp: ask_shutdown_def try_send_def close_listener_def return_from_run_def Let_def)

lemma deaf_runs: "runs l l' \<Longrightarrow> lc_acceptor l = Gone \<Longrightarrow> lc_acceptor l' = Gone \<and> lc_open l' \<le> lc_open l"
  unfolding runs_def by (induction rule: rtranclp_induct) (use deaf_step in \<open>auto intro: le_trans\<close>)

section \<open>Runs\<close>

lemma runs_refl [simp]: "runs l l" by (simp add: runs_def)

lemma runs_step: "serving l l1 \<Longrightarrow> runs l1 l' \<Longrightarrow> runs l l'"
  unfolding runs_def by (rule converse_rtranclp_into_rtranclp)

lemma runs_then: "runs l l1 \<Longrightarrow> runs l1 l' \<Longrightarrow> runs l l'"
  unfolding runs_def by (rule rtranclp_trans)

text \<open>A server that was woken can always be driven to its end, whatever its connections do.\<close>

lemma woken_ends: "lc_main l \<notin> {Preparing, Selecting} \<Longrightarrow> \<exists>l'. runs l l' \<and> lc_main l' = Returned"
proof -
  assume w: "lc_main l \<notin> {Preparing, Selecting}"
  have d: "\<exists>l'. runs l l' \<and> lc_main l' = Returned" if "lc_main l = Draining" for l
    using runs_step [OF timeout [OF that]] by (metis return_from_run_def runs_refl lifecycle.simps lifecycle.update_convs lifecycle.surjective)
  show ?thesis
  proof (cases "lc_main l")
    case Woken
    have "lc_main (close_listener l) = Draining" by (simp add: close_listener_def)
    then show ?thesis using d [of "close_listener l"] runs_step [OF closes [OF Woken]] by blast
  next
    case Returned
    then show ?thesis by (intro exI [of _ l]) simp
  qed (use w d in auto)
qed


lemma server_starts: "listen (cf_Bind cfg) = None \<Longrightarrow> \<exists>services b s'. RunServer_start pf listen pid cfg s =
    (Inr (services, \<lparr>lc_main = Preparing, lc_listening = True, lc_acceptor = Accepting, lc_open = 0, lc_senders = 0,
       lc_signalled = False, lc_done = False, lc_pidfile = b, lc_asked = 0, lc_dropped = 0\<rparr>), s')"
  by (simp add: RunServer_start_def split: prod.split)

lemma started_state: "RunServer_start pf listen pid cfg s = (Inr (services, l0), s') \<Longrightarrow> \<exists>b. l0 =
    \<lparr>lc_main = Preparing, lc_listening = True, lc_acceptor = Accepting, lc_open = 0, lc_senders = 0,
     lc_signalled = False, lc_done = False, lc_pidfile = b, lc_asked = 0, lc_dropped = 0\<rparr>"
  by (auto simp: RunServer_start_def split: prod.splits option.splits)

lemma five_steps:
  "serving l l1 \<Longrightarrow> serving l1 l2 \<Longrightarrow> serving l2 l3 \<Longrightarrow> serving l3 l4 \<Longrightarrow> serving l4 l5 \<Longrightarrow> runs l l5"
  by (meson runs_refl runs_step)


text \<open>
  A shutdown request can be answered and lost: its goroutine sends before the main goroutine waits
  and takes the default branch, and the server waits on as if it had never been asked.
\<close>

theorem shutdown_lost:
  assumes "RunServer_start pf listen pid cfg s = (Inr (services, l0), s')"
  shows "\<exists>l. runs l0 l \<and> lc_asked l = 1 \<and> lc_senders l = 0 \<and> lc_open l = 0 \<and> lc_main l = Selecting \<and> lc_listening l \<and> \<not> lc_signalled l"
proof -
  obtain b where l0: "l0 = \<lparr>lc_main = Preparing, lc_listening = True, lc_acceptor = Accepting, lc_open = 0, lc_senders = 0,
       lc_signalled = False, lc_done = False, lc_pidfile = b, lc_asked = 0, lc_dropped = 0\<rparr>"
    using started_state [OF assms] by blast
  define lost where "lost = l0\<lparr>lc_open := 1, lc_asked := 1, lc_dropped := 1\<rparr>"
  have "runs l0 (lost\<lparr>lc_open := 0\<rparr>)"
    by (rule five_steps [of l0 "l0\<lparr>lc_acceptor := Holding\<rparr>" "l0\<lparr>lc_open := 1\<rparr>"
          "l0\<lparr>lc_open := 1, lc_senders := 1, lc_asked := 1\<rparr>" lost])
      (simp_all add: serving_iff l0 lost_def ask_shutdown_def try_send_def)
  moreover have "serving (lost\<lparr>lc_open := 0\<rparr>) (lost\<lparr>lc_open := 0, lc_main := Selecting\<rparr>)"
    by (simp add: serving_iff lost_def l0)
  ultimately have "runs l0 (lost\<lparr>lc_open := 0, lc_main := Selecting\<rparr>)" by (meson runs_then runs_step runs_refl)
  then show ?thesis by (intro exI [of _ "lost\<lparr>lc_open := 0, lc_main := Selecting\<rparr>"]) (simp add: lost_def l0)
qed

theorem shutdown_lost_witness:
  "\<forall>pf cfg s. \<exists>services l0 s' l. RunServer_start pf (\<lambda>_. None) 4711 cfg s = (Inr (services, l0), s') \<and>
     runs l0 l \<and> lc_asked l = 1 \<and> lc_main l = Selecting"
proof (intro allI, goal_cases)
  case (1 pf cfg s)
  obtain services l0 s' where l0: "RunServer_start pf (\<lambda>_. None) 4711 cfg s = (Inr (services, l0), s')"
    using server_starts [of "\<lambda>_. None" cfg] by blast
  then show ?case using shutdown_lost [OF l0] by blast
qed

text \<open>
  An error of Accept ends the goroutine that accepts, while the server listens and waits on: it takes
  no connection any more.
\<close>

theorem server_deaf:
  assumes "RunServer_start pf listen pid cfg s = (Inr (services, l0), s')"
  shows "\<exists>l. runs l0 l \<and> lc_main l = Selecting \<and> lc_listening l \<and> (\<forall>l'. runs l l' \<longrightarrow> lc_open l' = 0)"
proof -
  obtain b where l0: "l0 = \<lparr>lc_main = Preparing, lc_listening = True, lc_acceptor = Accepting, lc_open = 0, lc_senders = 0,
       lc_signalled = False, lc_done = False, lc_pidfile = b, lc_asked = 0, lc_dropped = 0\<rparr>"
    using started_state [OF assms] by blast
  define l where "l = l0\<lparr>lc_acceptor := Gone, lc_main := Selecting\<rparr>"
  have "serving l0 (l0\<lparr>lc_acceptor := Gone\<rparr>)" "serving (l0\<lparr>lc_acceptor := Gone\<rparr>) l"
    by (simp_all add: serving_iff l0 l_def)
  then have "runs l0 l" by (meson runs_step runs_refl)
  then show ?thesis using deaf_runs [of l] by (intro exI [of _ l]) (auto simp: l_def l0)
qed

section \<open>What a client is told\<close>

lemma over_server_Inr: "h method params = Inr v \<Longrightarrow> over_server h method params = Inr (Some v)"
  by (simp add: over_server_def handleRequest_def request_message_def no_message_def response_of_def call_result_def)

lemma handshake_accepted: "fst (handleInitialize (Some handshake) h) = Inr initialize_response"
  by (simp add: handleInitialize_def handshake_def invalid_params_def unmarshal_def dec_InitializeRequest_def dec_struct_def
      set_field_def dec_ClientCapabilities_def dec_int_JInt map_error_def result_bind_def to_upper_def upper_char_def ProtocolVersion_def)

text \<open>
  The status that \<open>kontekst ps\<close> asks for is the server's own: through the handshake, the
  encoding, the connection and the decoding, the client gets the address, the data directory, the
  start and the uptime as the server has them; and its shutdown request succeeds.
\<close>

theorem status_end_to_end:
  "cl_Status (over_server (daemon uptime started cfg (Dispatch prompt fresh skills) h)) = Inr (server_status uptime started cfg)"
  "cl_Shutdown (over_server (daemon uptime started cfg (Dispatch prompt fresh skills) h)) = Inr ()"
proof -
  define D where "D = daemon uptime started cfg (Dispatch prompt fresh skills) h"
  have "D ''initialize'' (Some handshake) = Inr initialize_response"
    using handshake_accepted [of h] by (simp add: D_def daemon_def connection_dispatch_def Dispatch_def split_beta)
  then have i: "over_server D ''initialize'' (Some handshake) = Inr (Some initialize_response)" by (rule over_server_Inr)
  have s: "over_server D ''_kontekst/status'' None = Inr (Some (enc_StatusResponse (server_status uptime started cfg)))"
    by (rule over_server_Inr) (simp add: D_def daemon_def connection_dispatch_def)
  have q: "over_server D ''_kontekst/shutdown'' None = Inr (Some (JObj [(''message'', JStr ''shutting down'')]))"
    by (rule over_server_Inr) (simp add: D_def daemon_def connection_dispatch_def)
  have "dec_StatusResponse \<lparr>st_Bind = [], st_Uptime = [], st_StartedAt = [], st_DataDir = []\<rparr> (enc_StatusResponse r) = Inr r" for r
    by (cases r) (simp add: dec_StatusResponse_def enc_StatusResponse_def dec_struct_def set_field_def to_upper_def upper_char_def)
  then show "cl_Status (over_server (daemon uptime started cfg (Dispatch prompt fresh skills) h)) = Inr (server_status uptime started cfg)"
    using i s unfolding D_def [symmetric] by (simp add: cl_Status_def unmarshal_def map_error_def result_bind_def)
  show "cl_Shutdown (over_server (daemon uptime started cfg (Dispatch prompt fresh skills) h)) = Inr ()"
    using i q unfolding D_def [symmetric] by (simp add: cl_Shutdown_def map_error_def result_bind_def)
qed

end
