(* ===== verification/Cli.thy ===== *)
theory Cli
  imports Terminal AppServer
begin

text \<open>
  The commands of internal/cli: app.go and root.go (configuration, the address of the server, the active
  session, starting the daemon), run.go (a prompt), init.go (AGENTS.md), serve.go, ps.go, stop.go, the
  lists of sessions and agents. A connection to the server is a \<open>peer\<close>: a method and its parameters give
  an answer and a new state of both sides, which holds what the callbacks of the client change. What
  the command parser, the processes and the terminal library do is a parameter.
\<close>

section \<open>app.go and root.go\<close>

text \<open>The home directory and the TOML library.\<close>

record config_env =
  ce_home :: string
  ce_marshal :: "Config \<Rightarrow> string result"
  ce_decode :: "string \<Rightarrow> Config \<Rightarrow> Config result"

record App =
  ap_Config :: Config
  ap_ConfigPath :: string
  ap_ServerAddr :: string

definition loadConfig :: "config_env \<Rightarrow> string \<Rightarrow> fs \<Rightarrow> Config result \<times> fs" where
  "loadConfig ce path s =
     (let config_path = (if path = [] then path_join [cf_DataDir (Default (ce_home ce)), ''config.toml''] else path)
      in LoadOrCreate (ce_home ce) (ce_marshal ce) (ce_decode ce) config_path s)"

text \<open>\<open>net.SplitHostPort\<close>.\<close>

abbreviation colon :: char where "colon \<equiv> CHR '':''"

definition addr_error :: "string \<Rightarrow> string \<Rightarrow> go_error" where
  "addr_error addr why = Errorf ''address %s: %s'' [AStr addr, AStr why]"

definition before_last_colon :: "string \<Rightarrow> string" where
  "before_last_colon s = butlast (rev (dropWhile (\<lambda>c. c \<noteq> colon) (rev s)))"

definition after_last_colon :: "string \<Rightarrow> string" where
  "after_last_colon s = rev (takeWhile (\<lambda>c. c \<noteq> colon) (rev s))"

text \<open>The host, and what of the text must not hold an opening and a closing bracket.\<close>

definition split_bracketed :: "string \<Rightarrow> (string \<times> string \<times> string) result" where
  "split_bracketed hostport =
     (let inside = takeWhile (\<lambda>c. c \<noteq> CHR '']'') (drop 1 hostport); after = drop (length inside + 2) hostport
      in if CHR '']'' \<notin> set hostport then Inl (addr_error hostport ''missing ']' in address'')
         else if after = [] then Inl (addr_error hostport ''missing port in address'')
         else if hd after \<noteq> colon then Inl (addr_error hostport ''missing port in address'')
         else if colon \<in> set (tl after) then Inl (addr_error hostport ''too many colons in address'')
         else Inr (inside, drop 1 hostport, after))"

definition net_SplitHostPort :: "string \<Rightarrow> (string \<times> string) result" where
  "net_SplitHostPort hostport =
     (if colon \<notin> set hostport then Inl (addr_error hostport ''missing port in address'')
      else result_bind
        (if hd hostport = CHR ''['' then split_bracketed hostport
         else let host = before_last_colon hostport
              in if colon \<in> set host then Inl (addr_error hostport ''too many colons in address'')
                 else Inr (host, hostport, hostport)) (\<lambda>(host, r1, r2).
        if CHR ''['' \<in> set r1 then Inl (addr_error hostport ''unexpected '[' in address'')
        else if CHR '']'' \<in> set r2 then Inl (addr_error hostport ''unexpected ']' in address'')
        else Inr (host, after_last_colon hostport)))"

definition netSplitHostPort :: "string \<Rightarrow> (string \<times> string) result" where
  "netSplitHostPort addr =
     (if has_prefix addr '':'' then Inr ([], trim_prefix addr '':'') else net_SplitHostPort addr)"

definition clientAddrFromBind :: "string \<Rightarrow> string" where
  "clientAddrFromBind bind =
     (case netSplitHostPort bind of
        Inl _ \<Rightarrow> bind
      | Inr (host, port) \<Rightarrow>
          if port = [] then bind
          else if host = [] \<or> host = ''0.0.0.0'' \<or> host = ''::'' then ''127.0.0.1:'' @ port
          else bind)"

definition resolveServer :: "string \<Rightarrow> Config \<Rightarrow> string" where
  "resolveServer override cfg = (if override \<noteq> [] then override else clientAddrFromBind (cf_Bind cfg))"

definition newApp :: "config_env \<Rightarrow> string \<Rightarrow> string \<Rightarrow> fs \<Rightarrow> App result \<times> fs" where
  "newApp ce config_path serverOverride s =
     (case loadConfig ce config_path s of
        (Inl err, s1) \<Rightarrow> (Inl (Errorf ''load config: %w'' [AErr err]), s1)
      | (Inr cfg, s1) \<Rightarrow>
          (Inr \<lparr>ap_Config = cfg, ap_ConfigPath = config_path, ap_ServerAddr = resolveServer serverOverride cfg\<rparr>, s1))"

definition alreadyRunning :: "(int \<Rightarrow> bool) \<Rightarrow> string \<Rightarrow> fs \<Rightarrow> bool" where
  "alreadyRunning alive dataDir s \<longleftrightarrow> ReadPID alive (path_join [dataDir, ''server.pid'']) s \<noteq> 0"

definition active_path :: "string \<Rightarrow> string" where
  "active_path dataDir = path_join [dataDir, ''active_session'']"

definition loadActiveSession :: "string \<Rightarrow> fs \<Rightarrow> string" where
  "loadActiveSession dataDir s = (case os_ReadFile s (active_path dataDir) of Inl _ \<Rightarrow> [] | Inr data \<Rightarrow> trim_space data)"

definition saveActiveSession :: "string \<Rightarrow> string \<Rightarrow> fs \<Rightarrow> unit result \<times> fs" where
  "saveActiveSession dataDir sessionID s =
     (if sessionID = [] then (Inr (), s)
      else case os_MkdirAll s dataDir of
        (Inl err, s1) \<Rightarrow> (Inl (Errorf ''save active session: mkdir: %w'' [AErr err]), s1)
      | (Inr _, s1) \<Rightarrow>
          (case os_WriteFile s1 (active_path dataDir) sessionID of
             Inl err \<Rightarrow> (Inl (Errorf ''save active session: %w'' [AErr err]), s1)
           | Inr s2 \<Rightarrow> (Inr (), s2)))"

definition printServerNotRunning :: "string \<Rightarrow> go_error option \<Rightarrow> terminal \<Rightarrow> terminal" where
  "printServerNotRunning addr err t =
     (let t1 = println ''start with: kontekst serve'' (println (''server is not running at '' @ addr) t)
      in case err of None \<Rightarrow> t1 | Some e \<Rightarrow> println (error_text e) t1)"

text \<open>The processes: which are alive, how one is run to its end, and how one is started, with its number.\<close>

record processes =
  pr_alive :: "int \<Rightarrow> bool"
  pr_run :: "string list \<Rightarrow> unit result"
  pr_start :: "string list \<Rightarrow> int result"

definition serve_args :: "string \<Rightarrow> string list" where
  "serve_args config_path = [''serve'', ''--foreground''] @ (if config_path \<noteq> [] then [''--config'', config_path] else [])"

definition startServer :: "processes \<Rightarrow> Config \<Rightarrow> string \<Rightarrow> bool \<Rightarrow> terminal \<Rightarrow> fs \<Rightarrow> unit result \<times> terminal \<times> fs" where
  "startServer pr cfg config_path foreground t s =
     (if alreadyRunning (pr_alive pr) (cf_DataDir cfg) s
      then (Inr (), println (''server already running at '' @ resolveServer [] cfg) t, s)
      else if foreground then (pr_run pr (serve_args config_path), t, s)
      else case os_MkdirAll s (cf_DataDir cfg) of
        (Inl err, s1) \<Rightarrow> (Inl (Errorf ''start server: create data dir: %w'' [AErr err]), t, s1)
      | (Inr _, s1) \<Rightarrow>
          (case os_AppendFile s1 (path_join [cf_DataDir cfg, ''server.log'']) [] of
             Inl err \<Rightarrow> (Inl (Errorf ''start server: open log: %w'' [AErr err]), t, s1)
           | Inr s2 \<Rightarrow>
               (case pr_start pr (serve_args config_path) of
                  Inl err \<Rightarrow> (Inl (Errorf ''start server: %w'' [AErr err]), t, s2)
                | Inr pid \<Rightarrow> (Inr (), println (''started server '' @ sprintf ''pid %d'' [itoa pid]) t, s2))))"

section \<open>The methods over a peer\<close>

type_synonym 'w peer = "string \<Rightarrow> json option \<Rightarrow> 'w \<Rightarrow> json option result \<times> 'w"

definition remote :: "'w peer \<Rightarrow> string \<Rightarrow> (server \<Rightarrow> json \<Rightarrow> 'r result) \<Rightarrow> json \<Rightarrow> 'w \<Rightarrow> 'r result \<times> 'w" where
  "remote peer method call req w = (case peer method (Some req) w of (answer, w') \<Rightarrow> (call (\<lambda>_ _. answer) req, w'))"

definition cli_hello :: json where
  "cli_hello =
     JObj [(''protocolVersion'', JInt ProtocolVersion), (''clientCapabilities'', JObj []),
           (''clientInfo'', JObj [(''name'', JStr ''kontekst-cli'')])]"

definition enc_LoadSessionRequest :: "string \<Rightarrow> string \<Rightarrow> json" where
  "enc_LoadSessionRequest sessionID cwd =
     JObj [(''sessionId'', JStr sessionID), (''cwd'', JStr cwd), (''mcpServers'', JArr [])]"

definition enc_NewSessionRequest :: "string \<Rightarrow> string \<Rightarrow> json" where
  "enc_NewSessionRequest cwd agentName =
     JObj [(''cwd'', JStr cwd), (''mcpServers'', JArr []), (''_meta'', JObj [(''agentName'', JStr agentName)])]"

definition enc_PromptRequest :: "string \<Rightarrow> string \<Rightarrow> json" where
  "enc_PromptRequest sessionID prompt =
     JObj [(''sessionId'', JStr sessionID), (''prompt'', JArr [enc_ContentBlock (TextBlock prompt)])]"

section \<open>run.go\<close>

definition chosen_session :: "string \<Rightarrow> string \<Rightarrow> fs \<Rightarrow> string" where
  "chosen_session sessionOverride dataDir s =
     (let sessionID = trim_space sessionOverride in if sessionID = [] then loadActiveSession dataDir s else sessionID)"

definition chosen_agent :: "(string \<Rightarrow> json result) \<Rightarrow> string \<Rightarrow> string \<Rightarrow> string \<Rightarrow> fs \<Rightarrow> string" where
  "chosen_agent parse dataDir agentFlag sessionID s =
     (let agentName =
        (if agentFlag = [] \<and> sessionID \<noteq> []
         then (case GetDefaultAgent parse dataDir sessionID s of Inl _ \<Rightarrow> [] | Inr defaultAgent \<Rightarrow> defaultAgent)
         else agentFlag)
      in if agentName = [] then Defaults.DefaultAgentName else agentName)"

text \<open>The session of a run: the chosen one is loaded; where that fails, or there is none, a new one is made.\<close>

definition open_remote_session :: "'w peer \<Rightarrow> string \<Rightarrow> string \<Rightarrow> string \<Rightarrow> 'w \<Rightarrow> string result \<times> 'w" where
  "open_remote_session peer workingDir sessionID agentName w =
     (let (sid, w1) =
        (if sessionID \<noteq> []
         then (case remote peer ''session/load'' cl_LoadSession (enc_LoadSessionRequest sessionID workingDir) w of
                 (Inl _, w1) \<Rightarrow> ([], w1) | (Inr sid, w1) \<Rightarrow> (sid, w1))
         else ([], w))
      in if sid \<noteq> [] then (Inr sid, w1)
         else (case remote peer ''session/new'' cl_NewSession (enc_NewSessionRequest workingDir agentName) w1 of
                 (Inl err, w2) \<Rightarrow> (Inl (Errorf ''new session: %w'' [AErr err]), w2)
               | (Inr sid, w2) \<Rightarrow> (Inr sid, w2)))"

definition print_outcome :: "string \<Rightarrow> terminal \<Rightarrow> terminal" where
  "print_outcome stopReason t =
     (if stopReason = StopReasonEndTurn then print (nl # ''run completed'' @ [nl]) t
      else if stopReason = StopReasonCancelled then println ''cancelled'' t
      else println (''stopped: '' @ stopReason) t)"

text \<open>What follows the handshake: the session, the prompt, the summary and the outcome. \<open>'v\<close> is the server's side.\<close>

definition run_prompt ::
  "('v \<times> terminal) peer \<Rightarrow> string \<Rightarrow> string \<Rightarrow> string \<Rightarrow> string \<Rightarrow> string \<Rightarrow> 'v \<times> terminal \<Rightarrow> fs \<Rightarrow>
     unit result \<times> ('v \<times> terminal) \<times> fs" where
  "run_prompt peer dataDir workingDir sessionID agentName prompt w s =
     (case open_remote_session peer workingDir sessionID agentName w of
        (Inl err, w1) \<Rightarrow> (Inl err, w1, s)
      | (Inr sid, w1) \<Rightarrow>
          let s1 = snd (saveActiveSession dataDir sid s)
          in (case remote peer ''session/prompt'' cl_Prompt (enc_PromptRequest sid prompt) w1 of
                (Inl err, (v2, t2)) \<Rightarrow> (Inr (), (v2, println (styledError ''prompt failed'' [error_text err]) t2), s1)
              | (Inr stopReason, (v2, t2)) \<Rightarrow>
                  let t3 = (case tm_snapshot t2 of None \<Rightarrow> t2 | Some snap \<Rightarrow> printContextSnapshot snap (print [nl] t2))
                  in (Inr (), (v2, print_outcome stopReason t3), s1)))"

text \<open>
  The flags of a run. \<open>dial\<close> is the error of the connection, if there is one; \<open>peer\<close> the connection with
  the callbacks \<open>run_callbacks\<close> on the terminal.
\<close>

record run_flags =
  rf_config :: string
  rf_server :: string
  rf_autoApprove :: bool
  rf_session :: string
  rf_agent :: string

definition runCmd ::
  "config_env \<Rightarrow> (string \<Rightarrow> json result) \<Rightarrow> (string \<Rightarrow> go_error option) \<Rightarrow> ('v \<times> terminal) peer \<Rightarrow> string \<Rightarrow> run_flags \<Rightarrow>
     string list \<Rightarrow> 'v \<times> terminal \<Rightarrow> fs \<Rightarrow> unit result \<times> ('v \<times> terminal) \<times> fs" where
  "runCmd ce parse dial peer workingDir flags args w s =
     (case newApp ce (rf_config flags) (rf_server flags) s of
        (Inl err, s1) \<Rightarrow> (Inl err, w, s1)
      | (Inr app, s1) \<Rightarrow>
          let dataDir = cf_DataDir (ap_Config app); prompt = trim_space (join '' '' args)
          in if prompt = [] then (Inl (Errorf ''prompt is required'' []), w, s1)
             else
               let sessionID = chosen_session (rf_session flags) dataDir s1;
                   agentName = chosen_agent parse dataDir (rf_agent flags) sessionID s1
               in (case dial (ap_ServerAddr app) of
                     Some err \<Rightarrow> (Inl err, (fst w, printServerNotRunning (ap_ServerAddr app) (Some err) (snd w)), s1)
                   | None \<Rightarrow>
                       (case remote peer ''initialize'' cl_Initialize cli_hello w of
                          (Inl err, w1) \<Rightarrow> (Inl (Errorf ''initialize: %w'' [AErr err]), w1, s1)
                        | (Inr _, w1) \<Rightarrow> run_prompt peer dataDir workingDir sessionID agentName prompt w1 s1)))"

section \<open>init.go\<close>

abbreviation agentsMDFile :: string where "agentsMDFile \<equiv> ''AGENTS.md''"

text \<open>The text collected, and what is printed meanwhile.\<close>

record collected =
  co_output :: string
  co_printed :: string

definition init_update :: "(json \<Rightarrow> string) \<Rightarrow> SessionUpdate \<Rightarrow> collected \<Rightarrow> collected" where
  "init_update marshal notif c =
     (case json_obj (su_Update notif) of None \<Rightarrow> c
      | Some m \<Rightarrow>
          let updateType = str_or_empty (json_str (map_of m ''sessionUpdate''))
          in if updateType = ''agent_message_chunk''
             then (case chunk_text m of None \<Rightarrow> c | Some text \<Rightarrow> c\<lparr>co_output := co_output c @ text\<rparr>)
             else if updateType = ''tool_call''
             then c\<lparr>co_printed := co_printed c @
                      sprintf (''  tool: %s(%s)'' @ [nl]) [str_or_empty (json_str (map_of m ''title'')), marshal (raw_input m)]\<rparr>
             else c)"

definition allowedTools :: "string list" where
  "allowedTools = [''read_file'', ''list_files'']"

definition init_permission :: "RequestPermissionRequest \<Rightarrow> 'w \<Rightarrow> PermissionOutcome \<times> 'w" where
  "init_permission req w =
     (let toolName = str_or_empty (tcd_Title (rp_ToolCall req))
      in (PermissionSelected (if toolName \<in> set allowedTools then ''allow'' else ''reject''), w))"

definition init_callbacks :: "(json \<Rightarrow> string) \<Rightarrow> collected ClientCallbacks" where
  "init_callbacks marshal =
     \<lparr>on_Update = Some (init_update marshal), on_Permission = Some init_permission, on_ContextSnapshot = None\<rparr>"

text \<open>At most ten attempts; \<open>dial i\<close> is the error of the attempt \<open>i\<close>. The error of the last one is what is left.\<close>

fun dial_attempts :: "(nat \<Rightarrow> go_error option) \<Rightarrow> nat \<Rightarrow> nat \<Rightarrow> go_error option" where
  "dial_attempts dial i 0 = None"
| "dial_attempts dial i (Suc n) =
     (case dial i of None \<Rightarrow> None | Some err \<Rightarrow> if n = 0 then Some err else dial_attempts dial (Suc i) n)"

definition init_prompt :: string where
  "init_prompt = ''Analyze this project and generate an AGENTS.md file.''"

text \<open>From the connection on: the text that the agent gave, and the server's side.\<close>

definition announce :: "'v \<times> collected \<Rightarrow> 'v \<times> collected" where
  "announce w = (fst w, (snd w)\<lparr>co_printed := co_printed (snd w) @ ''analyzing project...'' @ [nl]\<rparr>)"

definition init_run :: "('v \<times> collected) peer \<Rightarrow> string \<Rightarrow> 'v \<Rightarrow> string result \<times> 'v \<times> collected" where
  "init_run peer workingDir v =
     (case remote peer ''initialize'' cl_Initialize cli_hello (v, \<lparr>co_output = [], co_printed = []\<rparr>) of
        (Inl err, w1) \<Rightarrow> (Inl (Errorf ''initialize: %w'' [AErr err]), w1)
      | (Inr _, w1) \<Rightarrow>
          (case remote peer ''session/new'' cl_NewSession (enc_NewSessionRequest workingDir InitAgentName) w1 of
             (Inl err, w2) \<Rightarrow> (Inl (Errorf ''new session: %w'' [AErr err]), w2)
           | (Inr sid, w2) \<Rightarrow>
               (case remote peer ''session/prompt'' cl_Prompt (enc_PromptRequest sid init_prompt) (announce w2) of
                  (Inl err, w3) \<Rightarrow> (Inl (Errorf ''prompt: %w'' [AErr err]), w3)
                | (Inr stopReason, w3) \<Rightarrow>
                    if stopReason \<noteq> StopReasonEndTurn then (Inl (Errorf ''agent stopped unexpectedly: %s'' [AStr stopReason]), w3)
                    else
                      let content = trim_space (co_output (snd w3))
                      in if content = [] then (Inl (Errorf ''agent produced no output'' []), w3) else (Inr content, w3))))"

definition runInitCmd ::
  "config_env \<Rightarrow> processes \<Rightarrow> (string \<Rightarrow> nat \<Rightarrow> go_error option) \<Rightarrow> ('v \<times> collected) peer \<Rightarrow> string \<Rightarrow> string \<Rightarrow> string \<Rightarrow>
     'v \<Rightarrow> terminal \<Rightarrow> fs \<Rightarrow> unit result \<times> 'v \<times> terminal \<times> fs" where
  "runInitCmd ce pr dial peer workingDir configFlag serverFlag v t s =
     (case os_Stat s agentsMDFile of
        Inr _ \<Rightarrow> (Inl (Errorf ''%s already exists; remove it first to regenerate'' [AStr agentsMDFile]), v, t, s)
      | Inl _ \<Rightarrow>
          (case newApp ce configFlag serverFlag s of
             (Inl err, s1) \<Rightarrow> (Inl err, v, t, s1)
           | (Inr app, s1) \<Rightarrow>
               (case (if alreadyRunning (pr_alive pr) (cf_DataDir (ap_Config app)) s1 then (Inr (), t, s1)
                      else startServer pr (ap_Config app) (ap_ConfigPath app) False t s1) of
                  (Inl err, t1, s2) \<Rightarrow> (Inl (Errorf ''auto-start server: %w'' [AErr err]), v, t1, s2)
                | (Inr _, t1, s2) \<Rightarrow>
                    (case dial_attempts (dial (ap_ServerAddr app)) 0 10 of
                       Some err \<Rightarrow> (Inl (Errorf ''connect to server at %s: %w'' [AStr (ap_ServerAddr app), AErr err]), v, t1, s2)
                     | None \<Rightarrow>
                         (case init_run peer workingDir v of
                            (Inl err, (v1, c)) \<Rightarrow> (Inl err, v1, print (co_printed c) t1, s2)
                          | (Inr content, (v1, c)) \<Rightarrow>
                              let t2 = print (co_printed c) t1
                              in (case os_WriteFile s2 agentsMDFile (content @ [nl]) of
                                    Inl err \<Rightarrow> (Inl (Errorf ''write %s: %w'' [AStr agentsMDFile, AErr err]), v1, t2, s2)
                                  | Inr s3 \<Rightarrow>
                                      (Inr (), v1,
                                       print (sprintf (''wrote %s (%d bytes)'' @ [nl]) [agentsMDFile, itoa (int (length content) + 1)]) t2,
                                       s3)))))))"


section \<open>serve.go\<close>

text \<open>The platform of the server and of the programs it is started with.\<close>

definition llama_args :: "int \<Rightarrow> string \<Rightarrow> string list" where
  "llama_args ctxSize modelDir =
     [''--host'', ''127.0.0.1'', ''--port'', ''8080'', ''--ctx-size'', itoa ctxSize, ''--n-gpu-layers'', ''99'',
      ''--models-dir'', modelDir, ''--reasoning-format'', ''deepseek'']"

definition llama_context :: "platform \<Rightarrow> string \<Rightarrow> fs \<Rightarrow> int \<times> fs" where
  "llama_context pf home s =
     (case MaxAgentContextSize pf (cf_DataDir (Default home)) s of
        (ctxSize, s1) \<Rightarrow> (if ctxSize = 0 then FallbackContextSize else ctxSize, s1))"

text \<open>\<open>start\<close> starts a program with arguments.\<close>

definition startLlamaServer ::
  "platform \<Rightarrow> string \<Rightarrow> (string \<Rightarrow> string list \<Rightarrow> int result) \<Rightarrow> string \<Rightarrow> terminal \<Rightarrow> fs \<Rightarrow> terminal \<times> fs" where
  "startLlamaServer pf home start binPath t s =
     (case llama_context pf home s of (ctxSize, s1) \<Rightarrow>
        (case start binPath (llama_args ctxSize (path_join [home, ''models''])) of
           Inl err \<Rightarrow> (println (''llama-server not started: '' @ error_text err) t, s1)
         | Inr pid \<Rightarrow> (println (''started llama-server '' @ sprintf ''pid %d'' [itoa pid]) t, s1)))"

record serve_flags =
  sf_config :: string
  sf_server :: string
  sf_stdio :: bool
  sf_foreground :: bool
  sf_bind :: string
  sf_llamaBin :: string

text \<open>What runs then: a handler on the standard streams, the server in this process, or one in another.\<close>

datatype served = OverStdio Services | InForeground Services lifecycle | InBackground

definition runStdio :: "platform \<Rightarrow> (string \<Rightarrow> string) \<Rightarrow> Config \<Rightarrow> fs \<Rightarrow> Services \<times> fs" where
  "runStdio pf env cfg s = NewServices pf (cfg\<lparr>cf_Debug := LoadDebugConfigFromEnv env (cf_Debug cfg)\<rparr>) s"

definition runServeCmd ::
  "config_env \<Rightarrow> platform \<Rightarrow> (string \<Rightarrow> string) \<Rightarrow> processes \<Rightarrow> (string \<Rightarrow> string list \<Rightarrow> int result) \<Rightarrow> (string \<Rightarrow> go_error option) \<Rightarrow> int \<Rightarrow>
     serve_flags \<Rightarrow> terminal \<Rightarrow> fs \<Rightarrow> served result \<times> terminal \<times> fs" where
  "runServeCmd ce pf env pr start listen pid flags t s =
     (case newApp ce (sf_config flags) (sf_server flags) s of
        (Inl err, s1) \<Rightarrow> (Inl err, t, s1)
      | (Inr a, s1) \<Rightarrow>
          let cfg = (if sf_bind flags \<noteq> [] then (ap_Config a)\<lparr>cf_Bind := sf_bind flags\<rparr> else ap_Config a)
          in if sf_stdio flags then (case runStdio pf env cfg s1 of (services, s2) \<Rightarrow> (Inr (OverStdio services), t, s2))
             else (case startLlamaServer pf (ce_home ce) start (sf_llamaBin flags) t s1 of
               (t1, s2) \<Rightarrow>
                 if sf_foreground flags
                 then (case RunServer_start pf listen pid (cfg\<lparr>cf_Debug := LoadDebugConfigFromEnv env (cf_Debug cfg)\<rparr>) s2 of
                         (Inl err, s3) \<Rightarrow> (Inl err, t1, s3)
                       | (Inr (services, l), s3) \<Rightarrow> (Inr (InForeground services l), t1, s3))
                 else (case startServer pr cfg (ap_ConfigPath a) False t1 s2 of
                         (Inl err, t2, s3) \<Rightarrow> (Inl err, t2, s3)
                       | (Inr _, t2, s3) \<Rightarrow> (Inr InBackground, t2, s3))))"

section \<open>ps.go and stop.go\<close>

text \<open>\<open>dial\<close> gives a server to talk to.\<close>

definition addServerRow :: "(int \<Rightarrow> bool) \<Rightarrow> (string \<Rightarrow> server result) \<Rightarrow> string \<Rightarrow> string \<Rightarrow> fs \<Rightarrow> string list" where
  "addServerRow alive dial dataDir serverAddr s =
     (let pid = ReadPID alive (path_join [dataDir, ''server.pid'']) s
      in if pid = 0 then [''kontekst'', ''stopped'', ''-'', serverAddr, ''-'']
         else
           let uptime = (case dial serverAddr of Inl _ \<Rightarrow> []
                 | Inr sv \<Rightarrow> (case cl_Status sv of Inl _ \<Rightarrow> [] | Inr resp \<Rightarrow> st_Uptime resp))
           in [''kontekst'', ''running'', sprintf ''%d'' [itoa pid], serverAddr, (if uptime = [] then ''-'' else uptime)])"

definition addLlamaRow :: "(string \<Rightarrow> string result) \<Rightarrow> (string \<Rightarrow> bool) \<Rightarrow> string list" where
  "addLlamaRow pidof reachable_tcp =
     (let pid = FindProcessPID pidof ''llama-server''; endpoint = ''127.0.0.1:8080''
      in if pid = 0 then [''llama-server'', ''stopped'', ''-'', endpoint, ''-'']
         else [''llama-server'', (if reachable_tcp endpoint then ''running'' else ''starting''), sprintf ''%d'' [itoa pid], endpoint, ''-''])"

definition ps_rows :: "(int \<Rightarrow> bool) \<Rightarrow> (string \<Rightarrow> server result) \<Rightarrow> (string \<Rightarrow> string result) \<Rightarrow> (string \<Rightarrow> bool) \<Rightarrow> App \<Rightarrow> fs \<Rightarrow> string list list" where
  "ps_rows alive dial pidof reachable_tcp a s =
     [[''NAME'', ''STATUS'', ''PID'', ''ENDPOINT'', ''UPTIME''],
      addServerRow alive dial (cf_DataDir (ap_Config a)) (ap_ServerAddr a) s, addLlamaRow pidof reachable_tcp]"

definition stopKontekstServer :: "(string \<Rightarrow> server result) \<Rightarrow> string \<Rightarrow> terminal \<Rightarrow> terminal" where
  "stopKontekstServer dial serverAddr t =
     (case dial serverAddr of
        Inl _ \<Rightarrow> println ''kontekst server not running'' t
      | Inr sv \<Rightarrow>
          (case cl_Shutdown sv of
             Inl err \<Rightarrow> println (''kontekst server: '' @ error_text err) t
           | Inr _ \<Rightarrow> println ''stopped kontekst server'' t))"

text \<open>\<open>pkill\<close> gives its output and whether it failed.\<close>

definition stopLlamaServer :: "string \<times> bool \<Rightarrow> terminal \<Rightarrow> terminal" where
  "stopLlamaServer pkill t =
     (case pkill of (out, failed) \<Rightarrow>
        if failed then println (''llama-server not running '' @ trim_space out) t else println ''stopped llama-server'' t)"

definition stop_command ::
  "config_env \<Rightarrow> (string \<Rightarrow> server result) \<Rightarrow> string \<times> bool \<Rightarrow> string \<Rightarrow> string \<Rightarrow> terminal \<Rightarrow> fs \<Rightarrow> unit result \<times> terminal \<times> fs" where
  "stop_command ce dial pkill configFlag serverFlag t s =
     (case newApp ce configFlag serverFlag s of
        (Inl err, s1) \<Rightarrow> (Inl err, t, s1)
      | (Inr a, s1) \<Rightarrow> (Inr (), stopLlamaServer pkill (stopKontekstServer dial (ap_ServerAddr a) t), s1))"

section \<open>The lists\<close>

text \<open>\<open>table\<close> lays out rows; \<open>now\<close> is the time in nanoseconds.\<close>

definition runSessionsCmd ::
  "config_env \<Rightarrow> (string list list \<Rightarrow> string) \<Rightarrow> (string \<Rightarrow> json result) \<Rightarrow> (string \<Rightarrow> int) \<Rightarrow> int \<Rightarrow> string \<Rightarrow> string \<Rightarrow> terminal \<Rightarrow> fs \<Rightarrow>
     unit result \<times> terminal \<times> fs" where
  "runSessionsCmd ce table parse mtime now configFlag serverFlag t s =
     (case newApp ce configFlag serverFlag s of
        (Inl err, s1) \<Rightarrow> (Inl err, t, s1)
      | (Inr app, s1) \<Rightarrow>
          (case session_List parse mtime (cf_DataDir (ap_Config app)) s1 of
             Inl err \<Rightarrow> (Inl (Errorf ''list sessions: %w'' [AErr err]), t, s1)
           | Inr list \<Rightarrow>
               if list = [] then (Inr (), println ''No sessions found.'' t, s1)
               else (Inr (), println (table (printSessionsTable now list (loadActiveSession (cf_DataDir (ap_Config app)) s1))) t, s1)))"

definition runAgentsCmd ::
  "config_env \<Rightarrow> (string list list \<Rightarrow> string) \<Rightarrow> (string \<Rightarrow> AgentTOML result) \<Rightarrow> string \<Rightarrow> string \<Rightarrow> terminal \<Rightarrow> fs \<Rightarrow>
     unit result \<times> terminal \<times> fs" where
  "runAgentsCmd ce table toml configFlag serverFlag t s =
     (case newApp ce configFlag serverFlag s of
        (Inl err, s1) \<Rightarrow> (Inl err, t, s1)
      | (Inr app, s1) \<Rightarrow>
          (case agent_List toml (NewAgentRegistry (cf_DataDir (ap_Config app))) s1 of
             Inl err \<Rightarrow> (Inl (Errorf ''list agents: %w'' [AErr err]), t, s1)
           | Inr agentList \<Rightarrow>
               if agentList = []
               then (Inr (), println (''Create an agent by adding a directory to '' @ ''~/.kontekst/agents/'') (println ''No agents found.'' t), s1)
               else (Inr (), println (table (printAgentsTable agentList)) t, s1)))"

section \<open>Addresses\<close>

lemma last_colon: "colon \<notin> set port \<Longrightarrow> after_last_colon (host @ colon # port) = port \<and> before_last_colon (host @ colon # port) = host"
proof -
  assume p: "colon \<notin> set port"
  have "colon \<notin> set p \<Longrightarrow> takeWhile (\<lambda>c. c \<noteq> colon) (p @ colon # q) = p \<and> dropWhile (\<lambda>c. c \<noteq> colon) (p @ colon # q) = colon # q" for p q
    by (induction p) auto
  from this [of "rev port" "rev host"] p have "takeWhile (\<lambda>c. c \<noteq> colon) (rev port @ colon # rev host) = rev port"
    "dropWhile (\<lambda>c. c \<noteq> colon) (rev port @ colon # rev host) = colon # rev host"
    by simp_all
  then show ?thesis by (simp add: after_last_colon_def before_last_colon_def)
qed

definition plain_port :: "string \<Rightarrow> bool" where
  "plain_port port \<longleftrightarrow> port \<noteq> [] \<and> list_all is_digit port"

lemma plain_port_chars: "plain_port port \<Longrightarrow> colon \<notin> set port \<and> CHR ''['' \<notin> set port \<and> CHR '']'' \<notin> set port"
  by (auto simp: plain_port_def list_all_iff is_digit_def less_eq_char_def)

text \<open>
  A client dials the address the server is bound to: a server on all interfaces, however that is
  written, is reached on the loopback at the same port, any other host is dialled as it is bound, and
  an address given with \<open>--server\<close> is used as given.
\<close>

theorem dialled_address:
  assumes "plain_port port" and "host \<noteq> []" and "list_all (\<lambda>c. c \<notin> set '':[]'') host"
  shows "clientAddrFromBind (colon # port) = ''127.0.0.1:'' @ port"
    and "clientAddrFromBind (''[::]:'' @ port) = ''127.0.0.1:'' @ port"
    and "clientAddrFromBind (host @ colon # port) = (if host = ''0.0.0.0'' then ''127.0.0.1:'' @ port else host @ colon # port)"
    and "resolveServer (host @ colon # port) cfg = host @ colon # port"
proof -
  note p = plain_port_chars [OF assms(1)]
  have port: "port \<noteq> []" using assms(1) by (simp add: plain_port_def)
  show "clientAddrFromBind (colon # port) = ''127.0.0.1:'' @ port"
    using port by (simp add: clientAddrFromBind_def netSplitHostPort_def has_prefix_def trim_prefix_def)
  have "after_last_colon (''[::]:'' @ port) = port" using last_colon [of port "''[::]''"] p by simp
  then have "net_SplitHostPort (''[::]:'' @ port) = Inr (''::'', port)"
    using p by (simp add: net_SplitHostPort_def split_bracketed_def Let_def result_bind_def)
  then show "clientAddrFromBind (''[::]:'' @ port) = ''127.0.0.1:'' @ port"
    using port by (simp add: clientAddrFromBind_def netSplitHostPort_def has_prefix_def)
  have h: "colon \<notin> set host" "CHR ''['' \<notin> set host" "CHR '']'' \<notin> set host" using assms(3) by (auto simp: list_all_iff)
  have hd: "hd (host @ colon # port) = hd host" "hd host \<noteq> CHR ''['' \<and> hd host \<noteq> colon" using assms(2) h by (cases host; auto)+
  have "net_SplitHostPort (host @ colon # port) = Inr (host, port)"
    using last_colon [of port host] p h hd by (simp add: net_SplitHostPort_def Let_def result_bind_def)
  moreover have "\<not> has_prefix (host @ colon # port) '':''" using hd(2) assms(2) by (cases host) (auto simp: has_prefix_def)
  ultimately show "clientAddrFromBind (host @ colon # port) = (if host = ''0.0.0.0'' then ''127.0.0.1:'' @ port else host @ colon # port)"
    using port assms(2) h by (auto simp: clientAddrFromBind_def netSplitHostPort_def)
  show "resolveServer (host @ colon # port) cfg = host @ colon # port" by (simp add: resolveServer_def)
qed

theorem dialled_address_witness:
  "clientAddrFromBind '':50051'' = ''127.0.0.1:50051'' \<and> clientAddrFromBind ''0.0.0.0:50051'' = ''127.0.0.1:50051'' \<and>
   clientAddrFromBind ''myhost:50051'' = ''myhost:50051''"
proof -
  have p: "plain_port ''50051''" by code_simp
  have h: "list_all (\<lambda>c. c \<notin> set '':[]'') ''0.0.0.0''" "list_all (\<lambda>c. c \<notin> set '':[]'') ''myhost''" by code_simp+
  show ?thesis
    using dialled_address(1) [OF p _ h(1)] dialled_address(3) [OF p _ h(1)] dialled_address(3) [OF p _ h(2)] by simp
qed

section \<open>The active session\<close>

lemma save_then_load:
  assumes "saveActiveSession dataDir sid s = (Inr (), s')" and "sid \<noteq> []" and "fault s ''open'' (active_path dataDir) = None"
  shows "loadActiveSession dataDir s' = trim_space sid"
proof -
  obtain s1 where s1: "os_MkdirAll s dataDir = (Inr (), s1)" "os_WriteFile s1 (active_path dataDir) sid = Inr s'"
    using assms(1,2) by (auto simp: saveActiveSession_def split: sum.splits prod.splits)
  then have "os_ReadFile s' (active_path dataDir) = Inr sid"
    using os_WriteFile_ok [OF s1(2)] os_MkdirAll_faults [OF s1(1)] assms(3) by (simp add: os_ReadFile_def fault_def)
  then show ?thesis by (simp add: loadActiveSession_def)
qed

text \<open>
  The next run continues the session of the last one: after a run on the session \<open>sid\<close>, a run that
  is given no session chooses \<open>sid\<close> again, and one that is given a session chooses that.
\<close>

theorem session_continues:
  assumes "run_prompt peer dataDir workingDir given agentName prompt w s = (Inr (), w', s')"
    and "fst (open_remote_session peer workingDir given agentName w) = Inr sid" and "sid \<noteq> []" and "trim_space sid = sid"
    and "fst (saveActiveSession dataDir sid s) = Inr ()" and "fault s ''open'' (active_path dataDir) = None"
  shows "chosen_session [] dataDir s' = sid" and "trim_space other \<noteq> [] \<Longrightarrow> chosen_session other dataDir s' = trim_space other"
proof -
  have "s' = snd (saveActiveSession dataDir sid s)"
    using assms(1,2) by (auto simp: run_prompt_def Let_def split: prod.splits sum.splits)
  then have "saveActiveSession dataDir sid s = (Inr (), s')" using assms(5) by (metis prod.collapse)
  from save_then_load [OF this assms(3,6)] show "chosen_session [] dataDir s' = sid"
    using assms(4) by (simp add: chosen_session_def trim_space_def)
  show "trim_space other \<noteq> [] \<Longrightarrow> chosen_session other dataDir s' = trim_space other" by (simp add: chosen_session_def Let_def)
qed

definition small_peer :: "('v \<times> terminal) peer" where
  "small_peer method params w =
     (if method = ''session/new'' then (Inr (Some (JObj [(''sessionId'', JStr ''s1'')])), w)
      else if method = ''session/prompt'' then (Inr (Some (JObj [(''stopReason'', JStr ''end_turn'')])), w)
      else (Inl (Errorf ''no such session'' []), w))"

lemma small_session: "open_remote_session small_peer ''/w'' given agentName w = (Inr ''s1'', w)"
proof -
  have "dec_SessionResponse [] (JObj [(''sessionId'', JStr ''s1'')]) = Inr ''s1''" by code_simp
  then show ?thesis
    by (simp add: open_remote_session_def remote_def small_peer_def cl_LoadSession_def cl_NewSession_def call_method_def
        unmarshal_def result_bind_def map_error_def)
qed

theorem session_continues_witness:
  "\<forall>w :: unit \<times> terminal. \<exists>w' s'. run_prompt small_peer ''/d'' ''/w'' ''gone'' ''coder'' ''hello'' w \<lparr>nodes = [(''/d'', DirNode)], faults = []\<rparr> =
     (Inr (), w', s') \<and> chosen_session [] ''/d'' s' = ''s1''"
proof (intro allI, goal_cases)
  case (1 w)
  define s where "s = \<lparr>nodes = [(''/d'', DirNode)], faults = [] :: ((string \<times> string) \<times> go_error) list\<rparr>"
  have d: "dir_chain ''/d'' = [''/d'']" "active_path ''/d'' = ''/d/active_session''" "path_dir ''/d/active_session'' = ''/d''" by code_simp+
  have save: "fst (saveActiveSession ''/d'' ''s1'' s) = Inr ()"
    by (simp add: saveActiveSession_def os_MkdirAll_def d s_def fault_def lookup_def os_WriteFile_def open_write_def is_dir_def)
  have "dec_PromptResponse [] (JObj [(''stopReason'', JStr ''end_turn'')]) = Inr ''end_turn''" by code_simp
  then have ok: "fst (run_prompt small_peer ''/d'' ''/w'' ''gone'' ''coder'' ''hello'' w s) = Inr ()"
    by (cases w) (simp add: run_prompt_def small_session remote_def cl_Prompt_def call_method_def small_peer_def unmarshal_def
        result_bind_def map_error_def Let_def)
  obtain w' s' where r: "run_prompt small_peer ''/d'' ''/w'' ''gone'' ''coder'' ''hello'' w s = (Inr (), w', s')"
    using ok by (metis prod.collapse)
  have "trim_space ''s1'' = ''s1''" by code_simp
  then have "chosen_session [] ''/d'' s' = ''s1''"
    by (intro session_continues(1) [OF r _ _ _ save]) (simp_all add: small_session fault_def s_def)
  then show ?case using r unfolding s_def by blast
qed

section \<open>The agent of a session\<close>

text \<open>The server as the peer: one connection to a handler, and the rest \<open>'u\<close> of the state as it is.\<close>

definition handler_peer ::
  "(json option \<Rightarrow> Handler \<Rightarrow> request list \<Rightarrow> answer \<times> Handler \<times> request list \<times> Command list) \<Rightarrow> string \<Rightarrow> Skill list option \<Rightarrow> (Handler \<times> 'u) peer" where
  "handler_peer prompt fresh skills method params w =
     (case Dispatch prompt fresh skills method params (fst w) [] of
        (r, h', made, cmds) \<Rightarrow>
          (over_server (\<lambda>_ _. case r of None \<Rightarrow> Inl (Errorf ''no answer yet'' []) | Some r \<Rightarrow> r) method params, (h', snd w)))"

lemma load_answer:
  "handler_peer prompt fresh skills ''session/load'' (Some (enc_LoadSessionRequest sid cwd)) (h, u) =
     (Inr (Some (JObj [(''sessionId'', JStr sid)])),
      (sessions_Store \<lparr>ss_agentName = ''default'', ss_sessionID = sid, ss_cwd = cwd, ss_running = False\<rparr> h, u))"
proof -
  have "unmarshal dec_LoadSessionRequest \<lparr>ls_SessionID = [], ls_Cwd = []\<rparr> (Some (enc_LoadSessionRequest sid cwd)) =
      Inr \<lparr>ls_SessionID = sid, ls_Cwd = cwd\<rparr>"
    by (simp add: unmarshal_def dec_LoadSessionRequest_def enc_LoadSessionRequest_def dec_struct_def set_field_def dec_mcpServers_def
        dec_slice_def to_upper_def upper_char_def result_bind_def)
  then show ?thesis
    by (simp add: handler_peer_def Dispatch_def handleLoadSession_def invalid_params_def map_error_def over_server_Inr)
qed

lemma new_answer:
  "handler_peer prompt fresh skills ''session/new'' (Some (enc_NewSessionRequest cwd agentName)) (h, u) =
     (Inr (Some (JObj [(''sessionId'', JStr fresh)])),
      (sessions_Store \<lparr>ss_agentName = (if agentName = [] then ''default'' else agentName), ss_sessionID = fresh, ss_cwd = cwd,
                       ss_running = False\<rparr> h, u))"
proof -
  have "unmarshal dec_NewSessionRequest \<lparr>ns_Cwd = [], ns_Meta = None\<rparr> (Some (enc_NewSessionRequest cwd agentName)) =
      Inr \<lparr>ns_Cwd = cwd, ns_Meta = Some [(''agentName'', JStr agentName)]\<rparr>"
    by (simp add: unmarshal_def dec_NewSessionRequest_def enc_NewSessionRequest_def dec_struct_def set_field_def dec_mcpServers_def
        dec_slice_def to_upper_def upper_char_def result_bind_def)
  then show ?thesis
    by (simp add: handler_peer_def Dispatch_def handleNewSession_def invalid_params_def map_error_def over_server_Inr Let_def requested_agent_def str_or_empty_def)
qed

lemma session_answer: "dec_SessionResponse [] (JObj [(''sessionId'', JStr sid)]) = Inr sid"
  by (simp add: dec_SessionResponse_def dec_struct_def to_upper_def upper_char_def result_bind_def)

text \<open>
  C31: a run on the server's side: without a session the agent that was asked for is the session's;
  with one, the session is taken up under the agent \<open>default\<close> whichever agent was asked for, on the command
  line or as the default agent of the session.
\<close>

theorem agent_of_run:
  "\<exists>h'. open_remote_session (handler_peer prompt fresh skills) cwd sid agentName (h, u) = (Inr (if sid = [] then fresh else sid), (h', u)) \<and>
     sessions_Load h' (if sid = [] then fresh else sid) =
       Some \<lparr>ss_agentName = (if sid = [] \<and> agentName \<noteq> [] then agentName else ''default''),
             ss_sessionID = (if sid = [] then fresh else sid), ss_cwd = cwd, ss_running = False\<rparr>"
  by (auto simp: open_remote_session_def remote_def load_answer new_answer cl_LoadSession_def cl_NewSession_def call_method_def
      unmarshal_def session_answer result_bind_def map_error_def session_store.get_put)

section \<open>init\<close>

lemma init_permission_allowed:
  "outcomeIsAllowed (fst (init_permission req w)) permission_options \<longleftrightarrow> str_or_empty (tcd_Title (rp_ToolCall req)) \<in> set allowedTools"
  using selected_allowed by (simp add: init_permission_def Let_def)

lemma init_decision:
  "cm_Type (decision_on call (fst (requestPermission (client_end (init_callbacks marshal) c) parse sid call kind made))) = CmdApproveTool \<longleftrightarrow>
     pt_Name call \<in> set allowedTools"
proof -
  define req where "req = as_received (permission_request parse sid call kind)"
  have "str_or_empty (tcd_Title (rp_ToolCall req)) = pt_Name call"
    by (simp add: req_def as_received_def permission_request_def str_or_empty_def)
  moreover have "fst (requestPermission (client_end (init_callbacks marshal) c) parse sid call kind made) = Inr (fst (init_permission req c))"
    unfolding permission_answer by (simp add: init_callbacks_def req_def)
  ultimately show ?thesis using init_permission_allowed [of req c] by (simp add: decision_on_def)
qed

lemma init_proposals:
  "cmd \<in> set (snd (propose_calls (client_end (init_callbacks marshal) c) parse sid running calls (made, cmds))) \<Longrightarrow>
     cm_Type cmd = CmdApproveTool \<Longrightarrow>
     cmd \<in> set cmds \<or> (\<exists>call \<in> set calls. pt_CallID call = cm_CallID cmd \<and> pt_Name call \<in> set allowedTools)"
proof (induction calls arbitrary: made cmds)
  case (Cons call calls)
  define made1 where "made1 = sendUpdate sid (ToolCallStart (pt_CallID call) (pt_Name call) (ToolKindFromName (pt_Name call)) None
      (parseRawInput parse (pt_ArgumentsJSON call))) made"
  obtain perm made2 where r: "requestPermission (client_end (init_callbacks marshal) c) parse sid call (ToolKindFromName (pt_Name call)) made1 = (perm, made2)"
    by force
  have id: "cm_CallID (decision_on call perm) = pt_CallID call" by (simp add: decision_on_def split: sum.split)
  have name: "cm_Type (decision_on call perm) = CmdApproveTool \<Longrightarrow> pt_Name call \<in> set allowedTools"
    using init_decision [of call marshal c parse sid "ToolKindFromName (pt_Name call)" made1] r by simp
  have "cmd \<in> set (sendCommand running (decision_on call perm) cmds) \<or> (\<exists>call \<in> set calls. pt_CallID call = cm_CallID cmd \<and> pt_Name call \<in> set allowedTools)"
    using Cons.prems r by (intro Cons.IH) (simp_all add: made1_def)
  then show ?case using id name Cons.prems(2) by (auto simp: sendCommand_def split: if_splits)
qed simp

lemma read_only_tools:
  assumes "name \<in> set allowedTools"
  shows "snd (registry_Execute (service_tools pf cfg skills commands) name args ctx w) = w"
proof -
  define ts where "ts = map on_files (file_tools (pf_web pf) (pf_marshal pf) (cf_DataDir cfg) (cf_Tools cfg)) @
      [SkillTool (pf_skill_order pf) skills, on_files (CommandTool (pf_spawn pf) (pf_environ pf) (pf_env_order pf) commands)]"
  have "registry_GetTool (service_tools pf cfg skills commands) name = find (\<lambda>t. tl_Name t = name) (rev ts)"
    by (simp add: service_tools_put ts_def [symmetric] tool_store.get_put_all no_tools split: option.split)
  moreover have "find (\<lambda>t. tl_Name t = name) (rev ts) =
      Some (on_files (if name = ''read_file'' then ReadFileTool (cf_DataDir cfg) else ListFilesTool (cf_DataDir cfg)))"
    using assms by (auto simp: ts_def allowedTools_def file_tools_def ReadFileTool_def ListFilesTool_def write_file_tool_def
        edit_file_tool_def WebFetchTool_def web_fetch_Name_def SkillTool_def CommandTool_def)
  ultimately show ?thesis
    by (simp add: registry_Execute_def on_files_run ReadFileTool_def ListFilesTool_def)
qed


definition read_call :: ProposedToolCall where
  "read_call = \<lparr>pt_CallID = ''c1'', pt_Name = ''read_file'', pt_ArgumentsJSON = [], pt_Preview = []\<rparr>"


lemma init_run_content:
  "init_run peer workingDir v = (Inr content, w) \<Longrightarrow> content \<noteq> [] \<and> content = trim_space (co_output (snd w))"
  by (auto simp: init_run_def Let_def split: prod.splits sum.splits if_splits)


definition talking_peer :: "(unit \<times> collected) peer" where
  "talking_peer method params w =
     (if method = ''initialize'' then (Inr (Some initialize_response), w)
      else if method = ''session/new'' then (Inr (Some (JObj [(''sessionId'', JStr ''s1'')])), w)
      else (Inr (Some (JObj [(''stopReason'', JStr ''end_turn'')])), (fst w, (snd w)\<lparr>co_output := '' a project ''\<rparr>)))"

lemma talking_run: "\<exists>c. init_run talking_peer ''/w'' () = (Inr ''a project'', (), c) \<and> co_output c = '' a project ''"
proof -
  have p: "dec_PromptResponse [] (JObj [(''stopReason'', JStr ''end_turn'')]) = Inr ''end_turn''" by code_simp
  have i: "dec_InitializeResponse \<lparr>is_ProtocolVersion = 0, is_LoadSession = False\<rparr> initialize_response = Inr \<lparr>is_ProtocolVersion = 1, is_LoadSession = True\<rparr>"
    unfolding initialize_response_def ProtocolVersion_def JInt_def by code_simp
  have t: "trim_space '' a project '' = ''a project''" by code_simp
  show ?thesis
    by (simp add: init_run_def remote_def talking_peer_def cl_Initialize_def cl_NewSession_def cl_Prompt_def call_method_def unmarshal_def
        p i session_answer result_bind_def map_error_def announce_def t)
qed


section \<open>serve\<close>

lemma startServer_bind:
  "fst (startServer pr (cfg\<lparr>cf_Bind := b\<rparr>) p False t s) = fst (startServer pr cfg p False t s)"
  "snd (snd (startServer pr (cfg\<lparr>cf_Bind := b\<rparr>) p False t s)) = snd (snd (startServer pr cfg p False t s))"
  by (simp_all add: startServer_def split: prod.split sum.split)

text \<open>
  The address given with \<open>--bind\<close> is lost when the server is started in the background: the process that
  is started, the result and the disk are the same whatever the address is.
\<close>

theorem bind_lost:
  "fst (runServeCmd ce pf env pr start listen pid (flags\<lparr>sf_stdio := False, sf_foreground := False, sf_bind := b\<rparr>) t s) =
   fst (runServeCmd ce pf env pr start listen pid (flags\<lparr>sf_stdio := False, sf_foreground := False, sf_bind := []\<rparr>) t s)"
  "snd (snd (runServeCmd ce pf env pr start listen pid (flags\<lparr>sf_stdio := False, sf_foreground := False, sf_bind := b\<rparr>) t s)) =
   snd (snd (runServeCmd ce pf env pr start listen pid (flags\<lparr>sf_stdio := False, sf_foreground := False, sf_bind := []\<rparr>) t s))"
proof -
  have "fst (case startServer pr (cfg\<lparr>cf_Bind := b\<rparr>) p False t s of (Inl err, t2, s3) \<Rightarrow> (Inl err, t2, s3) | (Inr _, t2, s3) \<Rightarrow> (Inr InBackground, t2, s3)) =
        fst (case startServer pr cfg p False t s of (Inl err, t2, s3) \<Rightarrow> (Inl err, t2, s3) | (Inr _, t2, s3) \<Rightarrow> (Inr InBackground, t2, s3))"
    "snd (snd (case startServer pr (cfg\<lparr>cf_Bind := b\<rparr>) p False t s of (Inl err, t2, s3) \<Rightarrow> (Inl err, t2, s3) | (Inr _, t2, s3) \<Rightarrow> (Inr InBackground, t2, s3))) =
        snd (snd (case startServer pr cfg p False t s of (Inl err, t2, s3) \<Rightarrow> (Inl err, t2, s3) | (Inr _, t2, s3) \<Rightarrow> (Inr InBackground, t2, s3)))" for cfg p t s
    using startServer_bind [of pr b cfg p t s] by (auto split: prod.splits sum.splits)
  then show "fst (runServeCmd ce pf env pr start listen pid (flags\<lparr>sf_stdio := False, sf_foreground := False, sf_bind := b\<rparr>) t s) =
      fst (runServeCmd ce pf env pr start listen pid (flags\<lparr>sf_stdio := False, sf_foreground := False, sf_bind := []\<rparr>) t s)"
    "snd (snd (runServeCmd ce pf env pr start listen pid (flags\<lparr>sf_stdio := False, sf_foreground := False, sf_bind := b\<rparr>) t s)) =
     snd (snd (runServeCmd ce pf env pr start listen pid (flags\<lparr>sf_stdio := False, sf_foreground := False, sf_bind := []\<rparr>) t s))"
    by (simp_all add: runServeCmd_def Let_def split: prod.split sum.split)
qed

end
