(* ===== verification/MessageText.thy ===== *)
theory MessageText
  imports JsonRpc Window Provider
begin

text \<open>
  internal/core/types.go: how a message of a conversation is written into the session file and read from
  it, by the tags of \<open>Message\<close>, \<open>ToolCall\<close> and \<open>ToolResult\<close>. A Go map is the list of its members; the
  encoder sorts them by their keys, and decoding an object into a map keeps the last of equal keys. The
  lemmas show that the codec keeps a message, so that what a session file promises of any codec holds of
  the program's own.
\<close>

section \<open>Maps\<close>

fun sort_maps :: "json \<Rightarrow> json"
  and sort_elements :: "json list \<Rightarrow> json list"
  and sort_members :: "json_object \<Rightarrow> json_object" where
  "sort_maps (JArr vs) = JArr (sort_elements vs)"
| "sort_maps (JObj kvs) = JObj (sort_key fst (AList.clearjunk (sort_members kvs)))"
| "sort_maps v = v"
| "sort_elements [] = []"
| "sort_elements (v # vs) = sort_maps v # sort_elements vs"
| "sort_members [] = []"
| "sort_members ((k, v) # kvs) = (k, sort_maps v) # sort_members kvs"

text \<open>\<open>Unmarshal\<close> into a variable of type \<open>any\<close>.\<close>

fun read_any :: "json \<Rightarrow> json"
  and read_elements :: "json list \<Rightarrow> json list"
  and read_members :: "json_object \<Rightarrow> json_object" where
  "read_any (JArr vs) = JArr (read_elements vs)"
| "read_any (JObj kvs) = JObj (sort_key fst (AList.clearjunk (rev (read_members kvs))))"
| "read_any v = v"
| "read_elements [] = []"
| "read_elements (v # vs) = read_any v # read_elements vs"
| "read_members [] = []"
| "read_members ((k, v) # kvs) = (k, read_any v) # read_members kvs"

section \<open>The codec\<close>

definition omit_nil :: "string \<Rightarrow> ('a \<Rightarrow> json) \<Rightarrow> 'a list \<Rightarrow> json_object" where
  "omit_nil k enc xs = (if xs = [] then [] else [(k, JArr (map enc xs))])"

definition enc_ToolCall :: "ToolCall \<Rightarrow> json" where
  "enc_ToolCall c =
     JObj ([(''id'', JStr (tc_ID c)), (''name'', JStr (tc_Name c))] @
           (if tc_Arguments c = [] then [] else [(''arguments'', sort_maps (JObj (tc_Arguments c)))]))"

definition enc_ToolResult :: "ToolResult \<Rightarrow> json" where
  "enc_ToolResult r =
     JObj ([(''call_id'', JStr (tr_CallID r)), (''name'', JStr (tr_Name r)), (''output'', JStr (tr_Output r))] @
           (if tr_IsError r then [(''is_error'', JBool True)] else []))"

definition enc_Message :: "Message \<Rightarrow> json" where
  "enc_Message m =
     JObj ([(''role'', JStr (msg_Role m)), (''content'', JStr (msg_Content m))] @
           omit_nil ''tool_calls'' enc_ToolCall (msg_ToolCalls m) @
           omit_none ''tool_result'' enc_ToolResult (msg_ToolResult m) @
           omit_str ''agent_name'' (msg_AgentName m) @
           (if msg_Tokens m = 0 then [] else [(''tokens'', JInt (msg_Tokens m))]))"

text \<open>The members of an object are put into the map there is.\<close>

fun dec_arguments :: "json_object \<Rightarrow> json \<Rightarrow> json_object result" where
  "dec_arguments old (JObj kvs) = (case read_any (JObj (old @ kvs)) of JObj args \<Rightarrow> Inr args | _ \<Rightarrow> Inr [])"
| "dec_arguments old JNull = Inr []"
| "dec_arguments old v = Inl (type_error v ''map[string]interface {}'')"

definition no_call :: ToolCall where
  "no_call = \<lparr>tc_ID = [], tc_Name = [], tc_Arguments = []\<rparr>"

definition no_result :: ToolResult where
  "no_result = \<lparr>tr_CallID = [], tr_Name = [], tr_Output = [], tr_IsError = False\<rparr>"

definition call_fields :: "ToolCall field list" where
  "call_fields =
     [(''id'', set_field tc_ID_update tc_ID dec_string),
      (''name'', set_field tc_Name_update tc_Name dec_string),
      (''arguments'', set_field tc_Arguments_update tc_Arguments dec_arguments)]"

definition dec_ToolCall :: "ToolCall \<Rightarrow> json \<Rightarrow> ToolCall result" where
  "dec_ToolCall = dec_struct ''core.ToolCall'' call_fields"

definition result_fields :: "ToolResult field list" where
  "result_fields =
     [(''call_id'', set_field tr_CallID_update tr_CallID dec_string),
      (''name'', set_field tr_Name_update tr_Name dec_string),
      (''output'', set_field tr_Output_update tr_Output dec_string),
      (''is_error'', set_field tr_IsError_update tr_IsError dec_bool)]"

definition dec_ToolResult :: "ToolResult \<Rightarrow> json \<Rightarrow> ToolResult result" where
  "dec_ToolResult = dec_struct ''core.ToolResult'' result_fields"

definition core_fields :: "Message field list" where
  "core_fields =
     [(''role'', set_field msg_Role_update msg_Role dec_string),
      (''content'', set_field msg_Content_update msg_Content dec_string),
      (''tool_calls'', set_field msg_ToolCalls_update msg_ToolCalls (dec_slice dec_ToolCall no_call)),
      (''tool_result'', set_field msg_ToolResult_update msg_ToolResult (dec_ptr dec_ToolResult no_result)),
      (''agent_name'', set_field msg_AgentName_update msg_AgentName dec_string),
      (''tokens'', set_field msg_Tokens_update msg_Tokens dec_int)]"

definition dec_Message :: "Message \<Rightarrow> json \<Rightarrow> Message result" where
  "dec_Message = dec_struct ''core.Message'' core_fields"

text \<open>The text of a message in the file, and what the loader makes of a line.\<close>

definition message_text :: "(rat \<Rightarrow> string) \<Rightarrow> Message \<Rightarrow> string" where
  "message_text num m = print_json num (enc_Message m)"

definition read_message :: "string \<Rightarrow> Message option" where
  "read_message line =
     (case parse_json line of
        None \<Rightarrow> None
      | Some v \<Rightarrow> (case dec_Message (text_message [] [] 0) v of Inl _ \<Rightarrow> None | Inr m \<Rightarrow> Some m))"

section \<open>Maps read back\<close>

lemma clearjunk_member: "(k, v) \<in> set (AList.clearjunk kvs) \<Longrightarrow> (k, v) \<in> set kvs"
  by (simp add: graph_map_of [symmetric] Map.graph_def map_of_SomeD)

lemma sorted_again:
  assumes "distinct (map fst kvs)" and "sorted (map fst kvs)"
  shows "sort_key fst (AList.clearjunk (rev kvs)) = kvs"
proof -
  have "AList.clearjunk (rev kvs) = rev kvs" using assms(1) by (simp add: rev_map [symmetric])
  moreover have "sort_key fst (rev kvs) = kvs"
    using assms by (intro sort_key_inj_key_eq) (auto simp: distinct_map)
  ultimately show ?thesis by simp
qed

lemma read_members_id: "list_all (\<lambda>(k, v). read_any v = v) kvs \<Longrightarrow> read_members kvs = kvs"
  by (induction kvs) auto

lemma read_sorted:
  "read_any (sort_maps v) = sort_maps v" "read_elements (sort_elements vs) = sort_elements vs"
  "list_all (\<lambda>(k, v). read_any v = v) (sort_members kvs)"
proof (induction v and vs and kvs rule: sort_maps_sort_elements_sort_members.induct)
  case (2 kvs)
  let ?ms = "sort_key fst (AList.clearjunk (sort_members kvs))"
  have "list_all (\<lambda>(k, v). read_any v = v) ?ms"
    using 2 clearjunk_member by (fastforce simp: list_all_iff)
  moreover have "distinct (map fst ?ms)" using distinct_clearjunk [of "sort_members kvs"] by (simp add: distinct_map)
  ultimately show ?case by (simp add: read_members_id sorted_again)
qed simp_all

text \<open>An object that is a Go map: no key twice, its keys sorted, and so on inside.\<close>

definition go_map :: "json_object \<Rightarrow> bool" where
  "go_map kvs \<longleftrightarrow> sort_maps (JObj kvs) = JObj kvs"

lemma dec_go_map: "go_map kvs \<Longrightarrow> dec_arguments [] (sort_maps (JObj kvs)) = Inr kvs"
  using read_sorted(1) [of "JObj kvs"] by (simp add: go_map_def)


section \<open>Messages read back\<close>

lemma call_member:
  "find (\<lambda>(n, _). to_upper n = to_upper ''id'') call_fields = Some (''id'', set_field tc_ID_update tc_ID dec_string)"
  "find (\<lambda>(n, _). to_upper n = to_upper ''name'') call_fields = Some (''name'', set_field tc_Name_update tc_Name dec_string)"
  "find (\<lambda>(n, _). to_upper n = to_upper ''arguments'') call_fields =
     Some (''arguments'', set_field tc_Arguments_update tc_Arguments dec_arguments)"
  by (simp_all add: call_fields_def to_upper_def upper_char_def)

lemma result_member:
  "find (\<lambda>(n, _). to_upper n = to_upper ''call_id'') result_fields = Some (''call_id'', set_field tr_CallID_update tr_CallID dec_string)"
  "find (\<lambda>(n, _). to_upper n = to_upper ''name'') result_fields = Some (''name'', set_field tr_Name_update tr_Name dec_string)"
  "find (\<lambda>(n, _). to_upper n = to_upper ''output'') result_fields = Some (''output'', set_field tr_Output_update tr_Output dec_string)"
  "find (\<lambda>(n, _). to_upper n = to_upper ''is_error'') result_fields = Some (''is_error'', set_field tr_IsError_update tr_IsError dec_bool)"
  by (simp_all add: result_fields_def to_upper_def upper_char_def)

lemma core_member:
  "find (\<lambda>(n, _). to_upper n = to_upper ''role'') core_fields = Some (''role'', set_field msg_Role_update msg_Role dec_string)"
  "find (\<lambda>(n, _). to_upper n = to_upper ''content'') core_fields = Some (''content'', set_field msg_Content_update msg_Content dec_string)"
  "find (\<lambda>(n, _). to_upper n = to_upper ''tool_calls'') core_fields =
     Some (''tool_calls'', set_field msg_ToolCalls_update msg_ToolCalls (dec_slice dec_ToolCall no_call))"
  "find (\<lambda>(n, _). to_upper n = to_upper ''tool_result'') core_fields =
     Some (''tool_result'', set_field msg_ToolResult_update msg_ToolResult (dec_ptr dec_ToolResult no_result))"
  "find (\<lambda>(n, _). to_upper n = to_upper ''agent_name'') core_fields =
     Some (''agent_name'', set_field msg_AgentName_update msg_AgentName dec_string)"
  "find (\<lambda>(n, _). to_upper n = to_upper ''tokens'') core_fields = Some (''tokens'', set_field msg_Tokens_update msg_Tokens dec_int)"
  by (simp_all add: core_fields_def to_upper_def upper_char_def)

lemma dec_enc_call: "go_map (tc_Arguments c) \<Longrightarrow> dec_ToolCall no_call (enc_ToolCall c) = Inr c"
  using dec_go_map [of "tc_Arguments c"]
  by (auto simp: dec_ToolCall_def enc_ToolCall_def dec_struct_def dec_members_append call_member set_field_def no_call_def
      simp del: sort_maps.simps)

lemma dec_enc_calls:
  "list_all (\<lambda>c. go_map (tc_Arguments c)) calls \<Longrightarrow> dec_elements dec_ToolCall no_call (map enc_ToolCall calls) = Inr calls"
  by (induction calls) (simp_all add: dec_enc_call)

lemma dec_enc_result: "dec_ToolResult no_result (enc_ToolResult r) = Inr r"
  by (auto simp: dec_ToolResult_def enc_ToolResult_def dec_struct_def dec_members_append result_member set_field_def no_result_def)

lemma enc_result_not_null [simp]: "enc_ToolResult r \<noteq> JNull"
  by (simp add: enc_ToolResult_def)

definition wf_calls :: "Message \<Rightarrow> bool" where
  "wf_calls m \<longleftrightarrow> list_all (\<lambda>c. go_map (tc_Arguments c)) (msg_ToolCalls m) \<and> - (2 ^ 63) \<le> msg_Tokens m \<and> msg_Tokens m < 2 ^ 63"

lemma dec_enc_core: "wf_calls m \<Longrightarrow> dec_Message (text_message [] [] 0) (enc_Message m) = Inr m"
proof -
  assume wf: "wf_calls m"
  have c: "dec_members core_fields r (omit_nil ''tool_calls'' enc_ToolCall (msg_ToolCalls m)) = Inr (r\<lparr>msg_ToolCalls := msg_ToolCalls m\<rparr>)"
    if "msg_ToolCalls r = []" for r
    using wf that by (auto simp: omit_nil_def core_member set_field_def dec_slice_def dec_enc_calls wf_calls_def)
  have t: "dec_members core_fields r (omit_none ''tool_result'' enc_ToolResult (msg_ToolResult m)) = Inr (r\<lparr>msg_ToolResult := msg_ToolResult m\<rparr>)"
    if "msg_ToolResult r = None" for r
    using that by (auto simp: omit_none_def core_member set_field_def dec_ptr_def dec_enc_result split: option.split)
  have a: "dec_members core_fields r (omit_str ''agent_name'' (msg_AgentName m)) = Inr (r\<lparr>msg_AgentName := msg_AgentName m\<rparr>)"
    if "msg_AgentName r = []" for r
    using that by (auto simp: omit_str_def core_member set_field_def)
  have k: "dec_members core_fields r (if msg_Tokens m = 0 then [] else [(''tokens'', JInt (msg_Tokens m))]) = Inr (r\<lparr>msg_Tokens := msg_Tokens m\<rparr>)"
    if "msg_Tokens r = 0" for r
    using that wf by (auto simp: core_member set_field_def dec_int_JInt wf_calls_def)
  show ?thesis
    by (simp add: dec_Message_def enc_Message_def dec_struct_def dec_members_append core_member set_field_def c t a k
        text_message_def)
qed

text \<open>
  A message the codec keeps: its strings are UTF-8, its arguments Go maps whose numbers print as
  integers, the token count a 64-bit integer, and the arguments are not nested deeper than the reader allows.
\<close>

definition plain_message :: "Message \<Rightarrow> bool" where
  "plain_message m \<longleftrightarrow>
     wf_calls m \<and> valid_json (enc_Message m) = enc_Message m \<and> list_all plain_number (numbers (enc_Message m)) \<and>
     nesting (enc_Message m) \<le> maxNestingDepth"

lemma plain_stored: "plain_message m \<Longrightarrow> stored (message_text num) read_message m"
  using printed_line [of "enc_Message m" num]
  by (simp add: plain_message_def stored_def message_text_def read_message_def parse_print dec_enc_core)

lemma plain_text_message:
  assumes "to_valid r = r" and "to_valid c = c" and "- (2 ^ 63) \<le> n" and "n < 2 ^ 63"
  shows "plain_message (text_message r c n)"
  using assms
  by (auto simp: plain_message_def wf_calls_def enc_Message_def omit_nil_def omit_none_def omit_str_def JInt_def plain_number_def)


section \<open>The arguments of a tool call\<close>

text \<open>The text of an argument object, and the map \<open>Unmarshal\<close> makes of a text, nil when it is no object.\<close>

definition arguments_text :: "(rat \<Rightarrow> string) \<Rightarrow> json \<Rightarrow> string" where
  "arguments_text num v = print_json num (sort_maps v)"

definition read_arguments :: "string \<Rightarrow> json_object option" where
  "read_arguments input =
     (case parse_json input of
        None \<Rightarrow> None
      | Some v \<Rightarrow> (case dec_arguments [] v of Inl _ \<Rightarrow> None | Inr args \<Rightarrow> Some args))"

definition plain_arguments :: "json_object \<Rightarrow> bool" where
  "plain_arguments args \<longleftrightarrow>
     go_map args \<and> valid_json (JObj args) = JObj args \<and> list_all plain_number (numbers (JObj args)) \<and>
     nesting (JObj args) \<le> maxNestingDepth"

lemma arguments_read:
  assumes "plain_arguments args"
  shows "read_arguments (arguments_text num (JObj args)) = Some args" and "arguments_text num (JObj args) \<noteq> []"
proof -
  have s: "sort_maps (JObj args) = JObj args" using assms by (simp add: plain_arguments_def go_map_def)
  have "parse_json (print_json num (JObj args)) = Some (JObj args)"
    using assms parse_print [of "JObj args" num] by (simp add: plain_arguments_def)
  then show "read_arguments (arguments_text num (JObj args)) = Some args"
    using dec_go_map [of args] assms by (simp add: read_arguments_def arguments_text_def s plain_arguments_def del: sort_maps.simps)
  show "arguments_text num (JObj args) \<noteq> []"
    using assms print_not_empty [of "JObj args" num] by (simp add: arguments_text_def s plain_arguments_def del: sort_maps.simps)
qed

section \<open>Properties\<close>




text \<open>
  Tool calls survive the way to the model and back: what \<open>toToolCalls\<close> writes, the arguments as JSON text
  inside a JSON string, \<open>parseToolCalls\<close> reads as the same calls in the same order, for calls that have a
  name and whose arguments are Go maps of UTF-8 strings and integers.
\<close>

theorem tool_calls_text_roundtrip:
  assumes "list_all (\<lambda>c. tc_Name c \<noteq> [] \<and> plain_arguments (tc_Arguments c)) calls"
  shows "parseToolCalls read_arguments [(''tool_calls'', toToolCalls (arguments_text num) calls)] = calls"
  using assms arguments_read by (intro tool_calls_roundtrip) (auto simp: list_all_iff)

theorem tool_calls_text_roundtrip_witness:
  "let c = \<lparr>tc_ID = ''1'', tc_Name = ''read_file'', tc_Arguments = [(''limit'', JNum 2), (''path'', JStr ''a.go'')]\<rparr>
   in parseToolCalls read_arguments [(''tool_calls'', toToolCalls (arguments_text (\<lambda>_. [])) [c, c])] = [c, c]"
  unfolding Let_def
  by (rule tool_calls_text_roundtrip) (simp add: plain_arguments_def go_map_def plain_number_def ascii_valid)

end
