(* ===== verification/Identifiers.thy ===== *)
theory Identifiers
  imports MessageText Sessions
begin

text \<open>
  internal/core/id.go: the identifiers of runs, sessions, tool calls and requests, a prefix, the time and
  six random bytes. The clock and the random source are the arguments. What \<open>file_sessions.go\<close> reads from
  an identifier is the time it was made at; two identifiers are equal only when both parts are.
\<close>

section \<open>The code\<close>

text \<open>A number in a field of \<open>w\<close> digits of a time layout.\<close>

definition pad_digits :: "nat \<Rightarrow> nat \<Rightarrow> string" where
  "pad_digits w n = replicate (w - length (nat_digits n)) (CHR ''0'') @ nat_digits n"

definition timestamp_text :: "timestamp \<Rightarrow> string" where
  "timestamp_text t =
     pad_digits 4 (ts_year t) @ pad_digits 2 (ts_month t) @ pad_digits 2 (ts_day t) @ ''T'' @
     pad_digits 2 (ts_hour t) @ pad_digits 2 (ts_minute t) @ pad_digits 2 (ts_second t) @ ''.'' @ pad_digits 9 (ts_nano t)"

definition hex_EncodeToString :: "string \<Rightarrow> string" where
  "hex_EncodeToString bs = concat (map (\<lambda>b. [hex_digit (byte b div 16), hex_digit (byte b mod 16)]) bs)"

definition randomSeed :: "string \<Rightarrow> string" where
  "randomSeed buffer = hex_EncodeToString buffer"

definition NewRunID :: "timestamp \<Rightarrow> string \<Rightarrow> string" where
  "NewRunID now buffer = ''run_'' @ timestamp_text now @ ''_'' @ randomSeed buffer"

text \<open>The identifier of a session, with the clock and the random source read.\<close>

definition session_id :: "timestamp \<Rightarrow> string \<Rightarrow> string" where
  "session_id now buffer = NewSessionID (timestamp_text now) (randomSeed buffer)"

definition NewToolCallID :: "string \<Rightarrow> string" where
  "NewToolCallID buffer = ''call_'' @ randomSeed buffer"

definition NewRequestID :: "timestamp \<Rightarrow> string \<Rightarrow> string" where
  "NewRequestID now buffer = ''req_'' @ timestamp_text now @ ''_'' @ randomSeed buffer"

section \<open>Times read back\<close>

lemma digits_short: "n < 10 ^ w \<Longrightarrow> 0 < w \<Longrightarrow> length (nat_digits n) \<le> w"
proof (induction w arbitrary: n)
  case (Suc w)
  show ?case
  proof (cases "n < 10")
    case False
    then have "0 < w" using Suc.prems by (cases w) auto
    moreover have "n div 10 < 10 ^ w" using Suc.prems by (simp add: div_less_iff_less_mult mult.commute)
    ultimately show ?thesis using Suc.IH [of "n div 10"] False by (simp add: nat_digits.simps [of n])
  qed (simp add: nat_digits.simps [of n])
qed simp

lemma pad_length: "n < 10 ^ w \<Longrightarrow> 0 < w \<Longrightarrow> length (pad_digits w n) = w"
  using digits_short [of n w] by (simp add: pad_digits_def)

lemma pad_digit: "c \<in> set (pad_digits w n) \<Longrightarrow> is_digit c"
  using digits_plain [of c n] by (auto simp: pad_digits_def is_digit_def split: if_splits)

lemma number_pad [simp]: "number_of (pad_digits w n) = Some n"
proof -
  have z: "foldl (\<lambda>n c. 10 * n + (of_char c - 48)) 0 (replicate k (CHR ''0'')) = (0 :: nat)" for k
    by (induction k) simp_all
  have "list_all is_digit (pad_digits w n)" using pad_digit by (auto simp: list_all_iff)
  then show ?thesis
    using number_digits [of n] by (auto simp: number_of_def pad_digits_def z split: if_splits)
qed

definition clock_time :: "timestamp \<Rightarrow> bool" where
  "clock_time t \<longleftrightarrow> in_range t \<and> ts_year t < 10000 \<and> ts_nano t < 1000000000"

lemma field_lengths:
  assumes "clock_time t"
  shows "length (pad_digits 4 (ts_year t)) = 4" "length (pad_digits 2 (ts_month t)) = 2" "length (pad_digits 2 (ts_day t)) = 2"
    "length (pad_digits 2 (ts_hour t)) = 2" "length (pad_digits 2 (ts_minute t)) = 2" "length (pad_digits 2 (ts_second t)) = 2"
    "length (pad_digits 9 (ts_nano t)) = 9"
proof -
  have "ts_day t \<le> 31" using assms by (auto simp: clock_time_def in_range_def days_in_def split: if_splits)
  then show "length (pad_digits 4 (ts_year t)) = 4" "length (pad_digits 2 (ts_month t)) = 2" "length (pad_digits 2 (ts_day t)) = 2"
    "length (pad_digits 2 (ts_hour t)) = 2" "length (pad_digits 2 (ts_minute t)) = 2" "length (pad_digits 2 (ts_second t)) = 2"
    "length (pad_digits 9 (ts_nano t)) = 9"
    using assms by (auto simp: clock_time_def in_range_def intro!: pad_length)
qed

lemma parse_timestamp: "clock_time t \<Longrightarrow> parse_time (timestamp_text t) = Some t"
proof -
  assume t: "clock_time t"
  note len = field_lengths [OF t]
  obtain Y M D h m s n where f: "Y = pad_digits 4 (ts_year t)" "M = pad_digits 2 (ts_month t)" "D = pad_digits 2 (ts_day t)"
    "h = pad_digits 2 (ts_hour t)" "m = pad_digits 2 (ts_minute t)" "s = pad_digits 2 (ts_second t)" "n = pad_digits 9 (ts_nano t)"
    by blast
  have x: "timestamp_text t = Y @ M @ D @ CHR ''T'' # h @ m @ s @ CHR ''.'' # n" by (simp add: timestamp_text_def f)
  have l: "length Y = 4" "length M = 2" "length D = 2" "length h = 2" "length m = 2" "length s = 2" "length n = 9"
    using len by (simp_all add: f)
  have "span_of (timestamp_text t) 0 4 = Y" "span_of (timestamp_text t) 4 6 = M" "span_of (timestamp_text t) 6 8 = D"
    "span_of (timestamp_text t) 9 11 = h" "span_of (timestamp_text t) 11 13 = m" "span_of (timestamp_text t) 13 15 = s"
    "span_of (timestamp_text t) 16 25 = n" "timestamp_text t ! 8 = CHR ''T''" "timestamp_text t ! 15 = CHR ''.''"
    "length (timestamp_text t) = 25"
    unfolding x by (simp_all add: span_of_def l nth_append)
  moreover have "in_range t" using t by (simp add: clock_time_def)
  moreover have "\<lparr>ts_year = ts_year t, ts_month = ts_month t, ts_day = ts_day t, ts_hour = ts_hour t, ts_minute = ts_minute t,
      ts_second = ts_second t, ts_nano = ts_nano t\<rparr> = t" by simp
  ultimately show ?thesis by (simp only: parse_time_def f number_pad option.case prod.case Let_def simp_thms if_True)
qed

text \<open>The characters of an identifier: what is not a letter or digit is the point in the time.\<close>

lemma timestamp_chars: "c \<in> set (timestamp_text t) \<Longrightarrow> is_digit c \<or> c = CHR ''T'' \<or> c = CHR ''.''"
  using pad_digit by (auto simp: timestamp_text_def)

lemma seed_chars: "c \<in> set (randomSeed buffer) \<Longrightarrow> hex_value c \<noteq> None"
  by (auto simp: randomSeed_def hex_EncodeToString_def hex_value_digit div_less_iff_less_mult)

lemma session_timestamp: "clock_time t \<Longrightarrow> parseSessionTimestamp (session_id t buffer) = Some t"
proof -
  assume t: "clock_time t"
  have "takeWhile (\<lambda>c. c \<noteq> CHR ''_'') (timestamp_text t @ ''_'' @ randomSeed buffer) = timestamp_text t"
    using timestamp_chars [of "CHR ''_''" t] by (subst takeWhile_append2) (auto simp: is_digit_def less_eq_char_def)
  then show ?thesis
    using parse_timestamp [OF t] by (simp add: parseSessionTimestamp_def session_id_def NewSessionID_def has_prefix_def trim_prefix_def)
qed

lemma session_id_plain: "plain_id (session_id t buffer)"
  using timestamp_chars [of slash t] seed_chars [of slash buffer]
  by (auto simp: plain_id_def session_id_def NewSessionID_def is_digit_def less_eq_char_def hex_value_def)


lemma hex_digit_inj: "a < 16 \<Longrightarrow> b < 16 \<Longrightarrow> hex_digit a = hex_digit b \<longleftrightarrow> a = b"
  using hex_value_digit by (metis option.inject)

lemma seed_inj: "randomSeed a = randomSeed b \<longleftrightarrow> a = b"
proof (induction a arbitrary: b)
  case Nil
  then show ?case by (cases b) (simp_all add: randomSeed_def hex_EncodeToString_def)
next
  case (Cons x a)
  have "byte x div 16 = byte y div 16 \<Longrightarrow> byte x mod 16 = byte y mod 16 \<Longrightarrow> x = y" for y
    by (metis div_mult_mod_eq of_char_eq_iff)
  then show ?case
    using Cons by (cases b) (auto simp: randomSeed_def hex_EncodeToString_def hex_digit_inj div_less_iff_less_mult)
qed

text \<open>Two sessions get the same identifier only at the same nanosecond and with the same random bytes.\<close>

lemma session_ids_differ:
  assumes "clock_time t" and "clock_time t'"
  shows "session_id t a = session_id t' b \<longleftrightarrow> t = t' \<and> a = b"
proof -
  have "session_id t a = session_id t' b \<Longrightarrow> t = t'" using session_timestamp assms by (metis option.inject)
  then show ?thesis by (auto simp: session_id_def NewSessionID_def seed_inj)
qed

section \<open>What a session reports\<close>

lemma created_size:
  assumes "session_log.add_all enc path s ms = Inr s'" and "lookup s path = Some (FileNode [])"
  shows "lookup s' path = Some (FileNode (concat (map (\<lambda>m. enc m @ [nl]) ms)))"
proof -
  have "lookup s' path = Some (FileNode (d @ concat (map (\<lambda>m. enc m @ [nl]) ms)))"
    if "session_log.add_all enc path s ms = Inr s'" "lookup s path = Some (FileNode d)" for s d
    using that
  proof (induction ms arbitrary: s d)
    case (Cons m ms)
    then obtain s1 where s1: "sf_Append enc s path m = Inr s1" "session_log.add_all enc path s1 ms = Inr s'"
      by (auto simp: result_simps)
    then have "lookup s1 path = Some (FileNode (d @ enc m @ [nl]))"
      using Cons.prems(2) by (auto simp: sf_Append_def result_simps dest!: os_AppendFile_ok)
    from Cons.IH [OF s1(2) this] show ?case by simp
  qed simp
  from this [OF assms] show ?thesis by simp
qed

text \<open>
  C40: what is reported of a session is what was done to it: a session that was created, and to which
  messages were added in the text of \<open>encoding/json\<close>, is found under its identifier, with the time of its
  creation, the number of its messages and the size of their texts; and its name is a file of its own.
\<close>

theorem session_reported:
  assumes "session_Create BaseDir (session_id now buffer) s = (Inr (sid, path), s1)" and "faults s = []" and "clock_time now"
    and "session_log.add_all (message_text num) path s1 ms = Inr s2" and "list_all plain_message ms"
  shows "(\<exists>info. session_Get parse mtime BaseDir sid s2 = Inr info \<and> in_ID info = session_id now buffer \<and>
      in_CreatedAt info = Some now \<and> in_MessageCount info = int (length ms) \<and>
      in_FileSize info = sum_list (map (\<lambda>m. int (length (message_text num m)) + 1) ms)) \<and>
    (\<forall>now' buffer'. clock_time now' \<longrightarrow> (now', buffer') \<noteq> (now, buffer) \<longrightarrow>
      sessionPath BaseDir (session_id now' buffer') \<noteq> path)"
proof -
  have sid: "sid = session_id now buffer" and path: "path = sessionPath BaseDir sid" and new: "lookup s1 path = Some (FileNode [])"
    using session_created [of BaseDir "session_id now buffer" s sid path s1] assms(1) by blast+
  have "nl \<notin> set (message_text num m)" if "plain_message m" for m
    using plain_stored [OF that, of num] by (simp add: stored_def)
  then have "list_all (\<lambda>m. nl \<notin> set (message_text num m)) ms" using assms(5) by (auto simp: list_all_iff)
  from session_message_count [OF _ assms(2,4) this, of BaseDir sid parse mtime] obtain info where
    info: "session_Get parse mtime BaseDir sid s2 = Inr info" "in_MessageCount info = int (length ms)" "in_ID info = sid"
    using assms(1) sid by auto
  have size: "int (length (concat (map (\<lambda>m. enc m @ [nl]) xs))) = sum_list (map (\<lambda>m. int (length (enc m)) + 1) xs)"
    for enc :: "Message \<Rightarrow> string" and xs by (induction xs) simp_all
  have "os_Stat s2 path = Inr (FileNode (concat (map (\<lambda>m. message_text num m @ [nl]) ms)))"
    using info(1) created_size [OF assms(4) new] by (auto simp: session_Get_def os_Stat_def path [symmetric] split: option.splits if_splits)
  then have "in_FileSize info = sum_list (map (\<lambda>m. int (length (message_text num m)) + 1) ms)"
    "in_CreatedAt info = parseSessionTimestamp sid"
    using info(1) size [of "message_text num" ms] by (auto simp: session_Get_def path [symmetric] Let_def stat_size_def)
  moreover have "sessionPath BaseDir (session_id now' buffer') \<noteq> path" if "clock_time now'" "(now', buffer') \<noteq> (now, buffer)"
    for now' buffer'
    using session_ids_differ [OF that(1) assms(3), of buffer' buffer] sessionPath_inj [OF session_id_plain session_id_plain] that(2)
    by (simp add: path sid)
  moreover have "in_CreatedAt info = Some now" using calculation(2) session_timestamp [OF assms(3), of buffer] sid by simp
  ultimately show ?thesis using info sid by (intro conjI exI [of _ info] allI impI) simp_all
qed


definition sample_time :: timestamp where
  "sample_time = \<lparr>ts_year = 2025, ts_month = 2, ts_day = 3, ts_hour = 4, ts_minute = 5, ts_second = 6, ts_nano = 7\<rparr>"

lemma sample_session:
  "sessionPath ''/'' (session_id sample_time [CHR 0xAB]) = ''/sessions/sess_20250203T040506.000000007_ab.jsonl''"
  "path_dir ''/sessions/sess_20250203T040506.000000007_ab.jsonl'' = ''/sessions''" "sessionDir ''/'' = ''/sessions''"
  "dir_chain ''/sessions'' = [''/sessions'']"
  by code_simp+


theorem session_reported_witness:
  "\<forall>parse mtime. \<exists>s1 s2 info. session_Create ''/'' (session_id sample_time [CHR 0xAB]) \<lparr>nodes = [], faults = []\<rparr> =
       (Inr (session_id sample_time [CHR 0xAB], ''/sessions/sess_20250203T040506.000000007_ab.jsonl''), s1) \<and>
     session_log.add_all (message_text (\<lambda>_. [])) ''/sessions/sess_20250203T040506.000000007_ab.jsonl'' s1 [text_message RoleUser ''hi'' 1] = Inr s2 \<and>
     session_Get parse mtime ''/'' (session_id sample_time [CHR 0xAB]) s2 = Inr info \<and>
     in_CreatedAt info = Some sample_time \<and> in_MessageCount info = 1"
proof (intro allI, goal_cases)
  case (1 parse mtime)
  define sid P where "sid = session_id sample_time [CHR 0xAB]" and "P = sessionPath ''/'' sid"
  define s0 where "s0 = \<lparr>nodes = [], faults = [] :: ((string \<times> string) \<times> go_error) list\<rparr>"
  define s1 where "s1 = put_node P (FileNode []) (put_node ''/sessions'' DirNode s0)"
  define enc where "enc = message_text (\<lambda>_ :: rat. [] :: string)"
  have p: "P = ''/sessions/sess_20250203T040506.000000007_ab.jsonl''" using sample_session(1) by (simp only: P_def sid_def)
  have dir: "path_dir P = ''/sessions''" and ne: "P \<noteq> ''/sessions''" using sample_session(2) by (simp_all add: p)
  have f: "fault s0 op q = None" "lookup s0 q = None" for op q by (simp_all add: s0_def fault_def lookup_def)
  have c: "session_Create ''/'' sid s0 = (Inr (sid, P), s1)"
    using ne by (simp add: session_Create_def sample_session(3,4) os_MkdirAll_def os_CreateExcl_def os_WriteFile_def open_write_def is_dir_def
        P_def [symmetric] dir f s1_def Let_def)
  have "session_log.add_all enc P s1 [text_message RoleUser ''hi'' 1] = Inr (put_node P (FileNode (enc (text_message RoleUser ''hi'' 1) @ [nl])) s1)"
    using ne unfolding session_log.add_all.simps
    by (simp add: sf_Append_def os_AppendFile_def open_write_def is_dir_def dir f s1_def map_error_def)
  then obtain s2 where a: "session_log.add_all enc P s1 [text_message RoleUser ''hi'' 1] = Inr s2" by blast
  have t: "clock_time sample_time" by (simp add: clock_time_def sample_time_def in_range_def days_in_def leap_year_def)
  have "list_all plain_message [text_message RoleUser ''hi'' 1]" by (simp add: plain_text_message)
  from session_reported [OF c [unfolded sid_def] _ t a [unfolded enc_def] this, of parse mtime]
  obtain info where "session_Get parse mtime ''/'' sid s2 = Inr info" "in_CreatedAt info = Some sample_time" "in_MessageCount info = 1"
    by (auto simp: s0_def sid_def)
  then show ?case using c a unfolding sid_def p enc_def s0_def by blast
qed

end
