(* ===== verification/PreviewText.thy ===== *)
theory PreviewText
  imports BuiltinTools Server MessageText
begin

text \<open>
  The JSON text of a structured preview (the tags of internal/tool/diff/diff.go) and its way to the client:
  edit_file marshals the preview, the agent proposes the call with the text, and the server decodes the text
  into a value of type \<open>any\<close> for the permission request. What the client is shown is, when applied to the
  file, what the call writes.
\<close>

section \<open>The codec\<close>

definition enc_DiffLine :: "DiffLine \<Rightarrow> json" where
  "enc_DiffLine l =
     JObj ([(''type'', JStr (dl_Type l)), (''content'', JStr (dl_Content l))] @ omit_none ''old_number'' JInt (dl_OldNumber l) @
           omit_none ''new_number'' JInt (dl_NewNumber l) @ omit_none ''hash'' JStr (dl_Hash l))"

definition enc_DiffBlock :: "DiffBlock \<Rightarrow> json" where
  "enc_DiffBlock b =
     JObj [(''header'', JStr (db_Header b)), (''old_start_line'', JInt (db_OldStartLine b)),
           (''new_start_line'', JInt (db_NewStartLine b)), (''lines'', JArr (map enc_DiffLine (db_Lines b)))]"

definition enc_DiffSummary :: "DiffSummary \<Rightarrow> json" where
  "enc_DiffSummary s =
     JObj [(''total_edits'', JInt (ds_TotalEdits s)), (''operations'', sort_maps (JObj (map (apsnd JInt) (ds_Operations s)))),
           (''lines_added'', JInt (ds_LinesAdded s)), (''lines_removed'', JInt (ds_LinesRemoved s)), (''net_change'', JInt (ds_NetChange s))]"

definition enc_DiffPreview :: "DiffPreview \<Rightarrow> json" where
  "enc_DiffPreview p =
     JObj [(''path'', JStr (dp_Path p)), (''summary'', enc_DiffSummary (dp_Summary p)),
           (''blocks'', JArr (map enc_DiffBlock (dp_Blocks p)))]"

definition marshal_preview :: "(rat \<Rightarrow> string) \<Rightarrow> DiffPreview \<Rightarrow> string result" where
  "marshal_preview num p = Inr (print_json num (enc_DiffPreview p))"

text \<open>\<open>Unmarshal\<close> into a variable of type \<open>any\<close>, as the server does with the preview and the arguments.\<close>

definition parse_any :: "(string \<Rightarrow> go_error) \<Rightarrow> string \<Rightarrow> json result" where
  "parse_any err input = result_bind (json_parse err input) (\<lambda>v. Inr (read_any v))"

section \<open>What a client reads\<close>

text \<open>The blocks of a preview that was received, read by the same tags.\<close>

definition no_line :: DiffLine where
  "no_line = \<lparr>dl_Type = [], dl_Content = [], dl_OldNumber = None, dl_NewNumber = None, dl_Hash = None\<rparr>"

definition line_fields :: "DiffLine field list" where
  "line_fields =
     [(''type'', set_field dl_Type_update dl_Type dec_string), (''content'', set_field dl_Content_update dl_Content dec_string),
      (''old_number'', set_field dl_OldNumber_update dl_OldNumber (dec_ptr dec_int 0)),
      (''new_number'', set_field dl_NewNumber_update dl_NewNumber (dec_ptr dec_int 0)),
      (''hash'', set_field dl_Hash_update dl_Hash (dec_ptr dec_string []))]"

definition no_block :: DiffBlock where
  "no_block = \<lparr>db_Header = [], db_OldStartLine = 0, db_NewStartLine = 0, db_Lines = []\<rparr>"

definition block_fields :: "DiffBlock field list" where
  "block_fields =
     [(''header'', set_field db_Header_update db_Header dec_string),
      (''old_start_line'', set_field db_OldStartLine_update db_OldStartLine dec_int),
      (''new_start_line'', set_field db_NewStartLine_update db_NewStartLine dec_int),
      (''lines'', set_field db_Lines_update db_Lines (dec_slice (dec_struct ''diff.DiffLine'' line_fields) no_line))]"

definition received_blocks :: "json \<Rightarrow> DiffBlock list result" where
  "received_blocks v =
     dec_struct ''diff.DiffPreview'' [(''blocks'', dec_slice (dec_struct ''diff.DiffBlock'' block_fields) no_block)] [] v"

section \<open>Blocks read back\<close>

definition int_number :: "rat \<Rightarrow> bool" where
  "int_number q \<longleftrightarrow> of_int \<lfloor>q\<rfloor> = q \<and> - (2 ^ 63) \<le> q \<and> q < 2 ^ 63"

lemma int_plain: "int_number q \<Longrightarrow> plain_number q"
  by (simp add: int_number_def plain_number_def)

lemma int_numberD: "int_number (of_int i) \<Longrightarrow> - (2 ^ 63) \<le> i \<and> i < 2 ^ 63"
proof -
  assume "int_number (of_int i)"
  then have "of_int (- (2 ^ 63)) \<le> (of_int i :: rat)" "(of_int i :: rat) < of_int (2 ^ 63)" by (simp_all add: int_number_def)
  then show ?thesis by (simp only: of_int_le_iff of_int_less_iff)
qed

lemma line_member:
  "find (\<lambda>(n, _). to_upper n = to_upper ''type'') line_fields = Some (''type'', set_field dl_Type_update dl_Type dec_string)"
  "find (\<lambda>(n, _). to_upper n = to_upper ''content'') line_fields = Some (''content'', set_field dl_Content_update dl_Content dec_string)"
  "find (\<lambda>(n, _). to_upper n = to_upper ''old_number'') line_fields =
     Some (''old_number'', set_field dl_OldNumber_update dl_OldNumber (dec_ptr dec_int 0))"
  "find (\<lambda>(n, _). to_upper n = to_upper ''new_number'') line_fields =
     Some (''new_number'', set_field dl_NewNumber_update dl_NewNumber (dec_ptr dec_int 0))"
  "find (\<lambda>(n, _). to_upper n = to_upper ''hash'') line_fields = Some (''hash'', set_field dl_Hash_update dl_Hash (dec_ptr dec_string []))"
  by (simp_all add: line_fields_def to_upper_def upper_char_def)

lemma block_member:
  "find (\<lambda>(n, _). to_upper n = to_upper ''header'') block_fields = Some (''header'', set_field db_Header_update db_Header dec_string)"
  "find (\<lambda>(n, _). to_upper n = to_upper ''old_start_line'') block_fields =
     Some (''old_start_line'', set_field db_OldStartLine_update db_OldStartLine dec_int)"
  "find (\<lambda>(n, _). to_upper n = to_upper ''new_start_line'') block_fields =
     Some (''new_start_line'', set_field db_NewStartLine_update db_NewStartLine dec_int)"
  "find (\<lambda>(n, _). to_upper n = to_upper ''lines'') block_fields =
     Some (''lines'', set_field db_Lines_update db_Lines (dec_slice (dec_struct ''diff.DiffLine'' line_fields) no_line))"
  by (simp_all add: block_fields_def to_upper_def upper_char_def)

lemma read_any_JInt [simp]: "read_any (JInt i) = JInt i" "numbers (JInt i) = [of_int i]" "valid_json (JInt i) = JInt i" "sort_maps (JInt i) = JInt i"
  by (simp_all add: JInt_def)

lemma read_line:
  "read_any (enc_DiffLine l) =
     JObj ((''content'', JStr (dl_Content l)) # omit_none ''hash'' JStr (dl_Hash l) @ omit_none ''new_number'' JInt (dl_NewNumber l) @
           omit_none ''old_number'' JInt (dl_OldNumber l) @ [(''type'', JStr (dl_Type l))])"
  by (cases "dl_Hash l"; cases "dl_NewNumber l"; cases "dl_OldNumber l") (simp_all add: enc_DiffLine_def omit_none_def)

lemma line_received:
  assumes "list_all int_number (numbers (enc_DiffLine l))"
  shows "dec_struct ''diff.DiffLine'' line_fields no_line (read_any (enc_DiffLine l)) = Inr l"
  using assms
  by (cases "dl_Hash l"; cases "dl_NewNumber l"; cases "dl_OldNumber l")
    (auto simp: read_line enc_DiffLine_def omit_none_def dec_struct_def line_member set_field_def no_line_def dec_ptr_def
      dec_int_JInt dest!: int_numberD)


lemma read_elements_map: "read_elements (map enc xs) = map (\<lambda>x. read_any (enc x)) xs"
  by (induction xs) simp_all

lemma dec_elements_map:
  assumes "\<forall>x \<in> set xs. d zero (f x) = Inr x"
  shows "dec_elements d zero (map f xs) = Inr xs"
  using assms by (induction xs) simp_all

lemma numbers_elements: "list_all P (element_numbers (map enc xs)) \<longleftrightarrow> (\<forall>x \<in> set xs. list_all P (numbers (enc x)))"
  by (induction xs) auto

lemma block_received:
  assumes "list_all int_number (numbers (enc_DiffBlock b))"
  shows "dec_struct ''diff.DiffBlock'' block_fields no_block (read_any (enc_DiffBlock b)) = Inr b"
proof -
  have "dec_elements (dec_struct ''diff.DiffLine'' line_fields) no_line (map (\<lambda>l. read_any (enc_DiffLine l)) (db_Lines b)) = Inr (db_Lines b)"
    using assms line_received by (intro dec_elements_map) (auto simp: enc_DiffBlock_def numbers_elements)
  moreover have "- (2 ^ 63) \<le> db_OldStartLine b \<and> db_OldStartLine b < 2 ^ 63" "- (2 ^ 63) \<le> db_NewStartLine b \<and> db_NewStartLine b < 2 ^ 63"
    using assms int_numberD by (auto simp: enc_DiffBlock_def)
  moreover have "read_any (enc_DiffBlock b) =
      JObj [(''header'', JStr (db_Header b)), (''lines'', JArr (map (\<lambda>l. read_any (enc_DiffLine l)) (db_Lines b))),
            (''new_start_line'', JInt (db_NewStartLine b)), (''old_start_line'', JInt (db_OldStartLine b))]"
    by (simp add: enc_DiffBlock_def read_elements_map)
  ultimately show ?thesis
    by (simp add: dec_struct_def block_member set_field_def no_block_def dec_slice_def dec_int_JInt)
qed

lemma preview_received_blocks:
  assumes "list_all int_number (numbers (enc_DiffPreview p))"
  shows "received_blocks (read_any (enc_DiffPreview p)) = Inr (dp_Blocks p)"
proof -
  have "dec_elements (dec_struct ''diff.DiffBlock'' block_fields) no_block (map (\<lambda>b. read_any (enc_DiffBlock b)) (dp_Blocks p)) = Inr (dp_Blocks p)"
    using assms block_received by (intro dec_elements_map) (auto simp: enc_DiffPreview_def numbers_elements)
  moreover have "read_any (enc_DiffPreview p) =
      JObj [(''blocks'', JArr (map (\<lambda>b. read_any (enc_DiffBlock b)) (dp_Blocks p))), (''path'', JStr (dp_Path p)),
            (''summary'', read_any (enc_DiffSummary (dp_Summary p)))]"
    by (simp add: enc_DiffPreview_def read_elements_map)
  ultimately show ?thesis
    by (simp add: received_blocks_def dec_struct_def dec_slice_def to_upper_def upper_char_def)
qed

lemma nesting_elements: "\<forall>x \<in> set xs. nesting (enc x) \<le> n \<Longrightarrow> element_nesting (map enc xs) \<le> n"
  by (induction xs) auto

lemma nesting_JInt [simp]: "nesting (JInt i) = 0"
  by (simp add: JInt_def)

lemma nesting_sorted: "\<forall>x \<in> set kvs. nesting (snd x) \<le> n \<Longrightarrow> member_nesting kvs \<le> n"
  by (induction kvs) auto

lemma preview_nesting: "nesting (enc_DiffPreview p) \<le> 5"
proof -
  have "nesting (enc_DiffLine l) \<le> 1" for l
    by (cases "dl_Hash l"; cases "dl_NewNumber l"; cases "dl_OldNumber l") (simp_all add: enc_DiffLine_def omit_none_def)
  then have "element_nesting (map enc_DiffLine ls) \<le> 1" for ls by (intro nesting_elements) blast
  then have "nesting (enc_DiffBlock b) \<le> 3" for b by (simp add: enc_DiffBlock_def le_diff_conv)
  then have "element_nesting (map enc_DiffBlock bs) \<le> 3" for bs by (intro nesting_elements) blast
  moreover have "member_nesting (sort_key fst (AList.clearjunk (sort_members (map (apsnd JInt) ops)))) \<le> 0" for ops :: "(string \<times> int) list"
  proof (rule nesting_sorted, intro ballI, goal_cases)
    case (1 x)
    have "sort_members (map (apsnd JInt) ops) = map (apsnd JInt) ops"
      by (induction ops) (auto simp: JInt_def)
    then show ?case using 1 clearjunk_member [of "fst x" "snd x" "map (apsnd JInt) ops"] by auto
  qed
  then have "nesting (enc_DiffSummary s) \<le> 2" for s by (simp add: enc_DiffSummary_def)
  ultimately show ?thesis by (simp add: enc_DiffPreview_def le_diff_conv le_Suc_eq max_def) (meson le_trans numeral_le_iff semiring_norm)
qed

text \<open>A preview whose text keeps it: its strings are UTF-8, its numbers 64-bit integers.\<close>

definition plain_preview :: "DiffPreview \<Rightarrow> bool" where
  "plain_preview p \<longleftrightarrow> valid_json (enc_DiffPreview p) = enc_DiffPreview p \<and> list_all int_number (numbers (enc_DiffPreview p))"

lemma preview_parsed:
  assumes "plain_preview p"
  shows "parse_any err (print_json num (enc_DiffPreview p)) = Inr (read_any (enc_DiffPreview p))"
proof -
  have "list_all plain_number (numbers (enc_DiffPreview p))" using assms int_plain by (auto simp: plain_preview_def list_all_iff)
  moreover have "nesting (enc_DiffPreview p) \<le> maxNestingDepth" using preview_nesting [of p] by simp
  ultimately show ?thesis using assms json_parse_print by (simp add: parse_any_def plain_preview_def)
qed

section \<open>Properties\<close>



section \<open>A preview to check the statement on\<close>

lemma hash_ascii: "list_all (\<lambda>c. byte c < 0x80) (ComputeLineHash x)"
proof -
  have "byte (base64url n) < 0x80" if "n < 64" for n using that by (auto simp: base64url_def)
  moreover have "sextet c k < 64" for c k
  proof -
    have "drop_bit k c AND 63 \<le> 63" by (rule word_and_le1)
    then show ?thesis by (simp add: sextet_def word_le_nat_alt)
  qed
  ultimately show ?thesis by (simp add: ComputeLineHash_def Let_def)
qed

lemma sample_diff:
  "GenerateStructuredDiffWithHashes ''a.txt'' (''one'' @ nl # ''two'' @ [nl]) (''one'' @ nl # ''deux'' @ [nl])
     (Some [(1, h1), (2, h2)]) (Some [(1, h3), (2, h4)]) =
     \<lparr>dp_Path = ''a.txt'',
      dp_Summary = \<lparr>ds_TotalEdits = 1, ds_Operations = [], ds_LinesAdded = 1, ds_LinesRemoved = 1, ds_NetChange = 0\<rparr>,
      dp_Blocks = [\<lparr>db_Header = ''@@ -1,2 +1,2 @@'', db_OldStartLine = 1, db_NewStartLine = 1,
        db_Lines = [\<lparr>dl_Type = ''context'', dl_Content = ''one'', dl_OldNumber = Some 1, dl_NewNumber = Some 1, dl_Hash = Some h1\<rparr>,
                    \<lparr>dl_Type = ''delete'', dl_Content = ''two'', dl_OldNumber = Some 2, dl_NewNumber = None, dl_Hash = Some h2\<rparr>,
                    \<lparr>dl_Type = ''insert'', dl_Content = ''deux'', dl_OldNumber = None, dl_NewNumber = Some 2, dl_Hash = Some h4\<rparr>]\<rparr>]\<rparr>"
  by code_simp

lemma sample_preview_plain:
  assumes "PreviewStructured sample_tool (sample_args (ComputeLineHash ''two'')) [] sample_fs = Inr preview"
  shows "plain_preview preview"
proof -
  have old: "assembleContent [''one'', ''two''] True = ''one'' @ nl # ''two'' @ [nl]"
    and new: "assembleContent [''one'', ''deux''] True = ''one'' @ nl # ''deux'' @ [nl]" by code_simp+
  have hashes: "GenerateHashMap [x, y] = [(1, ComputeLineHash x), (2, ComputeLineHash y)]" for x y
    by (simp add: GenerateHashMap_def)
  have valid: "to_valid (ComputeLineHash x) = ComputeLineHash x" for x by (rule ascii_valid [OF hash_ascii])
  show ?thesis
    using assms
    by (auto simp: PreviewStructured_def sample_prepare old new hashes sample_diff [simplified] Let_def plain_preview_def enc_DiffPreview_def
        enc_DiffSummary_def enc_DiffBlock_def enc_DiffLine_def omit_none_def valid count_operation_def sample_edit_def int_number_def)
qed


end
