(* ===== verification/WireCalls.thy ===== *)
theory WireCalls
  imports JsonRpc "HOL-Library.Multiset"
begin

text \<open>
  Calls over the text of the connection: what internal/protocol/jsonrpc.go does at both ends, put together.
  One side writes requests, the other reads them, runs its method handler on each in a goroutine
  of its own and writes the responses as they are ready, and the first side reads those. The property
  says that each call gets exactly one response, the one to its own request, and what it returns.
\<close>

section \<open>The two ends\<close>

text \<open>What fits through the connection: 64-bit identifiers, numbers that print as integers, no deep nesting, a line that fits.\<close>

definition sendable :: "(rat \<Rightarrow> string) \<Rightarrow> jsonrpcMessage \<Rightarrow> bool" where
  "sendable num m \<longleftrightarrow>
     wf_message m \<and> list_all plain_number (numbers (enc_message m)) \<and> nesting (enc_message m) \<le> maxNestingDepth \<and>
     length (print_json num (enc_message m)) < maxMessageSize"

definition wire :: "(rat \<Rightarrow> string) \<Rightarrow> (string \<Rightarrow> go_error) \<Rightarrow> jsonrpcMessage list \<Rightarrow> jsonrpcMessage list" where
  "wire num err ms = read_messages (json_parse err) (fold (writeMessage (print_json num)) ms [])"

text \<open>The responses to the requests read; the goroutines that make them write them in any order.\<close>

definition responses :: "(string \<Rightarrow> json option \<Rightarrow> json result) option \<Rightarrow> jsonrpcMessage list \<Rightarrow> jsonrpcMessage list" where
  "responses handler ms = map (handleRequest handler) (filter (\<lambda>m. classify m = RequestCall) ms)"

text \<open>What the call with the identifier \<open>i\<close> is given by the messages read.\<close>

definition results_for :: "int option \<Rightarrow> jsonrpcMessage list \<Rightarrow> json option result list" where
  "results_for i ms = map (\<lambda>m. call_result (response_of m)) (filter (\<lambda>m. classify m = Response \<and> jm_ID m = i) ms)"

section \<open>Each call gets the answer to its own request\<close>

lemma wire_valid: "list_all (sendable num) ms \<Longrightarrow> wire num err ms = map valid_message ms"
  unfolding wire_def by (rule read_written) (use sent_line in \<open>auto simp: list_all_iff sendable_def read_sent\<close>)

lemma valid_message_sel [simp]:
  "jm_ID (valid_message m) = jm_ID m" "jm_Method (valid_message m) = to_valid (jm_Method m)"
  "jm_Params (valid_message m) = map_option valid_json (jm_Params m)"
  "jm_Result (valid_message m) = map_option valid_json (jm_Result m)"
  "jm_Error (valid_message m) = map_option (apsnd to_valid) (jm_Error m)"
  by (simp_all add: valid_message_def)

lemma classify_valid [simp]: "classify (valid_message m) = classify m"
  by (simp add: classify_def)

lemma handled_sel:
  "jm_ID (handleRequest handler m) = jm_ID m" "jm_Method (handleRequest handler m) = []"
  by (auto simp: handleRequest_def no_message_def split: option.split sum.split)

lemma request_calls: "classify m = RequestCall \<longleftrightarrow> jm_ID m \<noteq> None \<and> jm_Method m \<noteq> []"
  by (simp add: classify_def)

lemma handled_response: "jm_ID m \<noteq> None \<Longrightarrow> classify (handleRequest handler m) = Response"
  by (simp add: classify_def handled_sel)

lemma responses_to:
  "list_all (\<lambda>m. classify m = RequestCall) ms \<Longrightarrow> responses handler ms = map (handleRequest handler) ms"
  by (simp add: responses_def list_all_iff filter_id_conv)

text \<open>Among messages with different identifiers there is one of each, in every order.\<close>

lemma filter_distinct_key:
  "distinct (map f xs) \<Longrightarrow> x \<in> set xs \<Longrightarrow> filter (\<lambda>y. f y = f x) xs = [x]"
proof (induction xs)
  case (Cons y ys)
  show ?case
  proof (cases "x = y")
    case True
    then have "\<forall>z \<in> set ys. f z \<noteq> f x" using Cons.prems(1) by (metis (no_types) distinct.simps(2) image_eqI list.set_map list.simps(9))
    then have "filter (\<lambda>z. f z = f x) ys = []" by (simp add: filter_empty_conv)
    then show ?thesis using True by simp
  next
    case False
    then have "f y \<noteq> f x" using Cons.prems by auto
    then show ?thesis using Cons False by simp
  qed
qed simp

lemma filter_permuted:
  assumes "mset ys = mset xs" and "distinct (map f xs)" and "x \<in> set xs"
  shows "filter (\<lambda>y. f y = f x) ys = [x]"
proof (rule filter_distinct_key)
  have "mset (map f ys) = mset (map f xs)" by (simp add: assms(1))
  then show "distinct (map f ys)" using assms(2) by (metis mset_eq_imp_distinct_iff)
  show "x \<in> set ys" using assms(1,3) by (metis set_mset_mset)
qed

text \<open>
  C28: of requests with different identifiers that are in flight at the same time each call returns once,
  whatever the order in which the responses are written, as long as both sides' messages fit through: what the handler of the other side returned for the
  method and the parameters of that very request, its result or the code and message of its error, an
  error without a code as an internal error with its text. Strings that are no UTF-8 are replaced on the way.
\<close>

theorem calls_answered:
  assumes "list_all (\<lambda>m. classify m = RequestCall \<and> sendable num m) requests" and "distinct (map jm_ID requests)"
    and "mset answers = mset (responses (Some h) (wire num err requests))" and "list_all (sendable num) answers"
    and "m \<in> set requests"
  shows "results_for (jm_ID m) (wire num err answers) =
     [case h (to_valid (jm_Method m)) (map_option valid_json (jm_Params m)) of
        Inr data \<Rightarrow> Inr (Some (valid_json data))
      | Inl failure \<Rightarrow>
          (case as_rpc_error failure of
             Some (code, message) \<Rightarrow> Inl (NewRPCError code (to_valid message))
           | None \<Rightarrow> Inl (NewRPCError ErrInternalError (to_valid (error_text failure))))]"
proof -
  let ?answer = "\<lambda>m. handleRequest (Some h) (valid_message m)"
  have calls: "list_all (\<lambda>m. classify m = RequestCall) (map valid_message requests)"
    using assms(1) by (simp add: list_all_iff)
  have sent: "wire num err requests = map valid_message requests"
    using assms(1) by (intro wire_valid) (simp add: list_all_iff)
  have answers: "mset answers = mset (map ?answer requests)"
    using assms(3) by (simp add: sent responses_to [OF calls] comp_def)
  have member: "?answer m \<in> set (map ?answer requests)" using assms(5) by simp
  have keys: "distinct (map jm_ID (map ?answer requests))"
    using assms(2) by (simp add: comp_def handled_sel)
  have mine: "filter (\<lambda>a. jm_ID a = jm_ID m) answers = [?answer m]"
    using filter_permuted [OF answers keys member] by (simp add: handled_sel)
  have "classify a = Response" if "a \<in> set answers" for a
  proof -
    have "a \<in> set (map ?answer requests)" using that answers by (metis set_mset_mset)
    then show ?thesis using assms(1) by (auto simp: list_all_iff request_calls handled_response)
  qed
  then have "filter (\<lambda>a. classify a = Response \<and> jm_ID a = jm_ID m) answers = [?answer m]"
    unfolding mine [symmetric] by (intro filter_cong) auto
  then have "results_for (jm_ID m) (wire num err answers) = [call_result (response_of (valid_message (?answer m)))]"
    by (simp add: results_for_def wire_valid [OF assms(4)] filter_map comp_def)
  then show ?thesis
    by (auto simp: call_result_def response_of_def handleRequest_def no_message_def split: option.split sum.split)
qed

text \<open>Two calls in flight, answered in the other order, one by a result and one by an error.\<close>

definition two_requests :: "jsonrpcMessage list" where
  "two_requests = [request_message 1 ''ping'' (Some (JStr [CHR 0xFF])), request_message 2 ''boom'' None]"

definition two_handler :: "string \<Rightarrow> json option \<Rightarrow> json result" where
  "two_handler method params =
     (case params of None \<Rightarrow> Inl (Errorf ''call: %w'' [AErr (NewRPCError ErrNotFound ''gone'')]) | Some v \<Rightarrow> Inr v)"

definition two_answers :: "jsonrpcMessage list" where
  "two_answers = rev (responses (Some two_handler) (map valid_message two_requests))"

lemmas two_defs = two_requests_def request_message_def no_message_def enc_message_def omit_none_def omit_str_def
  JInt_def plain_number_def wf_message_def sendable_def

lemma two_sendable: "list_all (\<lambda>m. classify m = RequestCall \<and> sendable (\<lambda>_. []) m) two_requests"
  by (simp add: two_defs classify_def print_number_def itoa_def nat_digits.simps quote_json_def json_escape_def json_hex_def
      rune_rest_def utf8_lead_def)

lemma two_answers:
  "two_answers =
     [no_message\<lparr>jm_ID := Some 2, jm_Error := Some (ErrNotFound, ''gone'')\<rparr>,
      no_message\<lparr>jm_ID := Some 1, jm_Result := Some (JStr [CHR 0xEF, CHR 0xBF, CHR 0xBD])\<rparr>]"
  by (simp add: two_answers_def two_requests_def request_message_def responses_def classify_def no_message_def
      handleRequest_def two_handler_def valid_message_def as_rpc_NewRPCError rpc_format_def rune_rest_def utf8_lead_def NewRPCError_def)

lemma two_answers_sendable: "list_all (sendable (\<lambda>_. [])) two_answers"
  unfolding two_answers
  by (simp add: two_defs enc_rpc_error_def print_number_def itoa_def nat_digits.simps quote_json_def json_escape_def json_hex_def
      rune_rest_def utf8_lead_def)

theorem calls_answered_witness:
  "results_for (Some 1) (wire (\<lambda>_. []) (\<lambda>_. Errorf [] []) two_answers) =
     [Inr (Some (JStr [CHR 0xEF, CHR 0xBF, CHR 0xBD]))] \<and>
   results_for (Some 2) (wire (\<lambda>_. []) (\<lambda>_. Errorf [] []) two_answers) = [Inl (NewRPCError ErrNotFound ''gone'')]"
proof -
  have "distinct (map jm_ID two_requests)" by (simp add: two_requests_def request_message_def no_message_def)
  moreover have "wire (\<lambda>_. []) (\<lambda>_. Errorf [] []) two_requests = map valid_message two_requests"
    using two_sendable by (intro wire_valid) (simp add: list_all_iff)
  then have "mset two_answers = mset (responses (Some two_handler) (wire (\<lambda>_. []) (\<lambda>_. Errorf [] []) two_requests))"
    by (simp add: two_answers_def)
  moreover have "request_message 1 ''ping'' (Some (JStr [CHR 0xFF])) \<in> set two_requests"
    "request_message 2 ''boom'' None \<in> set two_requests"
    by (simp_all add: two_requests_def)
  ultimately show ?thesis
    using calls_answered [OF two_sendable _ _ two_answers_sendable, where err = "\<lambda>_. Errorf [] []" and h = two_handler
        and m = "request_message 1 ''ping'' (Some (JStr [CHR 0xFF]))"]
      calls_answered [OF two_sendable _ _ two_answers_sendable, where err = "\<lambda>_. Errorf [] []" and h = two_handler
        and m = "request_message 2 ''boom'' None"]
    by (simp add: two_handler_def request_message_def no_message_def rpc_format_def NewRPCError_def rune_rest_def utf8_lead_def continuation_def)
qed

end
